(* ===== verification/Vcam_Prelude.thy ===== *)
theory Vcam_Prelude
  imports Main "HOL-Library.Word"
begin

text \<open>
  Shared ground of the development.  The fixed-width C++ integer types are word
  types, so that \<open>+\<close> wraps exactly as the unsigned C++ operator does; the
  collections declared here gather the rewrite rules that the component theories
  hand to the simplifier; the generic lemmas on bytes, words, lists and options are
  the ones that more than one component uses.
\<close>

unbundle bit_operations_syntax

type_synonym uint8 = "8 word"
type_synonym uint16 = "16 word"
type_synonym uint32 = "32 word"
type_synonym uint64 = "64 word"
type_synonym uintptr = "64 word"
type_synonym size_t = "64 word"
type_synonym bytes = "uint8 list"

named_theorems byte_simps \<open>rewrite rules about byte encodings\<close>
named_theorems status_simps \<open>projections of the result records of the components\<close>
named_theorems txn_defs \<open>operations of the patch transaction, unfolded\<close>


section \<open>Address ranges\<close>

text \<open>
  The helper \<open>rangeEnd\<close> occurs with the same body in the install transaction, in
  the quiescence coordinator and in the activation preflight: it computes the exclusive end of
  a range and fails on an empty range and on wrap-around.
\<close>

definition rangeEnd :: "uintptr \<Rightarrow> size_t \<Rightarrow> uintptr option" where
  "rangeEnd address sz =
     (if sz = 0 \<or> address > (- 1) - sz then None else Some (address + sz))"

definition range_bytes :: "uintptr \<Rightarrow> nat \<Rightarrow> uintptr set" where
  "range_bytes a n = {a + of_nat i | i. i < n}"

lemma unat_max64 [simp]: "unat (- 1 :: uint64) = 2 ^ 64 - 1"
  by (simp add: unsigned_minus_1_eq_mask mask_eq_exp_minus_1)

lemma unat_lt64: "unat (s :: uint64) < 2 ^ 64"
  using unsigned_less [where 'a = nat, of s] by simp

lemma word_max_minus_le_iff:
  fixes a s :: uintptr
  shows "a \<le> (- 1) - s \<longleftrightarrow> unat a + unat s < 2 ^ 64"
proof -
  have "unat ((- 1) - s) = 2 ^ 64 - 1 - unat s"
    by (subst unat_sub) simp_all
  then show ?thesis
    using unat_lt64 [of s] by (auto simp: word_le_nat_alt)
qed

lemma rangeEnd_Some_iff:
  "rangeEnd a s = Some e \<longleftrightarrow> s \<noteq> 0 \<and> unat a + unat s < 2 ^ 64 \<and> e = a + s"
  unfolding rangeEnd_def
  by (auto simp: word_max_minus_le_iff simp flip: not_le)

lemma rangeEnd_unat:
  assumes "rangeEnd a s = Some e"
  shows "unat e = unat a + unat s" "a < e"
proof -
  from assms have *: "s \<noteq> 0" "unat a + unat s < 2 ^ 64" "e = a + s"
    by (simp_all add: rangeEnd_Some_iff)
  show ue: "unat e = unat a + unat s"
    using *(2) unfolding *(3) by (simp add: unat_word_ariths)
  have "0 < unat s"
    using *(1) by (simp add: unat_gt_0)
  with ue show "a < e"
    by (simp add: word_less_nat_alt)
qed


lemma range_bytes_iff:
  assumes "unat a + n < 2 ^ 64"
  shows "x \<in> range_bytes a n \<longleftrightarrow> unat a \<le> unat x \<and> unat x < unat a + n"
proof
  assume "x \<in> range_bytes a n"
  then obtain i where i: "i < n" "x = a + of_nat i"
    by (auto simp: range_bytes_def)
  with assms have "unat (of_nat i :: uintptr) = i"
    by (simp add: unat_of_nat)
  with i assms have "unat x = unat a + i"
    by (simp add: unat_word_ariths)
  with i show "unat a \<le> unat x \<and> unat x < unat a + n"
    by simp
next
  assume *: "unat a \<le> unat x \<and> unat x < unat a + n"
  then have "x = a + of_nat (unat x - unat a)"
    by (simp add: of_nat_diff)
  with * show "x \<in> range_bytes a n"
    by (auto simp: range_bytes_def intro: exI [of _ "unat x - unat a"])
qed

lemma range_bytes_disjoint:
  assumes "rangeEnd a s = Some e" "rangeEnd a' s' = Some e'" "e \<le> a' \<or> e' \<le> a"
  shows "range_bytes a (unat s) \<inter> range_bytes a' (unat s') = {}"
proof -
  have w: "unat a + unat s < 2 ^ 64" "unat a' + unat s' < 2 ^ 64"
    using assms by (simp_all add: rangeEnd_Some_iff)
  from assms(3) have "unat a + unat s \<le> unat a' \<or> unat a' + unat s' \<le> unat a"
    by (simp add: word_le_nat_alt rangeEnd_unat [OF assms(1)] rangeEnd_unat [OF assms(2)])
  then show ?thesis
    by (auto simp: range_bytes_iff [OF w(1)] range_bytes_iff [OF w(2)])
qed


section \<open>Byte-addressed memory\<close>

type_synonym memory = "uintptr \<Rightarrow> uint8"

definition mem_read :: "memory \<Rightarrow> uintptr \<Rightarrow> nat \<Rightarrow> bytes" where
  "mem_read m a n = map (\<lambda>i. m (a + of_nat i)) [0..<n]"

lemma length_mem_read [simp]: "length (mem_read m a n) = n"
  by (simp add: mem_read_def)

lemma nth_mem_read [simp]: "i < n \<Longrightarrow> mem_read m a n ! i = m (a + of_nat i)"
  by (simp add: mem_read_def)

lemma mem_read_eq_iff:
  "mem_read m a n = mem_read m' a n \<longleftrightarrow> (\<forall>x \<in> range_bytes a n. m x = m' x)"
  by (fastforce simp: mem_read_def range_bytes_def)

lemma mem_read_drop:
  "k + j \<le> n \<Longrightarrow> mem_read m (a + of_nat k) j = take j (drop k (mem_read m a n))"
  by (rule nth_equalityI) (simp_all add: add.assoc)

lemma mem_read_cong:
  "(\<And>x. x \<in> range_bytes a n \<Longrightarrow> m x = m' x) \<Longrightarrow> mem_read m a n = mem_read m' a n"
  by (simp add: mem_read_eq_iff)


section \<open>Fixed-size buffers and the standard algorithms on them\<close>

text \<open>
  A callback stores values into the front of a caller's buffer (possibly only some of them
  when it fails); the vector keeps its length.
\<close>

definition storeInto :: "'a list \<Rightarrow> 'a list \<Rightarrow> 'a list" where
  "storeInto buffer written = take (length buffer) (written @ drop (length written) buffer)"

definition sortPrefix :: "nat \<Rightarrow> 'a::linorder list \<Rightarrow> 'a list" where
  "sortPrefix n xs = sort (take n xs) @ drop n xs"

text \<open>\<open>std::lower_bound\<close> by halving, and \<open>std::binary_search\<close> on top of it.\<close>

function lowerBound :: "'a::linorder list \<Rightarrow> 'a \<Rightarrow> nat" where
  "lowerBound xs x =
     (if xs = [] then 0
      else let half = length xs div 2 in
        if xs ! half < x then Suc half + lowerBound (drop (Suc half) xs) x
        else lowerBound (take half xs) x)"
  by pat_completeness auto
termination
  by (relation "measure (\<lambda>(xs, _). length xs)") auto

declare lowerBound.simps [simp del]

definition binarySearch :: "'a::linorder list \<Rightarrow> 'a \<Rightarrow> bool" where
  "binarySearch xs x = (let i = lowerBound xs x in i < length xs \<and> \<not> x < xs ! i)"

lemma length_storeInto [simp]: "length (storeInto b w) = length b"
  by (simp add: storeInto_def)

lemma storeInto_full [simp]: "length w = length b \<Longrightarrow> storeInto b w = w"
  by (simp add: storeInto_def)

lemma length_sortPrefix [simp]: "length (sortPrefix n xs) = length xs"
  by (simp add: sortPrefix_def)

lemma take_sortPrefix: "n \<le> length xs \<Longrightarrow> take n (sortPrefix n xs) = sort (take n xs)"
  by (simp add: sortPrefix_def min.absorb2)

lemma lowerBound_filter:
  "sorted xs \<Longrightarrow> lowerBound xs x = length (filter (\<lambda>y. y < x) xs)"
proof (induction xs x rule: lowerBound.induct)
  case (1 xs x)
  show ?case
  proof (cases "xs = []")
    case True
    then show ?thesis
      by (simp add: lowerBound.simps)
  next
    case False
    define half where "half = length xs div 2"
    have h: "half < length xs"
      using False by (simp add: half_def)
    have xs: "xs = take half xs @ xs ! half # drop (Suc half) xs"
      using id_take_nth_drop [OF h] .
    then have "\<forall>y \<in> set (take half xs). y \<le> xs ! half" "\<forall>y \<in> set (drop (Suc half) xs). xs ! half \<le> y"
      using 1(3) by (metis sorted_wrt_append sorted_wrt.simps(2) list.set_intros(1))+
    then have "if xs ! half < x then filter (\<lambda>y. y < x) (take half xs) = take half xs
        else filter (\<lambda>y. y < x) (drop (Suc half) xs) = []"
      by (auto simp: filter_id_conv filter_empty_conv)
    moreover have "filter (\<lambda>y. y < x) xs = filter (\<lambda>y. y < x) (take half xs) @
        filter (\<lambda>y. y < x) (xs ! half # drop (Suc half) xs)"
      by (subst xs) (rule filter_append)
    ultimately show ?thesis
      using h 1(1) [OF False half_def] 1(2) [OF False half_def] 1(3) False
      by (subst lowerBound.simps)
         (auto simp: Let_def sorted_wrt_take sorted_wrt_drop simp flip: half_def)
  qed
qed

lemma filter_less_sorted: "sorted xs \<Longrightarrow> filter (\<lambda>y. y < x) xs = takeWhile (\<lambda>y. y < x) xs"
  by (induction xs) (auto simp: takeWhile_eq_Nil_iff dest!: bspec [OF _ hd_in_set])

lemma binarySearch_iff:
  assumes "sorted xs"
  shows "binarySearch xs x \<longleftrightarrow> x \<in> set xs"
proof -
  let ?t = "takeWhile (\<lambda>y. y < x) xs"
  have lb: "lowerBound xs x = length ?t"
    using assms by (simp add: lowerBound_filter filter_less_sorted)
  have nth: "\<not> xs ! length ?t < x" if "length ?t < length xs"
    using nth_length_takeWhile [OF that] .
  show ?thesis
  proof
    assume "binarySearch xs x"
    then have "length ?t < length xs" "xs ! length ?t = x"
      using nth by (auto simp: binarySearch_def Let_def lb)
    then show "x \<in> set xs"
      by (metis nth_mem)
  next
    assume "x \<in> set xs"
    then obtain i where i: "i < length xs" "xs ! i = x"
      by (auto simp: in_set_conv_nth)
    have "length ?t \<le> i"
    proof (rule ccontr)
      assume "\<not> length ?t \<le> i"
      then show False
        using i by (metis less_irrefl nth_mem not_le set_takeWhileD takeWhile_nth)
    qed
    then show "binarySearch xs x"
      using i sorted_nth_mono [OF assms, of "length ?t" i]
      by (auto simp: binarySearch_def Let_def lb)
  qed
qed


section \<open>Byte codecs\<close>

text \<open>
  Joining the bytes \<open>f 0\<close> to \<open>f (n - 1)\<close>, least significant first:
  the loop shape of every little-endian reader in the program.
\<close>

definition le_join :: "(nat \<Rightarrow> uint8) \<Rightarrow> nat \<Rightarrow> 'w::len word" where
  "le_join f n = fold (\<lambda>b v. v OR push_bit (b * 8) (ucast (f b))) [0..<n] 0"

lemma bit_le_join:
  "bit (le_join f n :: 'w::len word) i \<longleftrightarrow>
     i < LENGTH('w) \<and> i < n * 8 \<and> bit (f (i div 8)) (i mod 8)"
proof (induction n)
  case 0
  then show ?case by (simp add: le_join_def)
next
  case (Suc n)
  have s: "le_join f (Suc n) = (le_join f n OR push_bit (n * 8) (ucast (f n)) :: 'w word)"
    by (simp add: le_join_def)
  show ?case
  proof (cases "n * 8 \<le> i \<and> i < n * 8 + 8")
    case True
    then have d: "i div 8 = n" by auto
    with True have "i mod 8 = i - n * 8" by (auto simp: modulo_nat_def)
    with d True show ?thesis
      unfolding s bit_or_iff Suc.IH by (auto simp: bit_simps)
  next
    case False
    moreover have "\<not> bit (f n) (i - n * 8)" if "\<not> i < n * 8 + 8"
      using that bit_imp_le_length [of "f n" "i - n * 8"] by auto
    ultimately show ?thesis
      unfolding s bit_or_iff Suc.IH by (auto simp: bit_simps)
  qed
qed

lemma le_join_split:
  fixes v :: "'w::len word"
  assumes "LENGTH('w) = n * 8"
  shows "le_join (\<lambda>b. ucast (drop_bit (b * 8) v)) n = v"
  by (rule bit_word_eqI) (simp add: bit_le_join assms bit_simps)

lemma le_join_cong:
  "(\<And>b. b < n \<Longrightarrow> f b = g b) \<Longrightarrow> le_join f n = le_join g n"
  unfolding le_join_def by (rule fold_cong) simp_all

lemma le_join_nth_shift:
  assumes "length ys = n"
  shows "le_join (\<lambda>b. (xs @ ys @ zs) ! (length xs + b)) n = le_join (\<lambda>b. ys ! b) n"
  using assms by (intro le_join_cong) (simp add: nth_append)

lemma le_join_map_upt:
  fixes v :: "'w::len word"
  assumes "LENGTH('w) = n * 8"
  shows "le_join (\<lambda>b. map (\<lambda>b. ucast (drop_bit (b * 8) v)) [0..<n] ! b) n = v"
proof -
  have "le_join (\<lambda>b. map (\<lambda>b. ucast (drop_bit (b * 8) v)) [0..<n] ! b) n =
        (le_join (\<lambda>b. ucast (drop_bit (b * 8) v)) n :: 'w word)"
    by (rule le_join_cong) simp
  with le_join_split [OF assms] show ?thesis by simp
qed

text \<open>
  The contract between the code that serialises an integer into a byte vector and the
  code that reads it back: \<open>append_to\<close> appends a fixed number of bytes and
  \<open>read_at\<close> recovers the value from them, whatever surrounds them.
\<close>

locale byte_codec =
  fixes append_to :: "bytes \<Rightarrow> 'w \<Rightarrow> bytes"
    and read_at :: "bytes \<Rightarrow> nat \<Rightarrow> 'w"
    and width :: nat
  assumes append_appends: "append_to out v = out @ append_to [] v"
    and width_append: "length (append_to [] v) = width"
    and read_shift: "length ys = width \<Longrightarrow> read_at (xs @ ys @ zs) (length xs) = read_at ys 0"
    and read_append: "read_at (append_to [] v) 0 = v"
begin

lemma length_append_to: "length (append_to out v) = length out + width"
  by (subst append_appends) (simp add: width_append)

lemma read_at_offset:
  assumes "length xs = k"
  shows "read_at (xs @ append_to [] v @ zs) k = v"
  using read_shift [OF width_append, of xs v zs] assms by (simp add: read_append)

lemma read_at_end:
  "length xs = k \<Longrightarrow> read_at (append_to xs v) k = v"
  using read_at_offset [of xs k v "[]"] append_appends [of xs v] by simp

lemma read_at_start: "read_at (append_to [] v @ zs) 0 = v"
  using read_at_offset [of "[]" 0 v zs] by simp

lemma append_to_inj: "append_to [] v = append_to [] w \<longleftrightarrow> v = w"
  by (metis read_append)

end

end
