(* ===== verification/Binder_Parcel.thy ===== *)
theory Binder_Parcel
  imports Vcam_Prelude
begin

text \<open>
  The interface of \<open>android::Parcel\<close> that the Binder components use.  The class is not part
  of this repository: its methods are the fields of a record over an arbitrary parcel type,
  and \<open>parcel_contract\<close> states its documented behaviour: a parcel is a flat sequence of
  cells with a cursor, typed reads decode at the cursor and advance it, writes append the
  encoding, \<open>appendFrom\<close> copies a range, and every encoding is self-delimiting.
\<close>

section \<open>The interface\<close>

type_synonym uint16s = "uint16 list"

text \<open>
  A read returns \<open>None\<close> for a status other than \<open>OK\<close>; a null string or binder is the inner
  \<open>None\<close>.  A write returns whether its status was \<open>OK\<close>.  \<open>'b\<close> is the type of binders and \<open>'s\<close>
  that of \<open>binder::Status\<close>.
\<close>

record ('p, 'b, 's) ParcelApi =
  dataPosition :: "'p \<Rightarrow> nat"
  dataSize :: "'p \<Rightarrow> nat"
  setDataPosition :: "nat \<Rightarrow> 'p \<Rightarrow> 'p"
  setDataSize :: "nat \<Rightarrow> 'p \<Rightarrow> bool \<times> 'p"
  enforceInterface :: "uint16s \<Rightarrow> 'p \<Rightarrow> bool \<times> 'p"
  readInt32 :: "'p \<Rightarrow> int option \<times> 'p"
  readUint32 :: "'p \<Rightarrow> uint32 option \<times> 'p"
  readBool :: "'p \<Rightarrow> bool option \<times> 'p"
  readString16 :: "'p \<Rightarrow> uint16s option option \<times> 'p"
  readUtf8FromUtf16 :: "'p \<Rightarrow> string option option \<times> 'p"
  readString16Vector :: "'p \<Rightarrow> uint16s list option \<times> 'p"
  readStrongBinder :: "'p \<Rightarrow> 'b option option \<times> 'p"
  readNullableStrongBinder :: "'p \<Rightarrow> 'b option option \<times> 'p"
  readBlob :: "nat \<Rightarrow> 'p \<Rightarrow> unit option \<times> 'p"
  readStatus :: "'p \<Rightarrow> 's option \<times> 'p"
  statusIsOk :: "'s \<Rightarrow> bool"
  writeInt32 :: "int \<Rightarrow> 'p \<Rightarrow> bool \<times> 'p"
  writeString16 :: "uint16s \<Rightarrow> 'p \<Rightarrow> bool \<times> 'p"
  writeString16Vector :: "uint16s list \<Rightarrow> 'p \<Rightarrow> bool \<times> 'p"
  writeStrongBinder :: "'b \<Rightarrow> 'p \<Rightarrow> bool \<times> 'p"
  writeStatus :: "'s \<Rightarrow> 'p \<Rightarrow> bool \<times> 'p"
  appendFrom :: "'p \<Rightarrow> nat \<Rightarrow> nat \<Rightarrow> 'p \<Rightarrow> bool \<times> 'p"
  freeData :: "'p \<Rightarrow> 'p"
  newParcel :: 'p

text \<open>\<open>String16\<close> of an ASCII text, and back.\<close>

definition utf16 :: "string \<Rightarrow> uint16s" where
  "utf16 s = map of_char s"

definition asciiChar :: "uint16 \<Rightarrow> char" where
  "asciiChar c = char_of (unat c)"

text \<open>The output pointer of a rewriting operation: null, the address of the input, or a parcel of its own.\<close>

datatype 'p OutputParcel = NullOutput | SameAsInput | Separate 'p

section \<open>Sequences of reads and writes\<close>

text \<open>
  A reader consumes from the parcel; \<open>rd_bind\<close> is the short-circuiting sequence of the code's
  \<open>&&\<close> chains, which leave the cursor where the failing read left it.
\<close>

definition rd_bind :: "('p \<Rightarrow> 'a option \<times> 'p) \<Rightarrow> ('a \<Rightarrow> 'p \<Rightarrow> 'c option \<times> 'p) \<Rightarrow> 'p \<Rightarrow> 'c option \<times> 'p" where
  "rd_bind f g p = (case f p of (None, p') \<Rightarrow> (None, p') | (Some a, p') \<Rightarrow> g a p')"

definition rd_return :: "'a \<Rightarrow> 'p \<Rightarrow> 'a option \<times> 'p" where
  "rd_return a p = (Some a, p)"

definition rd_check :: "bool \<Rightarrow> 'p \<Rightarrow> unit option \<times> 'p" where
  "rd_check b p = ((if b then Some () else None), p)"

fun rd_repeat :: "nat \<Rightarrow> ('p \<Rightarrow> 'a option \<times> 'p) \<Rightarrow> 'p \<Rightarrow> 'a list option \<times> 'p" where
  "rd_repeat 0 f = rd_return []"
| "rd_repeat (Suc n) f = rd_bind f (\<lambda>a. rd_bind (rd_repeat n f) (\<lambda>as. rd_return (a # as)))"

text \<open>\<open>readString16Inplace\<close>: null for an error and for a null string.\<close>

definition readString16Inplace :: "('p, 'b, 's) ParcelApi \<Rightarrow> 'p \<Rightarrow> uint16s option \<times> 'p" where
  "readString16Inplace api p = (case readString16 api p of (r, p') \<Rightarrow> (Option.bind r (\<lambda>s. s), p'))"

text \<open>A write that is followed by another only if it succeeded.\<close>

definition wr_then :: "('p \<Rightarrow> bool \<times> 'p) \<Rightarrow> ('p \<Rightarrow> bool \<times> 'p) \<Rightarrow> 'p \<Rightarrow> bool \<times> 'p" where
  "wr_then f g p = (case f p of (ok, p') \<Rightarrow> if ok then g p' else (False, p'))"

section \<open>The contract\<close>

text \<open>The encodings of the typed values, as functions between cells and values.\<close>

record ('c, 'b, 's) ParcelFormat =
  dec_interface :: "uint16s \<Rightarrow> 'c list \<Rightarrow> (unit \<times> nat) option"
  dec_int32 :: "'c list \<Rightarrow> (int \<times> nat) option"
  dec_uint32 :: "'c list \<Rightarrow> (uint32 \<times> nat) option"
  dec_bool :: "'c list \<Rightarrow> (bool \<times> nat) option"
  dec_string16 :: "'c list \<Rightarrow> (uint16s option \<times> nat) option"
  dec_utf8 :: "'c list \<Rightarrow> (string option \<times> nat) option"
  dec_string16_vector :: "'c list \<Rightarrow> (uint16s list \<times> nat) option"
  dec_binder :: "'c list \<Rightarrow> ('b option \<times> nat) option"
  dec_nullable_binder :: "'c list \<Rightarrow> ('b option \<times> nat) option"
  dec_blob :: "nat \<Rightarrow> 'c list \<Rightarrow> (unit \<times> nat) option"
  dec_status :: "'c list \<Rightarrow> ('s \<times> nat) option"
  enc_int32 :: "int \<Rightarrow> 'c list"
  enc_string16 :: "uint16s \<Rightarrow> 'c list"
  enc_string16_vector :: "uint16s list \<Rightarrow> 'c list"
  enc_binder :: "'b \<Rightarrow> 'c list"
  enc_status :: "'s \<Rightarrow> 'c list"

definition self_delimiting :: "('c list \<Rightarrow> ('a \<times> nat) option) \<Rightarrow> bool" where
  "self_delimiting dec \<longleftrightarrow>
     (\<forall>xs a n. dec xs = Some (a, n) \<longrightarrow> n \<le> length xs \<and> (\<forall>ys. dec (take n xs @ ys) = Some (a, n)))"

definition inverts :: "('c list \<Rightarrow> ('a \<times> nat) option) \<Rightarrow> ('v \<Rightarrow> 'c list) \<Rightarrow> ('v \<Rightarrow> 'a) \<Rightarrow> bool" where
  "inverts dec enc f \<longleftrightarrow> (\<forall>v ys. enc v \<noteq> [] \<and> dec (enc v @ ys) = Some (f v, length (enc v)))"

text \<open>A reader of the interface implements a decoder on the cells of the parcel.\<close>

definition reads ::
  "('p, 'b, 's) ParcelApi \<Rightarrow> ('p \<Rightarrow> 'c list) \<Rightarrow> ('p \<Rightarrow> 'a option \<times> 'p) \<Rightarrow> ('c list \<Rightarrow> ('a \<times> nat) option) \<Rightarrow> bool" where
  "reads api view rd dec \<longleftrightarrow>
     (\<forall>p. case rd p of (r, p') \<Rightarrow> view p' = view p \<and>
        (case dec (drop (dataPosition api p) (view p)) of
           None \<Rightarrow> r = None
         | Some (a, n) \<Rightarrow> r = Some a \<and> dataPosition api p' = dataPosition api p + n))"

text \<open>A write at the end of the data appends the encoding or fails.\<close>

definition writes ::
  "('p, 'b, 's) ParcelApi \<Rightarrow> ('p \<Rightarrow> 'c list) \<Rightarrow> ('v \<Rightarrow> 'p \<Rightarrow> bool \<times> 'p) \<Rightarrow> ('v \<Rightarrow> 'c list) \<Rightarrow> bool" where
  "writes api view wr enc \<longleftrightarrow>
     (\<forall>v p p'. dataPosition api p = length (view p) \<longrightarrow> wr v p = (True, p') \<longrightarrow>
        view p' = view p @ enc v \<and> dataPosition api p' = length (view p'))"

text \<open>\<open>enforceInterface\<close> as a reader.\<close>

definition rd_interface :: "('p, 'b, 's) ParcelApi \<Rightarrow> uint16s \<Rightarrow> 'p \<Rightarrow> unit option \<times> 'p" where
  "rd_interface api descriptor p =
     (case enforceInterface api descriptor p of (ok, p') \<Rightarrow> ((if ok then Some () else None), p'))"

text \<open>The cursor and the bulk operations.\<close>

definition cursor_contract :: "('p, 'b, 's) ParcelApi \<Rightarrow> ('p \<Rightarrow> 'c list) \<Rightarrow> bool" where
  "cursor_contract api view \<longleftrightarrow>
     (\<forall>p. dataSize api p = length (view p)) \<and>
     (\<forall>n p. dataPosition api (setDataPosition api n p) = n \<and> view (setDataPosition api n p) = view p) \<and>
     (\<forall>p p'. setDataSize api 0 p = (True, p') \<longrightarrow> view p' = [] \<and> dataPosition api p' = 0) \<and>
     (\<forall>src off len p p'. dataPosition api p = length (view p) \<longrightarrow> off + len \<le> length (view src) \<longrightarrow>
        appendFrom api src off len p = (True, p') \<longrightarrow>
        view p' = view p @ take len (drop off (view src)) \<and> dataPosition api p' = length (view p')) \<and>
     (\<forall>p. view (freeData api p) = [] \<and> dataPosition api (freeData api p) = 0) \<and>
     view (newParcel api) = [] \<and> dataPosition api (newParcel api) = 0"

text \<open>The typed reads.\<close>

definition read_contract :: "('p, 'b, 's) ParcelApi \<Rightarrow> ('c, 'b, 's) ParcelFormat \<Rightarrow> ('p \<Rightarrow> 'c list) \<Rightarrow> bool" where
  "read_contract api fmt view \<longleftrightarrow>
     (\<forall>d. reads api view (rd_interface api d) (dec_interface fmt d) \<and> self_delimiting (dec_interface fmt d)) \<and>
     reads api view (readInt32 api) (dec_int32 fmt) \<and> self_delimiting (dec_int32 fmt) \<and>
     reads api view (readUint32 api) (dec_uint32 fmt) \<and> self_delimiting (dec_uint32 fmt) \<and>
     reads api view (readBool api) (dec_bool fmt) \<and> self_delimiting (dec_bool fmt) \<and>
     reads api view (readString16 api) (dec_string16 fmt) \<and> self_delimiting (dec_string16 fmt) \<and>
     reads api view (readUtf8FromUtf16 api) (dec_utf8 fmt) \<and> self_delimiting (dec_utf8 fmt) \<and>
     reads api view (readString16Vector api) (dec_string16_vector fmt) \<and> self_delimiting (dec_string16_vector fmt) \<and>
     reads api view (readStrongBinder api) (dec_binder fmt) \<and> self_delimiting (dec_binder fmt) \<and>
     reads api view (readNullableStrongBinder api) (dec_nullable_binder fmt) \<and>
       self_delimiting (dec_nullable_binder fmt) \<and>
     (\<forall>n. reads api view (readBlob api n) (dec_blob fmt n) \<and> self_delimiting (dec_blob fmt n)) \<and>
     reads api view (readStatus api) (dec_status fmt) \<and> self_delimiting (dec_status fmt)"

text \<open>The typed writes, whose encodings the reads decode.\<close>

definition write_contract :: "('p, 'b, 's) ParcelApi \<Rightarrow> ('c, 'b, 's) ParcelFormat \<Rightarrow> ('p \<Rightarrow> 'c list) \<Rightarrow> bool" where
  "write_contract api fmt view \<longleftrightarrow>
     writes api view (writeInt32 api) (enc_int32 fmt) \<and> inverts (dec_int32 fmt) (enc_int32 fmt) (\<lambda>v. v) \<and>
     writes api view (writeString16 api) (enc_string16 fmt) \<and> inverts (dec_string16 fmt) (enc_string16 fmt) Some \<and>
     writes api view (writeString16Vector api) (enc_string16_vector fmt) \<and>
       inverts (dec_string16_vector fmt) (enc_string16_vector fmt) (\<lambda>v. v) \<and>
     writes api view (writeStrongBinder api) (enc_binder fmt) \<and> inverts (dec_binder fmt) (enc_binder fmt) Some \<and>
     writes api view (writeStatus api) (enc_status fmt) \<and> inverts (dec_status fmt) (enc_status fmt) (\<lambda>v. v)"

definition parcel_contract :: "('p, 'b, 's) ParcelApi \<Rightarrow> ('c, 'b, 's) ParcelFormat \<Rightarrow> ('p \<Rightarrow> 'c list) \<Rightarrow> bool" where
  "parcel_contract api fmt view \<longleftrightarrow>
     cursor_contract api view \<and> read_contract api fmt view \<and> write_contract api fmt view"

text \<open>A parcel interface whose writes never run out of memory.\<close>

definition never_fails :: "('p, 'b, 's) ParcelApi \<Rightarrow> bool" where
  "never_fails api \<longleftrightarrow> (\<forall>n p. fst (setDataSize api n p)) \<and> (\<forall>src off len p. fst (appendFrom api src off len p)) \<and>
     (\<forall>v p. fst (writeInt32 api v p)) \<and> (\<forall>v p. fst (writeString16 api v p)) \<and>
     (\<forall>v p. fst (writeString16Vector api v p)) \<and> (\<forall>v p. fst (writeStrongBinder api v p)) \<and>
     (\<forall>v p. fst (writeStatus api v p))"

section \<open>Decoders\<close>

definition dec_bind :: "('c list \<Rightarrow> ('a \<times> nat) option) \<Rightarrow> ('a \<Rightarrow> 'c list \<Rightarrow> ('d \<times> nat) option) \<Rightarrow> 'c list \<Rightarrow> ('d \<times> nat) option" where
  "dec_bind f g xs =
     (case f xs of
        None \<Rightarrow> None
      | Some (a, n) \<Rightarrow> (case g a (drop n xs) of None \<Rightarrow> None | Some (b, k) \<Rightarrow> Some (b, n + k)))"

definition dec_return :: "'a \<Rightarrow> 'c list \<Rightarrow> ('a \<times> nat) option" where
  "dec_return a xs = Some (a, 0)"

definition dec_check :: "bool \<Rightarrow> 'c list \<Rightarrow> (unit \<times> nat) option" where
  "dec_check b xs = (if b then Some ((), 0) else None)"

fun dec_repeat :: "nat \<Rightarrow> ('c list \<Rightarrow> ('a \<times> nat) option) \<Rightarrow> 'c list \<Rightarrow> ('a list \<times> nat) option" where
  "dec_repeat 0 f = dec_return []"
| "dec_repeat (Suc n) f = dec_bind f (\<lambda>a. dec_bind (dec_repeat n f) (\<lambda>as. dec_return (a # as)))"

named_theorems reads_intros \<open>readers implement decoders\<close>
named_theorems delimiting_intros \<open>decoders are self-delimiting\<close>

lemma rd_bind_assoc: "rd_bind (rd_bind f g) h = rd_bind f (\<lambda>a. rd_bind (g a) h)"
  by (rule ext) (simp add: rd_bind_def split: prod.split option.split)

lemma reads_bind [reads_intros]:
  assumes "reads api view f df" "\<And>a. reads api view (g a) (dg a)"
  shows "reads api view (rd_bind f g) (dec_bind df dg)"
  unfolding reads_def
proof (intro allI)
  fix p
  obtain r p' where f: "f p = (r, p')"
    by (cases "f p")
  have 1: "view p' = view p" and 2: "case df (drop (dataPosition api p) (view p)) of None \<Rightarrow> r = None
      | Some (a, n) \<Rightarrow> r = Some a \<and> dataPosition api p' = dataPosition api p + n"
    using assms(1) f by (auto simp: reads_def dest!: spec [of _ p])
  show "case rd_bind f g p of (r, p') \<Rightarrow> view p' = view p \<and>
      (case dec_bind df dg (drop (dataPosition api p) (view p)) of None \<Rightarrow> r = None
       | Some (a, n) \<Rightarrow> r = Some a \<and> dataPosition api p' = dataPosition api p + n)"
  proof (cases "df (drop (dataPosition api p) (view p))")
    case None
    then show ?thesis
      using 1 2 f by (simp add: rd_bind_def dec_bind_def)
  next
    case (Some an)
    obtain a n where an: "an = (a, n)"
      by (cases an)
    with Some 2 have "r = Some a" "dataPosition api p' = dataPosition api p + n"
      by auto
    then show ?thesis
      using 1 f Some an assms(2) [of a]
      by (auto simp: rd_bind_def dec_bind_def reads_def add.commute split: option.splits dest!: spec [of _ p'])
  qed
qed

lemma reads_return [reads_intros]: "reads api view (rd_return a) (dec_return a)"
  by (simp add: reads_def rd_return_def dec_return_def)

lemma reads_check [reads_intros]: "reads api view (rd_check b) (dec_check b)"
  by (simp add: reads_def rd_check_def dec_check_def)

lemma reads_repeat [reads_intros]:
  "reads api view f df \<Longrightarrow> reads api view (rd_repeat n f) (dec_repeat n df)"
  by (induction n) (auto intro!: reads_intros)

lemma delimiting_bind [delimiting_intros]:
  assumes "self_delimiting f" "\<And>a. self_delimiting (g a)"
  shows "self_delimiting (dec_bind f g)"
  unfolding self_delimiting_def
proof (intro allI impI)
  fix xs b t
  assume "dec_bind f g xs = Some (b, t)"
  then obtain a n k where f: "f xs = Some (a, n)" and g: "g a (drop n xs) = Some (b, k)" and t: "t = n + k"
    by (auto simp: dec_bind_def split: option.split_asm)
  have n: "n \<le> length xs" "\<And>ys. f (take n xs @ ys) = Some (a, n)"
    using assms(1) f by (auto simp: self_delimiting_def)
  have k: "k \<le> length xs - n" "\<And>ys. g a (take k (drop n xs) @ ys) = Some (b, k)"
    using assms(2) [of a] g unfolding self_delimiting_def by (metis length_drop)+
  have "take (n + k) xs = take n xs @ take k (drop n xs)"
    by (simp add: take_add)
  then show "t \<le> length xs \<and> (\<forall>ys. dec_bind f g (take t xs @ ys) = Some (b, t))"
    using n k t by (auto simp: dec_bind_def min_absorb2)
qed

lemma delimiting_return [delimiting_intros]: "self_delimiting (dec_return a)"
  by (simp add: self_delimiting_def dec_return_def)

lemma delimiting_check [delimiting_intros]: "self_delimiting (dec_check b)"
  by (simp add: self_delimiting_def dec_check_def)

lemma delimiting_repeat [delimiting_intros]: "self_delimiting f \<Longrightarrow> self_delimiting (dec_repeat n f)"
  by (induction n) (auto intro!: delimiting_intros)

text \<open>The prefix a decoder consumed decodes the same whatever follows it.\<close>

lemma self_delimitingD:
  "self_delimiting dec \<Longrightarrow> dec xs = Some (a, n) \<Longrightarrow> n \<le> length xs \<and> dec (take n xs @ ys) = Some (a, n)"
  unfolding self_delimiting_def by blast

lemma readsD:
  assumes "reads api view rd dec" "rd p = (r, p')"
  shows "view p' = view p"
    and "dec (drop (dataPosition api p) (view p)) = None \<Longrightarrow> r = None"
    and "dec (drop (dataPosition api p) (view p)) = Some (a, n) \<Longrightarrow>
      r = Some a \<and> dataPosition api p' = dataPosition api p + n"
  using assms by (auto simp: reads_def dest!: spec [of _ p])

lemma reads_SomeE:
  assumes "reads api view rd dec" "rd p = (Some a, p')"
  obtains n where "dec (drop (dataPosition api p) (view p)) = Some (a, n)" "view p' = view p"
    "dataPosition api p' = dataPosition api p + n"
  using readsD [OF assms] by (cases "dec (drop (dataPosition api p) (view p))") auto

section \<open>Writers\<close>

text \<open>A writer that, when it succeeds at the end of the data, has appended the given cells.\<close>

definition appends :: "('p, 'b, 's) ParcelApi \<Rightarrow> ('p \<Rightarrow> 'c list) \<Rightarrow> ('p \<Rightarrow> bool \<times> 'p) \<Rightarrow> 'c list \<Rightarrow> bool" where
  "appends api view wr xs \<longleftrightarrow>
     (\<forall>p p'. dataPosition api p = length (view p) \<longrightarrow> wr p = (True, p') \<longrightarrow>
        view p' = view p @ xs \<and> dataPosition api p' = length (view p'))"

named_theorems appends_intros \<open>writers append encodings\<close>

lemma appendsD:
  "appends api view wr xs \<Longrightarrow> dataPosition api p = length (view p) \<Longrightarrow> wr p = (True, p') \<Longrightarrow>
   view p' = view p @ xs \<and> dataPosition api p' = length (view p')"
  unfolding appends_def by blast

lemma appends_then [appends_intros]:
  assumes "appends api view f xs" "appends api view g ys"
  shows "appends api view (wr_then f g) (xs @ ys)"
  unfolding appends_def
proof (intro allI impI)
  fix p p'
  assume p: "dataPosition api p = length (view p)" and w: "wr_then f g p = (True, p')"
  obtain ok q where q: "f p = (ok, q)" by (cases "f p")
  with w have "f p = (True, q)" "g q = (True, p')" by (auto simp: wr_then_def split: if_splits)
  with appendsD [OF assms(1) p] appendsD [OF assms(2)] show "view p' = view p @ (xs @ ys) \<and> dataPosition api p' = length (view p')"
    by (metis append.assoc)
qed

lemma writes_appends: "writes api view wr enc \<Longrightarrow> appends api view (wr v) (enc v)"
  unfolding writes_def appends_def by blast

lemma write_appends [appends_intros]:
  assumes "write_contract api fmt view"
  shows "appends api view (writeInt32 api v) (enc_int32 fmt v)"
    and "appends api view (writeString16 api t) (enc_string16 fmt t)"
    and "appends api view (writeString16Vector api ts) (enc_string16_vector fmt ts)"
    and "appends api view (writeStrongBinder api b) (enc_binder fmt b)"
    and "appends api view (writeStatus api st) (enc_status fmt st)"
  using assms by (simp_all add: write_contract_def writes_appends)

lemma cursorD:
  assumes "cursor_contract api view"
  shows "dataSize api p = length (view p)" "dataPosition api (setDataPosition api n p) = n"
    "view (setDataPosition api n p) = view p" "view (freeData api p) = []" "dataPosition api (freeData api p) = 0"
    "view (newParcel api) = []" "dataPosition api (newParcel api) = 0"
  using assms unfolding cursor_contract_def by blast+

lemma setDataSizeD:
  "cursor_contract api view \<Longrightarrow> setDataSize api 0 p = (True, p') \<Longrightarrow> view p' = [] \<and> dataPosition api p' = 0"
  unfolding cursor_contract_def by blast

lemma appendFromD:
  "cursor_contract api view \<Longrightarrow> dataPosition api p = length (view p) \<Longrightarrow> off + len \<le> length (view src) \<Longrightarrow>
   appendFrom api src off len p = (True, p') \<Longrightarrow>
   view p' = view p @ take len (drop off (view src)) \<and> dataPosition api p' = length (view p')"
  unfolding cursor_contract_def by blast

lemma neverD:
  assumes "never_fails api"
  shows "\<exists>p'. setDataSize api n p = (True, p')" "\<exists>p'. appendFrom api src off len p = (True, p')"
    "\<exists>p'. writeInt32 api i p = (True, p')" "\<exists>p'. writeString16 api t p = (True, p')"
    "\<exists>p'. writeString16Vector api ts p = (True, p')" "\<exists>p'. writeStrongBinder api b p = (True, p')"
    "\<exists>p'. writeStatus api st p = (True, p')"
  using assms unfolding never_fails_def by (metis (full_types) prod.collapse)+

lemma wr_then_ok: "\<exists>q. f p = (True, q) \<Longrightarrow> (\<And>q. \<exists>r. g q = (True, r)) \<Longrightarrow> \<exists>r. wr_then f g p = (True, r)"
  by (auto simp: wr_then_def)

text \<open>An encoding that a decoder reads back, followed by anything.\<close>

definition decodes :: "('c list \<Rightarrow> ('a \<times> nat) option) \<Rightarrow> 'c list \<Rightarrow> 'a \<Rightarrow> bool" where
  "decodes dec xs a \<longleftrightarrow> (\<forall>ys. dec (xs @ ys) = Some (a, length xs))"

lemma decodes_bind: "decodes f xs a \<Longrightarrow> decodes (g a) ys b \<Longrightarrow> decodes (dec_bind f g) (xs @ ys) b"
  by (simp add: decodes_def dec_bind_def)

lemma decodes_bind_check: "P \<Longrightarrow> decodes (g ()) ys b \<Longrightarrow> decodes (dec_bind (dec_check P) g) ys b"
  by (simp add: decodes_def dec_bind_def dec_check_def)

lemma decodes_return: "decodes (dec_return a) [] a"
  by (simp add: decodes_def dec_return_def)

lemma inverts_decodes: "inverts dec enc f \<Longrightarrow> decodes dec (enc v) (f v)"
  by (simp add: decodes_def inverts_def)

lemma write_decodes:
  assumes "write_contract api fmt view"
  shows "decodes (dec_int32 fmt) (enc_int32 fmt v) v"
    and "decodes (dec_string16 fmt) (enc_string16 fmt t) (Some t)"
    and "decodes (dec_string16_vector fmt) (enc_string16_vector fmt ts) ts"
    and "decodes (dec_binder fmt) (enc_binder fmt b) (Some b)"
    and "decodes (dec_status fmt) (enc_status fmt st) st"
  using assms by (auto simp: write_contract_def dest: inverts_decodes)

lemma read_reads:
  assumes "read_contract api fmt view"
  shows "reads api view (readInt32 api) (dec_int32 fmt)" "reads api view (readUint32 api) (dec_uint32 fmt)"
    "reads api view (readBool api) (dec_bool fmt)" "reads api view (readString16 api) (dec_string16 fmt)"
    "reads api view (readUtf8FromUtf16 api) (dec_utf8 fmt)"
    "reads api view (readString16Vector api) (dec_string16_vector fmt)"
    "reads api view (readStrongBinder api) (dec_binder fmt)"
    "reads api view (readNullableStrongBinder api) (dec_nullable_binder fmt)"
    "reads api view (readBlob api n) (dec_blob fmt n)" "reads api view (readStatus api) (dec_status fmt)"
    "reads api view (rd_interface api d) (dec_interface fmt d)"
  using assms by (simp_all add: read_contract_def)

section \<open>A concrete parcel\<close>

text \<open>
  Parcels with one cell per value, on which the contract holds; it instantiates the interface
  where a statement is evaluated on a concrete input.
\<close>

datatype cell = Interface uint16s | Int32 int | Str16 "uint16s option" | Strs "uint16s list" | Binder "nat option"
  | Blob nat | Stat int

record flat_parcel =
  cells :: "cell list"
  cursor :: nat

definition one_cell :: "(cell \<Rightarrow> 'a option) \<Rightarrow> cell list \<Rightarrow> ('a \<times> nat) option" where
  "one_cell f xs = (case xs of [] \<Rightarrow> None | x # _ \<Rightarrow> map_option (\<lambda>a. (a, 1)) (f x))"

definition flat_read :: "(cell \<Rightarrow> 'a option) \<Rightarrow> flat_parcel \<Rightarrow> 'a option \<times> flat_parcel" where
  "flat_read f p =
     (case one_cell f (drop (cursor p) (cells p)) of
        None \<Rightarrow> (None, p)
      | Some (a, n) \<Rightarrow> (Some a, p\<lparr>cursor := cursor p + n\<rparr>))"

definition flat_write :: "('v \<Rightarrow> cell) \<Rightarrow> 'v \<Rightarrow> flat_parcel \<Rightarrow> bool \<times> flat_parcel" where
  "flat_write f v p = (True, p\<lparr>cells := take (cursor p) (cells p) @ f v # drop (Suc (cursor p)) (cells p),
     cursor := cursor p + 1\<rparr>)"

fun int_cell where "int_cell (Int32 v) = Some v" | "int_cell _ = None"
fun str_cell where "str_cell (Str16 v) = Some v" | "str_cell _ = None"
fun strs_cell where "strs_cell (Strs v) = Some v" | "strs_cell _ = None"
fun binder_cell where "binder_cell (Binder v) = Some v" | "binder_cell _ = None"
fun strong_cell where "strong_cell (Binder (Some v)) = Some (Some v)" | "strong_cell _ = None"
fun blob_cell where "blob_cell n (Blob k) = (if k = n then Some () else None)" | "blob_cell n _ = None"
fun stat_cell where "stat_cell (Stat v) = Some v" | "stat_cell _ = None"
fun interface_cell where "interface_cell d (Interface e) = (if d = e then Some () else None)" | "interface_cell d _ = None"

definition utf8_cell :: "cell \<Rightarrow> string option option" where
  "utf8_cell c = map_option (map_option (map asciiChar)) (str_cell c)"
definition uint_cell :: "cell \<Rightarrow> uint32 option" where
  "uint_cell c = map_option word_of_int (int_cell c)"
definition bool_cell :: "cell \<Rightarrow> bool option" where
  "bool_cell c = map_option (\<lambda>v. v \<noteq> 0) (int_cell c)"

definition flatApi :: "(flat_parcel, nat, int) ParcelApi" where
  "flatApi = \<lparr>dataPosition = cursor, dataSize = (\<lambda>p. length (cells p)),
     setDataPosition = (\<lambda>n p. p\<lparr>cursor := n\<rparr>),
     setDataSize = (\<lambda>n p. (True, \<lparr>cells = take n (cells p), cursor = min n (cursor p)\<rparr>)),
     enforceInterface = (\<lambda>d p. case flat_read (interface_cell d) p of (r, p') \<Rightarrow> (r \<noteq> None, p')),
     readInt32 = flat_read int_cell, readUint32 = flat_read uint_cell, readBool = flat_read bool_cell,
     readString16 = flat_read str_cell, readUtf8FromUtf16 = flat_read utf8_cell,
     readString16Vector = flat_read strs_cell, readStrongBinder = flat_read strong_cell,
     readNullableStrongBinder = flat_read binder_cell, readBlob = (\<lambda>n. flat_read (blob_cell n)),
     readStatus = flat_read stat_cell, statusIsOk = (\<lambda>v. v = 0),
     writeInt32 = flat_write Int32, writeString16 = flat_write (\<lambda>v. Str16 (Some v)),
     writeString16Vector = flat_write Strs, writeStrongBinder = flat_write (\<lambda>v. Binder (Some v)),
     writeStatus = flat_write Stat,
     appendFrom = (\<lambda>src off len p. (True, \<lparr>cells = cells p @ take len (drop off (cells src)),
       cursor = length (cells p) + length (take len (drop off (cells src)))\<rparr>)),
     freeData = (\<lambda>p. \<lparr>cells = [], cursor = 0\<rparr>), newParcel = \<lparr>cells = [], cursor = 0\<rparr>\<rparr>"

definition flatFormat :: "(cell, nat, int) ParcelFormat" where
  "flatFormat = \<lparr>dec_interface = (\<lambda>d. one_cell (interface_cell d)), dec_int32 = one_cell int_cell,
     dec_uint32 = one_cell uint_cell, dec_bool = one_cell bool_cell, dec_string16 = one_cell str_cell,
     dec_utf8 = one_cell utf8_cell, dec_string16_vector = one_cell strs_cell, dec_binder = one_cell strong_cell,
     dec_nullable_binder = one_cell binder_cell, dec_blob = (\<lambda>n. one_cell (blob_cell n)),
     dec_status = one_cell stat_cell, enc_int32 = (\<lambda>v. [Int32 v]), enc_string16 = (\<lambda>v. [Str16 (Some v)]),
     enc_string16_vector = (\<lambda>v. [Strs v]), enc_binder = (\<lambda>v. [Binder (Some v)]), enc_status = (\<lambda>v. [Stat v])\<rparr>"

lemma flat_reads: "dataPosition api = cursor \<Longrightarrow> reads api cells (flat_read f) (one_cell f)"
  by (auto simp: reads_def flat_read_def split: option.split prod.split)

lemma one_cell_delimiting: "self_delimiting (one_cell f)"
  by (auto simp: self_delimiting_def one_cell_def split: list.split_asm)

lemma flat_writes: "dataPosition api = cursor \<Longrightarrow> writes api cells (flat_write f) (\<lambda>v. [f v])"
  by (auto simp: writes_def flat_write_def)

lemma one_cell_inverts: "(\<And>v. f (g v) = Some (h v)) \<Longrightarrow> inverts (one_cell f) (\<lambda>v. [g v]) h"
  by (simp add: inverts_def one_cell_def)

lemma flat_cursor_contract: "cursor_contract flatApi cells"
  by (simp add: cursor_contract_def flatApi_def)

lemma flat_read_contract: "read_contract flatApi flatFormat cells"
proof -
  have "rd_interface flatApi d = flat_read (interface_cell d)" for d
    by (rule ext) (simp add: rd_interface_def flatApi_def case_prod_unfold prod_eq_iff, metis (full_types) not_None_eq unit.exhaust)
  then show ?thesis
    by (simp add: read_contract_def flatApi_def flatFormat_def flat_reads one_cell_delimiting)
qed

lemma flat_write_contract: "write_contract flatApi flatFormat cells"
  by (simp add: write_contract_def flatApi_def flatFormat_def flat_writes one_cell_inverts)

lemma flat_contract: "parcel_contract flatApi flatFormat cells"
  by (simp add: parcel_contract_def flat_cursor_contract flat_read_contract flat_write_contract)

lemma flat_never_fails: "never_fails flatApi"
  by (simp add: never_fails_def flatApi_def flat_write_def)

end
