(* ===== verification/Text_Parsing.thy ===== *)
theory Text_Parsing
  imports Vcam_Prelude
begin

text \<open>
  The text helpers at the head of \<open>src/runtime/RuntimeAbiGuard.cpp\<close> (hexadecimal and
  decimal numbers, suffixes, line splitting), which the recipe parser and the activation
  preflight are built from, and the contract between a printer and its parser.  A C++
  string is a HOL string; a character test compares codes.
\<close>

section \<open>Definitions\<close>

abbreviation code :: "char \<Rightarrow> nat" where
  "code c \<equiv> of_char c"

definition newline :: char where
  "newline = CHR 0x0A"

definition tab :: char where
  "tab = CHR 0x09"

definition carriageReturn :: char where
  "carriageReturn = CHR 0x0D"

definition endsWith :: "string \<Rightarrow> string \<Rightarrow> bool" where
  "endsWith s suffix \<longleftrightarrow>
     length suffix \<le> length s \<and> drop (length s - length suffix) s = suffix"

definition hexDigit :: "nat \<Rightarrow> char" where
  "hexDigit n = (if n < 10 then char_of (48 + n) else char_of (87 + n))"

definition lowerHex :: "bytes \<Rightarrow> string" where
  "lowerHex bytes = concat (map (\<lambda>b. [hexDigit (unat b div 16), hexDigit (unat b mod 16)]) bytes)"

definition nibble :: "char \<Rightarrow> nat option" where
  "nibble c =
     (if 48 \<le> code c \<and> code c \<le> 57 then Some (code c - 48)
      else if 97 \<le> code c \<and> code c \<le> 102 then Some (code c - 97 + 10)
      else if 65 \<le> code c \<and> code c \<le> 70 then Some (code c - 65 + 10)
      else None)"

fun decodePairs :: "string \<Rightarrow> bytes option" where
  "decodePairs (h # l # rest) =
     (case (nibble h, nibble l) of
        (Some high, Some low) \<Rightarrow>
          map_option (\<lambda>bs. (push_bit 4 (of_nat high) OR of_nat low) # bs) (decodePairs rest)
      | _ \<Rightarrow> None)"
| "decodePairs _ = Some []"

definition decodeHex :: "string \<Rightarrow> bytes option" where
  "decodeHex text = (if text = [] \<or> length text mod 2 \<noteq> 0 then None else decodePairs text)"

definition isDigit :: "char \<Rightarrow> bool" where
  "isDigit c \<longleftrightarrow> 48 \<le> code c \<and> code c \<le> 57"

fun decimalLoop :: "uint64 \<Rightarrow> string \<Rightarrow> uint64 option" where
  "decimalLoop parsed [] = Some parsed"
| "decimalLoop parsed (c # rest) =
     (if \<not> isDigit c then None
      else let digit = of_nat (code c - 48) in
        if parsed > ((- 1) - digit) div 10 then None
        else decimalLoop (parsed * 10 + digit) rest)"

definition parseUnsignedDecimal :: "string \<Rightarrow> uint64 option" where
  "parseUnsignedDecimal text = (if text = [] then None else decimalLoop 0 text)"

definition trimCarriageReturn :: "string \<Rightarrow> string" where
  "trimCarriageReturn v = (if v \<noteq> [] \<and> last v = carriageReturn then butlast v else v)"

text \<open>\<open>std::to_string\<close>, \<open>std::getline\<close> until the end of the input, and a split at the
  first occurrence of a character (\<open>find\<close> and two \<open>substr\<close>).\<close>

fun toString :: "nat \<Rightarrow> string" where
  "toString n = (if n < 10 then [char_of (48 + n)] else toString (n div 10) @ [char_of (48 + n mod 10)])"

declare toString.simps [simp del]

function getlines :: "string \<Rightarrow> string list" where
  "getlines s =
     (if s = [] then []
      else takeWhile (\<lambda>c. c \<noteq> newline) s # getlines (drop (Suc (length (takeWhile (\<lambda>c. c \<noteq> newline) s))) s))"
  by pat_completeness auto
termination
  by (relation "measure length") auto

declare getlines.simps [simp del]

definition splitAt :: "char \<Rightarrow> string \<Rightarrow> (string \<times> string) option" where
  "splitAt c s =
     (if c \<in> set s
      then Some (takeWhile (\<lambda>x. x \<noteq> c) s, drop (Suc (length (takeWhile (\<lambda>x. x \<noteq> c) s))) s)
      else None)"

function splitFields :: "char \<Rightarrow> string \<Rightarrow> string list" where
  "splitFields c s =
     (if c \<in> set s
      then takeWhile (\<lambda>x. x \<noteq> c) s # splitFields c (drop (Suc (length (takeWhile (\<lambda>x. x \<noteq> c) s))) s)
      else [s])"
  by pat_completeness auto
termination
  by (relation "measure (length \<circ> snd)") (auto dest: length_pos_if_in_set)

declare splitFields.simps [simp del]


section \<open>Printers and parsers\<close>

text \<open>
  The contract between a function that renders a value as text and the function that reads
  it back.
\<close>

locale text_codec =
  fixes render :: "'a \<Rightarrow> string"
    and parse :: "string \<Rightarrow> 'a option"
    and valid :: "'a \<Rightarrow> bool"
  assumes parse_render: "valid x \<Longrightarrow> parse (render x) = Some x"
begin

lemma render_inj: "valid x \<Longrightarrow> valid y \<Longrightarrow> render x = render y \<longleftrightarrow> x = y"
  using parse_render by (metis option.inject)

lemma map_render_inj:
  "(\<forall>x \<in> set xs. valid x) \<Longrightarrow> (\<forall>y \<in> set ys. valid y) \<Longrightarrow> map render xs = map render ys \<longleftrightarrow> xs = ys"
proof (induction xs arbitrary: ys)
  case (Cons x xs)
  then show ?case
    by (cases ys) (auto simp: render_inj)
qed auto

end

text \<open>The name tables of the enumerations: every constant has a name of its own.\<close>

locale enum_names =
  fixes name_of :: "'s \<Rightarrow> string"
    and constants :: "'s list"
  assumes all_constants: "s \<in> set constants"
    and names_distinct: "distinct (map name_of constants)"
begin

lemma name_inj: "name_of s = name_of t \<longleftrightarrow> s = t"
  using names_distinct all_constants by (auto simp: distinct_map inj_on_def)

lemma name_lookup: "map_of (map (\<lambda>s. (name_of s, s)) constants) (name_of s) = Some s"
proof -
  have "distinct (map fst (map (\<lambda>s. (name_of s, s)) constants))"
    using names_distinct by (simp add: comp_def)
  then show ?thesis
    using all_constants by (auto simp: map_of_eq_Some_iff)
qed

end


section \<open>Hexadecimal\<close>

lemma code_char_of: "n < 256 \<Longrightarrow> code (char_of n) = n"
  by simp

lemma nibble_hexDigit: "n < 16 \<Longrightarrow> nibble (hexDigit n) = Some n"
  by (auto simp: nibble_def hexDigit_def)

lemma join_nibbles: "push_bit 4 (of_nat (unat b div 16)) OR of_nat (unat b mod 16) = (b :: uint8)"
proof -
  have d: "of_nat (unat b div 16) = drop_bit 4 b"
    by (simp add: drop_bit_eq_div word_arith_nat_div flip: unat_drop_bit_eq)
  have m: "of_nat (unat b mod 16) = take_bit 4 b"
    by (simp add: take_bit_eq_mod word_arith_nat_mod)
  show ?thesis
    unfolding d m by (rule bit_word_eqI) (auto simp: bit_simps)
qed

lemma decodePairs_lowerHex: "decodePairs (lowerHex bs) = Some bs"
proof (induction bs)
  case (Cons b bs)
  have "unat b div 16 < 16"
    using unsigned_less [where 'a = nat, of b] by simp
  then show ?case
    using Cons by (simp add: lowerHex_def nibble_hexDigit join_nibbles)
qed (simp add: lowerHex_def)

lemma length_lowerHex: "length (lowerHex bs) = 2 * length bs"
  by (induction bs) (simp_all add: lowerHex_def)

interpretation hex_codec: text_codec lowerHex decodeHex "\<lambda>bs. bs \<noteq> []"
proof
  fix bs :: bytes
  assume "bs \<noteq> []"
  moreover from this have "lowerHex bs \<noteq> []"
    using length_lowerHex [of bs] by (cases bs) auto
  ultimately show "decodeHex (lowerHex bs) = Some bs"
    by (simp add: decodeHex_def decodePairs_lowerHex length_lowerHex)
qed

lemma decodePairs_length: "even (length s) \<Longrightarrow> decodePairs s = Some bs \<Longrightarrow> length s = 2 * length bs"
  by (induction s arbitrary: bs rule: decodePairs.induct) (auto split: option.splits)

lemma decodeHex_length: "decodeHex s = Some bs \<Longrightarrow> length s = 2 * length bs \<and> bs \<noteq> []"
  using decodePairs_length [of s bs]
  by (cases bs) (auto simp: decodeHex_def even_iff_mod_2_eq_zero split: if_splits)

lemma decodeHex_not_empty [simp]: "decodeHex s \<noteq> Some []"
  using decodeHex_length by blast


section \<open>Decimal\<close>

fun digitsValue :: "nat \<Rightarrow> string \<Rightarrow> nat" where
  "digitsValue acc [] = acc"
| "digitsValue acc (c # rest) = digitsValue (acc * 10 + (code c - 48)) rest"

lemma digitsValue_ge: "acc \<le> digitsValue acc s"
  by (induction acc s rule: digitsValue.induct) auto

lemma decimalLoop_spec:
  assumes "acc < 2 ^ 64"
  shows "decimalLoop (of_nat acc) s =
    (if (\<forall>c \<in> set s. isDigit c) \<and> digitsValue acc s < 2 ^ 64 then Some (of_nat (digitsValue acc s)) else None)"
  using assms
proof (induction s arbitrary: acc)
  case (Cons c s)
  show ?case
  proof (cases "isDigit c")
    case True
    define d where "d = code c - 48"
    have d: "d < 10"
      using True unfolding d_def isDigit_def by linarith
    have u: "unat (of_nat d :: uint64) = d" "unat (of_nat acc :: uint64) = acc"
      using d Cons.prems by (simp_all add: unat_of_nat)
    have "unat ((- 1) - of_nat d :: uint64) = 2 ^ 64 - 1 - d"
      using d by (subst unat_sub) (simp_all add: u word_le_nat_alt)
    then have guard: "of_nat acc > ((- 1) - of_nat d :: uint64) div 10 \<longleftrightarrow> 2 ^ 64 \<le> acc * 10 + d"
      using d by (simp add: word_less_nat_alt unat_div u) linarith
    show ?thesis
    proof (cases "acc * 10 + d < 2 ^ 64")
      case lt: True
      have "decimalLoop (of_nat acc) (c # s) = decimalLoop (of_nat (acc * 10 + d)) s"
        using True guard lt by (simp add: Let_def d_def)
      then show ?thesis
        using Cons.IH [OF lt] True by (simp add: d_def)
    next
      case False
      then have "\<not> digitsValue acc (c # s) < 2 ^ 64"
        using digitsValue_ge [of "acc * 10 + d" s] by (simp add: d_def)
      with False True guard show ?thesis
        by (simp add: Let_def d_def)
    qed
  qed simp
qed simp

lemma parseUnsignedDecimal_spec:
  "parseUnsignedDecimal s =
     (if s \<noteq> [] \<and> (\<forall>c \<in> set s. isDigit c) \<and> digitsValue 0 s < 2 ^ 64
      then Some (of_nat (digitsValue 0 s)) else None)"
  using decimalLoop_spec [of 0 s] by (simp add: parseUnsignedDecimal_def)

lemma digitsValue_append: "digitsValue acc (s @ t) = digitsValue (digitsValue acc s) t"
  by (induction acc s rule: digitsValue.induct) auto

lemma toString_digits: "toString n \<noteq> [] \<and> (\<forall>c \<in> set (toString n). isDigit c) \<and> digitsValue 0 (toString n) = n"
proof (induction n rule: toString.induct)
  case (1 n)
  show ?case
  proof (cases "n < 10")
    case True
    then show ?thesis
      by (subst (1 2 3) toString.simps) (simp add: isDigit_def)
  next
    case False
    have "isDigit (char_of (48 + n mod 10))" "code (char_of (48 + n mod 10)) - 48 = n mod 10"
      by (simp_all add: isDigit_def)
    with False 1 show ?thesis
      by (subst (1 2 3) toString.simps) (auto simp: digitsValue_append)
  qed
qed

interpretation decimal_codec: text_codec "\<lambda>w. toString (unat w)" parseUnsignedDecimal "\<lambda>_ :: uint64. True"
proof
  fix w :: uint64
  show "parseUnsignedDecimal (toString (unat w)) = Some w"
    using toString_digits [of "unat w"] unat_lt64 [of w] by (simp add: parseUnsignedDecimal_spec)
qed


section \<open>Lines and fields\<close>

lemma takeWhile_separator: "c \<notin> set a \<Longrightarrow> takeWhile (\<lambda>x. x \<noteq> c) (a @ c # b) = a"
  by (induction a) auto

lemma getlines_Cons: "newline \<notin> set l \<Longrightarrow> getlines (l @ newline # s) = l # getlines s"
  by (subst getlines.simps) (simp add: takeWhile_separator)

lemma getlines_unlines:
  "(\<forall>l \<in> set ls. newline \<notin> set l) \<Longrightarrow> getlines (concat (map (\<lambda>l. l @ [newline]) ls)) = ls"
  by (induction ls) (simp_all add: getlines_Cons getlines.simps [of "[]"])

lemma splitAt_append [simp]: "c \<notin> set a \<Longrightarrow> splitAt c (a @ c # b) = Some (a, b)"
  by (simp add: splitAt_def takeWhile_separator)

lemma splitFields_append [simp]: "c \<notin> set a \<Longrightarrow> splitFields c (a @ c # b) = a # splitFields c b"
  by (subst splitFields.simps) (simp add: takeWhile_separator)

lemma splitFields_single [simp]: "c \<notin> set a \<Longrightarrow> splitFields c a = [a]"
  by (subst splitFields.simps) simp

text \<open>Text that none of the line-oriented readers takes apart.\<close>

definition plain :: "string \<Rightarrow> bool" where
  "plain s \<longleftrightarrow> newline \<notin> set s \<and> tab \<notin> set s \<and> carriageReturn \<notin> set s"

lemma plain_Nil [simp]: "plain []"
  by (simp add: plain_def)

lemma plain_Cons [simp]: "plain (c # s) \<longleftrightarrow> c \<noteq> newline \<and> c \<noteq> tab \<and> c \<noteq> carriageReturn \<and> plain s"
  by (auto simp: plain_def)

lemma plain_digits: "\<forall>c \<in> set s. isDigit c \<Longrightarrow> plain s"
  by (auto simp: plain_def isDigit_def newline_def tab_def carriageReturn_def)

lemma plain_toString [simp]: "plain (toString n)"
  using toString_digits [of n] by (simp add: plain_digits)

lemma plain_hexDigit: "n < 16 \<Longrightarrow> plain [hexDigit n]"
  using nibble_hexDigit [of n]
  by (auto simp: nibble_def newline_def tab_def carriageReturn_def)

lemma plain_lowerHex [simp]: "plain (lowerHex bs)"
proof (induction bs)
  case (Cons b bs)
  have "unat b div 16 < 16"
    using unsigned_less [where 'a = nat, of b] by simp
  then show ?case
    using Cons plain_hexDigit [of "unat b div 16"] plain_hexDigit [of "unat b mod 16"]
    by (simp add: lowerHex_def)
qed (simp add: lowerHex_def)


section \<open>Outcomes with an error message\<close>

text \<open>A check on the successful outcome only.\<close>

definition on_ok :: "('a \<Rightarrow> bool) \<Rightarrow> string + 'a \<Rightarrow> bool" where
  "on_ok P x = (case x of Inl _ \<Rightarrow> True | Inr a \<Rightarrow> P a)"

lemma on_ok_simps [simp]:
  "on_ok P (Inl e)" "on_ok P (Inr a) \<longleftrightarrow> P a"
  "on_ok P (map_sum id f x) \<longleftrightarrow> on_ok (\<lambda>a. P (f a)) x"
  by (simp_all add: on_ok_def split: sum.split)

lemma on_ok_if: "(b \<Longrightarrow> on_ok P x) \<Longrightarrow> (\<not> b \<Longrightarrow> on_ok P y) \<Longrightarrow> on_ok P (if b then x else y)"
  by simp

lemma on_ok_option: "(\<And>a. on_ok P (f a)) \<Longrightarrow> on_ok P (case x of None \<Rightarrow> Inl e | Some a \<Rightarrow> f a)"
  by (simp split: option.split)

lemma on_okI: "(\<And>a. x = Inr a \<Longrightarrow> P a) \<Longrightarrow> on_ok P x"
  by (simp add: on_ok_def split: sum.split)

end
