(* ===== verification/Abi_Recipe.thy ===== *)
theory Abi_Recipe
  imports Text_Parsing
begin

text \<open>
  The ABI recipe of \<open>src/runtime/RuntimeAbiGuard.cpp\<close>: the data a recipe file declares
  about the module to be hooked and the parser \<open>parseAbiRecipe\<close>, with its error messages.
  The file system is a function from paths to contents.  The theory shows what every
  accepted recipe satisfies, and that every well-formed recipe has a text that is read back
  exactly.
\<close>

section \<open>Recipes\<close>

record SymbolRequirement =
  name :: string
  codePrefix :: bytes

record HookRequirement =
  role :: string
  symbol :: string

record BinderTransaction =
  role :: string
  code :: uint32

record ModuleIdentity =
  moduleSuffix :: string
  fileSize :: uint64
  sha256Hex :: string
  buildIdHex :: string

record AbiRecipe =
  schema :: uint32
  moduleSuffix :: string
  fileSize :: uint64
  sha256Hex :: string
  buildIdHex :: string
  architecture :: string
  symbols :: "SymbolRequirement list"
  hooks :: "HookRequirement list"
  transactions :: "BinderTransaction list"
  dependencies :: "ModuleIdentity list"

definition emptyRecipe :: AbiRecipe where
  "emptyRecipe = \<lparr>schema = 0, moduleSuffix = [], fileSize = 0, sha256Hex = [], buildIdHex = [],
     architecture = [], symbols = [], hooks = [], transactions = [], dependencies = []\<rparr>"

section \<open>Parsing\<close>

definition onLine :: "string \<Rightarrow> uint32 \<Rightarrow> string" where
  "onLine what n = what @ '' on line '' @ toString (unat n)"

definition parseSymbol :: "uint32 \<Rightarrow> string \<Rightarrow> string + SymbolRequirement" where
  "parseSymbol n v =
     (case splitAt tab v of
        None \<Rightarrow> Inl (onLine ''symbol has no code prefix'' n)
      | Some (nm, hex) \<Rightarrow>
          (if nm = [] then Inl (onLine ''invalid symbol'' n)
           else case decodeHex hex of
              None \<Rightarrow> Inl (onLine ''invalid symbol'' n)
            | Some prefix \<Rightarrow> Inr \<lparr>name = nm, codePrefix = prefix\<rparr>))"

definition parseHook :: "uint32 \<Rightarrow> string \<Rightarrow> string + HookRequirement" where
  "parseHook n v =
     (case splitAt tab v of
        None \<Rightarrow> Inl (onLine ''invalid hook'' n)
      | Some (r, s) \<Rightarrow>
          (if r = [] \<or> s = [] then Inl (onLine ''invalid hook'' n)
           else Inr \<lparr>HookRequirement.role = r, symbol = s\<rparr>))"

definition parseTransaction :: "uint32 \<Rightarrow> string \<Rightarrow> string + BinderTransaction" where
  "parseTransaction n v =
     (case splitAt tab v of
        None \<Rightarrow> Inl (onLine ''invalid transaction'' n)
      | Some (r, number) \<Rightarrow>
          (if r = [] then Inl (onLine ''invalid transaction'' n)
           else case parseUnsignedDecimal number of
              None \<Rightarrow> Inl (onLine ''invalid transaction'' n)
            | Some c \<Rightarrow>
                (if c = 0 \<or> c > 0xFFFFFFFF then Inl (onLine ''invalid transaction'' n)
                 else Inr \<lparr>BinderTransaction.role = r, code = ucast c\<rparr>)))"

definition parseDependency :: "uint32 \<Rightarrow> string \<Rightarrow> string + ModuleIdentity" where
  "parseDependency n v =
     (case splitFields tab v of
        [suffix, sizeText, sha, build] \<Rightarrow>
          (case (parseUnsignedDecimal sizeText, decodeHex sha, decodeHex build) of
             (Some sz, Some dependencySha, Some dependencyBuildId) \<Rightarrow>
               (if suffix = [] \<or> sz = 0 \<or> length dependencySha \<noteq> 32 \<or> length dependencyBuildId < 8
                then Inl (onLine ''invalid dependency'' n)
                else Inr \<lparr>ModuleIdentity.moduleSuffix = suffix, fileSize = sz, sha256Hex = sha,
                           buildIdHex = build\<rparr>)
           | _ \<Rightarrow> Inl (onLine ''invalid dependency'' n))
      | _ \<Rightarrow> Inl (onLine ''invalid dependency'' n))"

definition parseEntry :: "uint32 \<Rightarrow> string \<Rightarrow> string \<Rightarrow> AbiRecipe \<Rightarrow> string + AbiRecipe" where
  "parseEntry n key v p =
     (if key = ''schema'' then
        (case parseUnsignedDecimal v of
           None \<Rightarrow> Inl (onLine ''invalid schema'' n)
         | Some number \<Rightarrow>
             (if number > 0xFFFFFFFF then Inl (onLine ''invalid schema'' n)
              else Inr (p\<lparr>schema := ucast number\<rparr>)))
      else if key = ''module'' then Inr (p\<lparr>moduleSuffix := v\<rparr>)
      else if key = ''file_size'' then
        (case parseUnsignedDecimal v of
           None \<Rightarrow> Inl (onLine ''invalid file_size'' n)
         | Some number \<Rightarrow> Inr (p\<lparr>fileSize := number\<rparr>))
      else if key = ''sha256'' then Inr (p\<lparr>sha256Hex := v\<rparr>)
      else if key = ''build_id'' then Inr (p\<lparr>buildIdHex := v\<rparr>)
      else if key = ''architecture'' then Inr (p\<lparr>architecture := v\<rparr>)
      else if key = ''symbol'' then
        map_sum id (\<lambda>x. p\<lparr>symbols := symbols p @ [x]\<rparr>) (parseSymbol n v)
      else if key = ''hook'' then
        map_sum id (\<lambda>x. p\<lparr>hooks := hooks p @ [x]\<rparr>) (parseHook n v)
      else if key = ''transaction'' then
        map_sum id (\<lambda>x. p\<lparr>transactions := transactions p @ [x]\<rparr>) (parseTransaction n v)
      else if key = ''dependency'' then
        map_sum id (\<lambda>x. p\<lparr>dependencies := dependencies p @ [x]\<rparr>) (parseDependency n v)
      else Inl (onLine ''unknown key'' n @ '': '' @ key))"

definition parseLine :: "uint32 \<Rightarrow> string \<Rightarrow> AbiRecipe \<Rightarrow> string + AbiRecipe" where
  "parseLine n rawLine p =
     (let line = trimCarriageReturn rawLine in
      if line = [] \<or> line ! 0 = CHR ''#'' then Inr p
      else case splitAt tab line of
             None \<Rightarrow> Inl (''line '' @ toString (unat n) @ '' has no tab separator'')
           | Some (key, v) \<Rightarrow> parseEntry n key v p)"

fun parseLoop :: "uint32 \<Rightarrow> string list \<Rightarrow> AbiRecipe \<Rightarrow> string + AbiRecipe" where
  "parseLoop n [] p = Inr p"
| "parseLoop n (line # rest) p =
     (case parseLine (n + 1) line p of
        Inl e \<Rightarrow> Inl e
      | Inr p' \<Rightarrow> parseLoop (n + 1) rest p')"

definition hasHex :: "string \<Rightarrow> (nat \<Rightarrow> bool) \<Rightarrow> bool" where
  "hasHex text ok = (case decodeHex text of None \<Rightarrow> False | Some bs \<Rightarrow> ok (length bs))"

definition hooksConsistent :: "AbiRecipe \<Rightarrow> bool" where
  "hooksConsistent p =
     list_all (\<lambda>i. let hook = hooks p ! i in
        list_ex (\<lambda>requirement. name requirement = symbol hook) (symbols p) \<and>
        \<not> list_ex (\<lambda>existing. HookRequirement.role existing = HookRequirement.role hook) (take i (hooks p)))
      [0..<length (hooks p)]"

definition transactionsConsistent :: "AbiRecipe \<Rightarrow> bool" where
  "transactionsConsistent p =
     list_all (\<lambda>i. let txn = transactions p ! i in
        \<not> list_ex (\<lambda>existing. BinderTransaction.role existing = BinderTransaction.role txn) (take i (transactions p)) \<and>
        \<not> list_ex (\<lambda>existing. code existing = code txn) (take i (transactions p)))
      [0..<length (transactions p)]"

definition dependenciesConsistent :: "AbiRecipe \<Rightarrow> bool" where
  "dependenciesConsistent p =
     list_all (\<lambda>i. \<not> list_ex (\<lambda>existing. ModuleIdentity.moduleSuffix existing =
                              ModuleIdentity.moduleSuffix (dependencies p ! i)) (take i (dependencies p)))
      [0..<length (dependencies p)]"

definition checkRecipe :: "AbiRecipe \<Rightarrow> string + AbiRecipe" where
  "checkRecipe parsed =
     (if (schema parsed \<noteq> 1 \<and> schema parsed \<noteq> 2) \<or> moduleSuffix parsed = [] \<or> fileSize parsed = 0 \<or>
         \<not> hasHex (buildIdHex parsed) (\<lambda>n. n \<ge> 8) \<or> \<not> hasHex (sha256Hex parsed) (\<lambda>n. n = 32) \<or>
         symbols parsed = []
      then Inl ''recipe is incomplete or uses an unsupported schema''
      else if schema parsed = 2 then
        (if architecture parsed \<noteq> ''arm64'' \<or> hooks parsed = [] \<or> transactions parsed = [] \<or>
            dependencies parsed = []
         then Inl ''schema 2 recipe has no complete ARM64 strategy''
         else if \<not> hooksConsistent parsed
         then Inl ''schema 2 hook is missing its symbol or duplicates a role''
         else if \<not> transactionsConsistent parsed
         then Inl ''schema 2 transaction role or code is duplicated''
         else if \<not> dependenciesConsistent parsed
         then Inl ''schema 2 dependency is duplicated''
         else Inr parsed)
      else Inr parsed)"

text \<open>\<open>recipeNull\<close> is the caller's null output pointer; the optional error string is the
  \<open>Inl\<close> value.\<close>

definition parseAbiRecipe :: "(string \<Rightarrow> string option) \<Rightarrow> string \<Rightarrow> bool \<Rightarrow> string + AbiRecipe" where
  "parseAbiRecipe files path recipeNull =
     (if recipeNull then Inl ''recipe output is null''
      else case files path of
             None \<Rightarrow> Inl (''cannot open recipe: '' @ path)
           | Some content \<Rightarrow>
               (case parseLoop 0 (getlines content) emptyRecipe of
                  Inl e \<Rightarrow> Inl e
                | Inr parsed \<Rightarrow> checkRecipe parsed))"


section \<open>What a recipe guarantees\<close>

definition dependency_ok :: "ModuleIdentity \<Rightarrow> bool" where
  "dependency_ok d \<longleftrightarrow> ModuleIdentity.moduleSuffix d \<noteq> [] \<and> ModuleIdentity.fileSize d \<noteq> 0 \<and>
     hasHex (ModuleIdentity.sha256Hex d) (\<lambda>n. n = 32) \<and> hasHex (ModuleIdentity.buildIdHex d) (\<lambda>n. n \<ge> 8)"

definition entries_ok :: "AbiRecipe \<Rightarrow> bool" where
  "entries_ok r \<longleftrightarrow>
     (\<forall>s \<in> set (symbols r). name s \<noteq> [] \<and> codePrefix s \<noteq> []) \<and>
     (\<forall>h \<in> set (hooks r). HookRequirement.role h \<noteq> [] \<and> symbol h \<noteq> []) \<and>
     (\<forall>t \<in> set (transactions r). BinderTransaction.role t \<noteq> [] \<and> code t \<noteq> 0) \<and>
     (\<forall>d \<in> set (dependencies r). dependency_ok d)"

definition recipe_wf :: "AbiRecipe \<Rightarrow> bool" where
  "recipe_wf r \<longleftrightarrow> entries_ok r \<and> schema r \<in> {1, 2} \<and> moduleSuffix r \<noteq> [] \<and> fileSize r \<noteq> 0 \<and>
     hasHex (sha256Hex r) (\<lambda>n. n = 32) \<and> hasHex (buildIdHex r) (\<lambda>n. n \<ge> 8) \<and> symbols r \<noteq> [] \<and>
     (schema r = 2 \<longrightarrow> architecture r = ''arm64'' \<and> hooks r \<noteq> [] \<and> transactions r \<noteq> [] \<and>
        dependencies r \<noteq> [] \<and> symbol ` set (hooks r) \<subseteq> name ` set (symbols r) \<and>
        distinct (map HookRequirement.role (hooks r)) \<and>
        distinct (map BinderTransaction.role (transactions r)) \<and>
        distinct (map code (transactions r)) \<and>
        distinct (map ModuleIdentity.moduleSuffix (dependencies r)))"

lemma distinct_by_prefix:
  "distinct (map f xs) \<longleftrightarrow> (\<forall>i < length xs. \<not> (\<exists>y \<in> set (take i xs). f y = f (xs ! i)))"
proof -
  have "(\<exists>y \<in> set (take i xs). f y = f (xs ! i)) \<longleftrightarrow> (\<exists>j < i. f (xs ! j) = f (xs ! i))" if "i < length xs" for i
    using that nth_image [of i xs] by (auto simp flip: nth_image)
  then show ?thesis
    by (auto simp: distinct_conv_nth) (metis linorder_neqE_nat)
qed

lemma hooksConsistent_iff:
  "hooksConsistent r \<longleftrightarrow> symbol ` set (hooks r) \<subseteq> name ` set (symbols r) \<and>
     distinct (map HookRequirement.role (hooks r))"
proof -
  have "symbol ` set (hooks r) \<subseteq> name ` set (symbols r) \<longleftrightarrow>
      (\<forall>i < length (hooks r). \<exists>s \<in> set (symbols r). name s = symbol (hooks r ! i))"
    unfolding image_subset_iff all_set_conv_all_nth image_iff by metis
  then show ?thesis
    by (auto simp: hooksConsistent_def list_all_iff list_ex_iff Let_def distinct_by_prefix)
qed

lemma transactionsConsistent_iff:
  "transactionsConsistent r \<longleftrightarrow> distinct (map BinderTransaction.role (transactions r)) \<and>
     distinct (map code (transactions r))"
  by (auto simp: transactionsConsistent_def list_all_iff list_ex_iff Let_def distinct_by_prefix)

lemma dependenciesConsistent_iff:
  "dependenciesConsistent r \<longleftrightarrow> distinct (map ModuleIdentity.moduleSuffix (dependencies r))"
  by (auto simp: dependenciesConsistent_def list_all_iff list_ex_iff distinct_by_prefix)

lemmas consistent_iffs = hooksConsistent_iff transactionsConsistent_iff dependenciesConsistent_iff

lemma checkRecipe_iff: "entries_ok r \<Longrightarrow> checkRecipe r = Inr r' \<longleftrightarrow> r' = r \<and> recipe_wf r"
  by (auto simp: checkRecipe_def recipe_wf_def consistent_iffs)

lemma parseSymbol_ok: "parseSymbol n v = Inr s \<Longrightarrow> name s \<noteq> [] \<and> codePrefix s \<noteq> []"
  by (auto simp: parseSymbol_def split: option.splits if_splits dest: decodeHex_length)

lemma parseHook_ok: "parseHook n v = Inr h \<Longrightarrow> HookRequirement.role h \<noteq> [] \<and> symbol h \<noteq> []"
  by (auto simp: parseHook_def split: option.splits if_splits)

lemma parseTransaction_ok:
  "parseTransaction n v = Inr t \<Longrightarrow> BinderTransaction.role t \<noteq> [] \<and> code t \<noteq> 0"
proof -
  have "(ucast c :: uint32) \<noteq> 0" if "c \<noteq> 0" "\<not> c > 0xFFFFFFFF" for c :: uint64
  proof
    assume "(ucast c :: uint32) = 0"
    then have "unat c mod 2 ^ 32 = 0"
      by (simp flip: unat_eq_zero add: unsigned_ucast_eq take_bit_eq_mod)
    moreover have "unat c < 2 ^ 32"
      using that(2) by (simp add: word_less_nat_alt)
    ultimately show False
      using that(1) by (simp add: unat_eq_zero)
  qed
  then show "parseTransaction n v = Inr t \<Longrightarrow> BinderTransaction.role t \<noteq> [] \<and> code t \<noteq> 0"
    by (auto simp: parseTransaction_def split: option.splits if_splits)
qed

lemma parseDependency_ok: "parseDependency n v = Inr d \<Longrightarrow> dependency_ok d"
  unfolding parseDependency_def dependency_ok_def hasHex_def
  by (simp split: list.split_asm option.split_asm if_split_asm) auto

lemma entries_ok_update [simp]:
  "entries_ok (p\<lparr>schema := a\<rparr>) = entries_ok p" "entries_ok (p\<lparr>moduleSuffix := b\<rparr>) = entries_ok p"
  "entries_ok (p\<lparr>fileSize := c\<rparr>) = entries_ok p" "entries_ok (p\<lparr>sha256Hex := d\<rparr>) = entries_ok p"
  "entries_ok (p\<lparr>buildIdHex := e\<rparr>) = entries_ok p" "entries_ok (p\<lparr>architecture := f\<rparr>) = entries_ok p"
  by (simp_all add: entries_ok_def)

lemma parseEntry_ok: "entries_ok p \<Longrightarrow> on_ok entries_ok (parseEntry n key v p)"
  unfolding parseEntry_def
  by (intro on_ok_if on_ok_option)
     (auto intro!: on_okI simp: entries_ok_def
       dest: parseSymbol_ok parseHook_ok parseTransaction_ok parseDependency_ok)

lemma parseLine_ok: "entries_ok p \<Longrightarrow> on_ok entries_ok (parseLine n l p)"
  by (auto simp: parseLine_def Let_def parseEntry_ok split: option.split)

lemma parseLoop_ok: "entries_ok p \<Longrightarrow> on_ok entries_ok (parseLoop n ls p)"
proof (induction n ls p rule: parseLoop.induct)
  case (2 n line rest p)
  then show ?case
    using parseLine_ok [of p "n + 1" line] by (cases "parseLine (n + 1) line p") simp_all
qed simp

lemma emptyRecipe_ok: "entries_ok emptyRecipe"
  by (simp add: entries_ok_def emptyRecipe_def)


section \<open>A text for every recipe\<close>

definition recipeLine :: "string \<Rightarrow> string \<Rightarrow> string" where
  "recipeLine key v = key @ tab # v"

definition symbolText :: "SymbolRequirement \<Rightarrow> string" where
  "symbolText s = name s @ tab # lowerHex (codePrefix s)"

definition hookText :: "HookRequirement \<Rightarrow> string" where
  "hookText h = HookRequirement.role h @ tab # symbol h"

definition transactionText :: "BinderTransaction \<Rightarrow> string" where
  "transactionText t = BinderTransaction.role t @ tab # toString (unat (code t))"

definition dependencyText :: "ModuleIdentity \<Rightarrow> string" where
  "dependencyText d = ModuleIdentity.moduleSuffix d @ tab # toString (unat (ModuleIdentity.fileSize d)) @
     tab # ModuleIdentity.sha256Hex d @ tab # ModuleIdentity.buildIdHex d"

definition recipeLines :: "AbiRecipe \<Rightarrow> string list" where
  "recipeLines r =
     [recipeLine ''schema'' (toString (unat (schema r))), recipeLine ''module'' (moduleSuffix r),
      recipeLine ''file_size'' (toString (unat (fileSize r))), recipeLine ''sha256'' (sha256Hex r),
      recipeLine ''build_id'' (buildIdHex r), recipeLine ''architecture'' (architecture r)] @
     map (recipeLine ''symbol'' \<circ> symbolText) (symbols r) @
     map (recipeLine ''hook'' \<circ> hookText) (hooks r) @
     map (recipeLine ''transaction'' \<circ> transactionText) (transactions r) @
     map (recipeLine ''dependency'' \<circ> dependencyText) (dependencies r)"

definition recipeText :: "AbiRecipe \<Rightarrow> string" where
  "recipeText r = concat (map (\<lambda>l. l @ [newline]) (recipeLines r))"

definition recipe_plain :: "AbiRecipe \<Rightarrow> bool" where
  "recipe_plain r \<longleftrightarrow> plain (moduleSuffix r) \<and> plain (sha256Hex r) \<and> plain (buildIdHex r) \<and>
     plain (architecture r) \<and> (\<forall>s \<in> set (symbols r). plain (name s)) \<and>
     (\<forall>h \<in> set (hooks r). plain (HookRequirement.role h) \<and> plain (symbol h)) \<and>
     (\<forall>t \<in> set (transactions r). plain (BinderTransaction.role t)) \<and>
     (\<forall>d \<in> set (dependencies r). plain (ModuleIdentity.moduleSuffix d) \<and>
        plain (ModuleIdentity.sha256Hex d) \<and> plain (ModuleIdentity.buildIdHex d))"

lemma trim_plain: "carriageReturn \<notin> set l \<Longrightarrow> trimCarriageReturn l = l"
  unfolding trimCarriageReturn_def by (metis last_in_set)

lemma parseLine_recipeLine:
  assumes "plain key" "key \<noteq> []" "hd key \<noteq> CHR ''#''" "carriageReturn \<notin> set v"
  shows "parseLine n (recipeLine key v) p = parseEntry n key v p"
proof -
  have "trimCarriageReturn (recipeLine key v) = recipeLine key v"
    using assms by (intro trim_plain) (auto simp: recipeLine_def plain_def tab_def carriageReturn_def)
  then show ?thesis
    using assms splitAt_append [of tab key v]
    by (cases key) (simp_all add: parseLine_def recipeLine_def plain_def)
qed

lemma parseSymbol_text: "plain (name s) \<Longrightarrow> name s \<noteq> [] \<Longrightarrow> codePrefix s \<noteq> [] \<Longrightarrow>
    parseSymbol n (symbolText s) = Inr s"
  by (simp add: parseSymbol_def symbolText_def plain_def hex_codec.parse_render)

lemma parseHook_text: "plain (HookRequirement.role h) \<Longrightarrow> HookRequirement.role h \<noteq> [] \<Longrightarrow> symbol h \<noteq> [] \<Longrightarrow>
    parseHook n (hookText h) = Inr h"
  by (simp add: parseHook_def hookText_def plain_def)

lemma unat_ucast64 [simp]: "unat (ucast (w :: uint32) :: uint64) = unat w"
proof -
  have "unat w < 2 ^ 64"
    using unsigned_less [where 'a = nat, of w] by simp
  then show ?thesis
    by (simp add: unsigned_ucast_eq take_bit_nat_eq_self)
qed

lemma decimal32: "parseUnsignedDecimal (toString (unat (w :: uint32))) = Some (ucast w)"
  using decimal_codec.parse_render [of "ucast w"] by simp

lemma ucast32_range [simp]:
  "\<not> 0xFFFFFFFF < (ucast (w :: uint32) :: uint64)" "(ucast (ucast w :: uint64) :: uint32) = w"
  "(ucast w :: uint64) = 0 \<longleftrightarrow> w = 0"
proof -
  show "\<not> 0xFFFFFFFF < (ucast w :: uint64)"
    using unsigned_less [where 'a = nat, of w] by (simp add: word_less_nat_alt)
  show "(ucast (ucast w :: uint64) :: uint32) = w"
    by (rule bit_word_eqI) (simp add: bit_simps)
  show "(ucast w :: uint64) = 0 \<longleftrightarrow> w = 0"
    by (simp flip: unat_eq_zero)
qed

lemma parseTransaction_text:
  "plain (BinderTransaction.role t) \<Longrightarrow> BinderTransaction.role t \<noteq> [] \<Longrightarrow> code t \<noteq> 0 \<Longrightarrow>
   parseTransaction n (transactionText t) = Inr t"
  by (simp add: parseTransaction_def transactionText_def plain_def decimal32)

lemma hasHex_iff: "hasHex s ok \<longleftrightarrow> (\<exists>bs. decodeHex s = Some bs \<and> ok (length bs))"
  by (simp add: hasHex_def split: option.split)

lemma parseDependency_text:
  assumes "dependency_ok d" "plain (ModuleIdentity.moduleSuffix d)" "plain (ModuleIdentity.sha256Hex d)"
    "plain (ModuleIdentity.buildIdHex d)"
  shows "parseDependency n (dependencyText d) = Inr d"
proof -
  have "splitFields tab (dependencyText d) = [ModuleIdentity.moduleSuffix d,
      toString (unat (ModuleIdentity.fileSize d)), ModuleIdentity.sha256Hex d, ModuleIdentity.buildIdHex d]"
    using assms plain_toString [of "unat (ModuleIdentity.fileSize d)"]
    by (simp add: dependencyText_def plain_def)
  then show ?thesis
    using assms(1) by (auto simp: parseDependency_def decimal_codec.parse_render dependency_ok_def hasHex_iff)
qed

lemma parseLoop_append:
  "parseLoop n (xs @ ys) p =
     (case parseLoop n xs p of Inl e \<Rightarrow> Inl e | Inr p' \<Rightarrow> parseLoop (n + of_nat (length xs)) ys p')"
  by (induction n xs p rule: parseLoop.induct) (auto simp: add.assoc split: sum.split)

lemma parseLoop_section:
  assumes "\<And>x n p. x \<in> set xs \<Longrightarrow> parseLine n (line x) p = Inr (add x p)"
  shows "parseLoop n (map line xs) p = Inr (fold add xs p)"
  using assms by (induction xs arbitrary: n p) simp_all

lemma fold_entries:
  "fold (\<lambda>x p. p\<lparr>symbols := symbols p @ [x]\<rparr>) xs p = p\<lparr>symbols := symbols p @ xs\<rparr>"
  "fold (\<lambda>x p. p\<lparr>hooks := hooks p @ [x]\<rparr>) hs p = p\<lparr>hooks := hooks p @ hs\<rparr>"
  "fold (\<lambda>x p. p\<lparr>transactions := transactions p @ [x]\<rparr>) ts p = p\<lparr>transactions := transactions p @ ts\<rparr>"
  "fold (\<lambda>x p. p\<lparr>dependencies := dependencies p @ [x]\<rparr>) ds p = p\<lparr>dependencies := dependencies p @ ds\<rparr>"
proof -
  show "fold (\<lambda>x p. p\<lparr>symbols := symbols p @ [x]\<rparr>) xs p = p\<lparr>symbols := symbols p @ xs\<rparr>"
    by (induction xs arbitrary: p) simp_all
  show "fold (\<lambda>x p. p\<lparr>hooks := hooks p @ [x]\<rparr>) hs p = p\<lparr>hooks := hooks p @ hs\<rparr>"
    by (induction hs arbitrary: p) simp_all
  show "fold (\<lambda>x p. p\<lparr>transactions := transactions p @ [x]\<rparr>) ts p = p\<lparr>transactions := transactions p @ ts\<rparr>"
    by (induction ts arbitrary: p) simp_all
  show "fold (\<lambda>x p. p\<lparr>dependencies := dependencies p @ [x]\<rparr>) ds p = p\<lparr>dependencies := dependencies p @ ds\<rparr>"
    by (induction ds arbitrary: p) simp_all
qed

lemma recipeLine_no_cr: "plain a \<Longrightarrow> plain b \<Longrightarrow> carriageReturn \<notin> set (a @ tab # b)"
  by (auto simp: plain_def tab_def carriageReturn_def)

lemma plain_parts: "plain s \<Longrightarrow> newline \<notin> set s" "plain s \<Longrightarrow> tab \<notin> set s" "plain s \<Longrightarrow> carriageReturn \<notin> set s"
  by (simp_all add: plain_def)

lemma separators [simp]: "newline \<noteq> tab" "tab \<noteq> newline" "carriageReturn \<noteq> tab" "tab \<noteq> carriageReturn"
  by (simp_all add: newline_def tab_def carriageReturn_def)

lemmas key_simps = newline_def tab_def carriageReturn_def

lemmas text_defs = symbolText_def hookText_def transactionText_def dependencyText_def

lemma symbol_section:
  assumes "recipe_plain r" "entries_ok r"
  shows "parseLoop n (map (recipeLine ''symbol'' \<circ> symbolText) (symbols r)) p = Inr (p\<lparr>symbols := symbols p @ symbols r\<rparr>)"
proof -
  have "parseLine k ((recipeLine ''symbol'' \<circ> symbolText) s) q = Inr (q\<lparr>symbols := symbols q @ [s]\<rparr>)"
    if "s \<in> set (symbols r)" for s k q
  proof -
    have "plain (name s)" "name s \<noteq> []" "codePrefix s \<noteq> []"
      using that assms by (auto simp: recipe_plain_def entries_ok_def)
    then show ?thesis
      using parseLine_recipeLine [of "''symbol''" "symbolText s" k q] parseSymbol_text [of s k]
      by (simp add: parseEntry_def text_defs plain_parts) (simp add: key_simps)
  qed
  then show ?thesis
    by (subst parseLoop_section [where add = "\<lambda>x p. p\<lparr>symbols := symbols p @ [x]\<rparr>"]) (simp_all add: fold_entries)
qed

lemma hook_section:
  assumes "recipe_plain r" "entries_ok r"
  shows "parseLoop n (map (recipeLine ''hook'' \<circ> hookText) (hooks r)) p = Inr (p\<lparr>hooks := hooks p @ hooks r\<rparr>)"
proof -
  have "parseLine k ((recipeLine ''hook'' \<circ> hookText) h) q = Inr (q\<lparr>hooks := hooks q @ [h]\<rparr>)"
    if "h \<in> set (hooks r)" for h k q
  proof -
    have "plain (HookRequirement.role h)" "plain (symbol h)" "HookRequirement.role h \<noteq> []" "symbol h \<noteq> []"
      using that assms by (auto simp: recipe_plain_def entries_ok_def)
    then show ?thesis
      using parseLine_recipeLine [of "''hook''" "hookText h" k q] parseHook_text [of h k]
      by (simp add: parseEntry_def text_defs plain_parts) (simp add: key_simps)
  qed
  then show ?thesis
    by (subst parseLoop_section [where add = "\<lambda>x p. p\<lparr>hooks := hooks p @ [x]\<rparr>"]) (simp_all add: fold_entries)
qed

lemma transaction_section:
  assumes "recipe_plain r" "entries_ok r"
  shows "parseLoop n (map (recipeLine ''transaction'' \<circ> transactionText) (transactions r)) p =
    Inr (p\<lparr>transactions := transactions p @ transactions r\<rparr>)"
proof -
  have "parseLine k ((recipeLine ''transaction'' \<circ> transactionText) t) q =
      Inr (q\<lparr>transactions := transactions q @ [t]\<rparr>)"
    if "t \<in> set (transactions r)" for t k q
  proof -
    have "plain (BinderTransaction.role t)" "BinderTransaction.role t \<noteq> []" "code t \<noteq> 0"
      using that assms by (auto simp: recipe_plain_def entries_ok_def)
    then show ?thesis
      using parseLine_recipeLine [of "''transaction''" "transactionText t" k q] parseTransaction_text [of t k]
      by (simp add: parseEntry_def text_defs plain_parts) (simp add: key_simps)
  qed
  then show ?thesis
    by (subst parseLoop_section [where add = "\<lambda>x p. p\<lparr>transactions := transactions p @ [x]\<rparr>"]) (simp_all add: fold_entries)
qed

lemma dependency_section:
  assumes "recipe_plain r" "entries_ok r"
  shows "parseLoop n (map (recipeLine ''dependency'' \<circ> dependencyText) (dependencies r)) p =
    Inr (p\<lparr>dependencies := dependencies p @ dependencies r\<rparr>)"
proof -
  have "parseLine k ((recipeLine ''dependency'' \<circ> dependencyText) d) q =
      Inr (q\<lparr>dependencies := dependencies q @ [d]\<rparr>)"
    if "d \<in> set (dependencies r)" for d k q
  proof -
    have "dependency_ok d" "plain (ModuleIdentity.moduleSuffix d)" "plain (ModuleIdentity.sha256Hex d)"
        "plain (ModuleIdentity.buildIdHex d)"
      using that assms by (auto simp: recipe_plain_def entries_ok_def)
    then show ?thesis
      using parseLine_recipeLine [of "''dependency''" "dependencyText d" k q] parseDependency_text [of d k]
      by (simp add: parseEntry_def text_defs plain_parts) (simp add: key_simps)
  qed
  then show ?thesis
    by (subst parseLoop_section [where add = "\<lambda>x p. p\<lparr>dependencies := dependencies p @ [x]\<rparr>"]) (simp_all add: fold_entries)
qed

lemma header_section:
  assumes "recipe_plain r"
  shows "parseLoop 0 [recipeLine ''schema'' (toString (unat (schema r))), recipeLine ''module'' (moduleSuffix r),
      recipeLine ''file_size'' (toString (unat (fileSize r))), recipeLine ''sha256'' (sha256Hex r),
      recipeLine ''build_id'' (buildIdHex r), recipeLine ''architecture'' (architecture r)] emptyRecipe =
    Inr (emptyRecipe\<lparr>schema := schema r, moduleSuffix := moduleSuffix r, fileSize := fileSize r,
      sha256Hex := sha256Hex r, buildIdHex := buildIdHex r, architecture := architecture r\<rparr>)"
proof -
  have "parseLine n (recipeLine key v) p = parseEntry n key v p"
    if "key \<in> {''schema'', ''module'', ''file_size'', ''sha256'', ''build_id'', ''architecture''}" "plain v"
    for n key v p
    using that by (intro parseLine_recipeLine) (auto simp: plain_parts, (auto simp: key_simps))
  then show ?thesis
    using assms
    by (simp add: recipe_plain_def parseEntry_def decimal32 decimal_codec.parse_render)
qed

lemma recipeLines_no_newline: "recipe_plain r \<Longrightarrow> \<forall>l \<in> set (recipeLines r). newline \<notin> set l"
  unfolding recipeLines_def recipe_plain_def
  by (auto simp: recipeLine_def text_defs plain_parts) (auto simp: key_simps)

lemma parseLoop_recipeLines:
  assumes "recipe_plain r" "entries_ok r"
  shows "parseLoop 0 (recipeLines r) emptyRecipe = Inr r"
  unfolding recipeLines_def parseLoop_append
  by (simp only: header_section symbol_section hook_section transaction_section dependency_section assms sum.case)
     (simp add: emptyRecipe_def)

lemma parse_recipeText:
  assumes "recipe_wf r" "recipe_plain r"
  shows "parseAbiRecipe (\<lambda>_. Some (recipeText r)) path False = Inr r"
proof -
  have "entries_ok r"
    using assms(1) by (simp add: recipe_wf_def)
  then have "parseLoop 0 (getlines (recipeText r)) emptyRecipe = Inr r"
    using parseLoop_recipeLines [OF assms(2)] recipeLines_no_newline [OF assms(2)]
    by (simp add: recipeText_def getlines_unlines)
  then show ?thesis
    using \<open>entries_ok r\<close> assms(1) by (simp add: parseAbiRecipe_def checkRecipe_iff)
qed


section \<open>Properties\<close>

text \<open>
  C16. Whatever the recipe file contains, a recipe the parser accepts is well formed: a
  supported schema, a 32-byte hash, a build id of at least 8 bytes, non-empty code prefixes,
  and for schema 2 an ARM64 strategy whose hooks name declared symbols and whose roles,
  transaction codes and dependencies are unique.
\<close>
theorem accepted_recipe_wf:
  assumes "parseAbiRecipe files path recipeNull = Inr r"
  shows "recipe_wf r"
proof -
  obtain content parsed where p: "parseLoop 0 (getlines content) emptyRecipe = Inr parsed" "checkRecipe parsed = Inr r"
    using assms by (auto simp: parseAbiRecipe_def split: if_splits option.splits sum.splits)
  then have "entries_ok parsed"
    using parseLoop_ok [OF emptyRecipe_ok, of 0 "getlines content"] by simp
  with p(2) show ?thesis
    by (simp add: checkRecipe_iff)
qed

text \<open>
  C17. Every well-formed recipe whose strings hold no separators can be written down: the
  parser reads its text back as exactly that recipe.
\<close>
theorem recipe_text_roundtrip:
  "recipe_wf r \<Longrightarrow> recipe_plain r \<Longrightarrow> parseAbiRecipe (\<lambda>_. Some (recipeText r)) path False = Inr r"
  by (rule parse_recipeText)

definition exampleRecipe :: AbiRecipe where
  "exampleRecipe = \<lparr>schema = 2, moduleSuffix = ''/libcamera.so'', fileSize = 4096,
     sha256Hex = lowerHex (replicate 32 0xA5), buildIdHex = lowerHex (replicate 8 7), architecture = ''arm64'',
     symbols = [\<lparr>name = ''_ZN7android13onTransact'', codePrefix = [0xFD, 0x7B, 0xBE, 0xA9]\<rparr>],
     hooks = [\<lparr>HookRequirement.role = ''on_transact'', symbol = ''_ZN7android13onTransact''\<rparr>],
     transactions = [\<lparr>BinderTransaction.role = ''connect'', code = 4\<rparr>],
     dependencies = [\<lparr>ModuleIdentity.moduleSuffix = ''/libbinder.so'', fileSize = 8192,
       sha256Hex = lowerHex (replicate 32 1), buildIdHex = lowerHex (replicate 20 2)\<rparr>]\<rparr>"

lemma exampleRecipe_plain: "recipe_plain exampleRecipe"
  by (simp add: recipe_plain_def exampleRecipe_def key_simps)

lemma exampleRecipe_wf: "recipe_wf exampleRecipe"
  by (simp add: recipe_wf_def exampleRecipe_def entries_ok_def dependency_ok_def hasHex_def
      hex_codec.parse_render)

theorem accepted_recipe_wf_witness:
  "parseAbiRecipe (\<lambda>_. Some (recipeText exampleRecipe)) ''/r'' False = Inr exampleRecipe \<and> recipe_wf exampleRecipe"
proof -
  have "parseAbiRecipe (\<lambda>_. Some (recipeText exampleRecipe)) ''/r'' False = Inr exampleRecipe"
    by (rule parse_recipeText [OF exampleRecipe_wf exampleRecipe_plain])
  with accepted_recipe_wf [OF this] show ?thesis
    by simp
qed

theorem recipe_text_roundtrip_witness:
  "parseAbiRecipe (\<lambda>_. Some (recipeText exampleRecipe)) ''/r'' False = Inr exampleRecipe"
  by (rule recipe_text_roundtrip [OF exampleRecipe_wf exampleRecipe_plain])

end
