(* ===== verification/C_Strings.thy ===== *)
theory C_Strings
  imports Text_Parsing
begin

text \<open>
  The parts of the C and C++ string library that several components share: \<open>strtoull\<close> and
  \<open>strtol\<close> (white space, sign, radix prefix, digits), extraction of blank-separated words
  from a stream, and \<open>std::string::find_last_of\<close>.
\<close>

section \<open>Definitions\<close>

definition isSpace :: "char \<Rightarrow> bool" where
  "isSpace c \<longleftrightarrow> code c = 32 \<or> (9 \<le> code c \<and> code c \<le> 13)"

definition cstr :: "string \<Rightarrow> string" where
  "cstr s = takeWhile (\<lambda>c. c \<noteq> CHR 0x00) s"

definition digitIn :: "nat \<Rightarrow> char \<Rightarrow> nat option" where
  "digitIn radix c = (case nibble c of None \<Rightarrow> None | Some d \<Rightarrow> if d < radix then Some d else None)"

definition isDigitIn :: "nat \<Rightarrow> char \<Rightarrow> bool" where
  "isDigitIn radix c \<longleftrightarrow> digitIn radix c \<noteq> None"

fun splitSign :: "string \<Rightarrow> bool \<times> string" where
  "splitSign (c # s) = (if c = CHR ''-'' then (True, s) else if c = CHR ''+'' then (False, s) else (False, c # s))"
| "splitSign [] = (False, [])"

fun dropRadixPrefix :: "nat \<Rightarrow> string \<Rightarrow> string" where
  "dropRadixPrefix radix (z # x # d # s) =
     (if radix = 16 \<and> z = CHR ''0'' \<and> (x = CHR ''x'' \<or> x = CHR ''X'') \<and> isDigitIn 16 d then d # s else z # x # d # s)"
| "dropRadixPrefix radix s = s"

definition radixValue :: "nat \<Rightarrow> string \<Rightarrow> nat" where
  "radixValue radix ds = foldl (\<lambda>a c. a * radix + the (digitIn radix c)) 0 ds"

text \<open>The value that was read, unbounded, and the text behind it; \<open>None\<close> when there is no digit.\<close>

definition strto :: "nat \<Rightarrow> string \<Rightarrow> (int \<times> string) option" where
  "strto radix text =
     (let (negative, body) = splitSign (dropWhile isSpace text);
          digits = dropRadixPrefix radix body;
          ds = takeWhile (isDigitIn radix) digits;
          v = int (radixValue radix ds)
      in if ds = [] then None
         else Some (if negative then - v else v, dropWhile (isDigitIn radix) digits))"

definition nextToken :: "string \<Rightarrow> string \<times> string" where
  "nextToken s =
     (let t = dropWhile isSpace s in (takeWhile (\<lambda>c. \<not> isSpace c) t, dropWhile (\<lambda>c. \<not> isSpace c) t))"

fun readTokens :: "nat \<Rightarrow> string \<Rightarrow> (string list \<times> string) option" where
  "readTokens 0 s = Some ([], s)"
| "readTokens (Suc n) s =
     (let (t, r) = nextToken s in
      if t = [] then None else map_option (\<lambda>(ts, r'). (t # ts, r')) (readTokens n r))"

definition afterLast :: "char \<Rightarrow> string \<Rightarrow> string" where
  "afterLast c s = rev (takeWhile (\<lambda>x. x \<noteq> c) (rev s))"

fun toHexString :: "nat \<Rightarrow> string" where
  "toHexString n = (if n < 16 then [hexDigit n] else toHexString (n div 16) @ [hexDigit (n mod 16)])"

declare toHexString.simps [simp del]


section \<open>Lemmas\<close>

lemma digitIn_hexDigit: "n < radix \<Longrightarrow> radix \<le> 16 \<Longrightarrow> digitIn radix (hexDigit n) = Some n"
  by (simp add: digitIn_def nibble_hexDigit)

lemma radixValue_append: "radixValue radix (ds @ [c]) = radixValue radix ds * radix + the (digitIn radix c)"
  by (simp add: radixValue_def)

lemma toHexString_props:
  "toHexString n \<noteq> [] \<and> (\<forall>c \<in> set (toHexString n). isDigitIn 16 c) \<and> radixValue 16 (toHexString n) = n"
proof (induction n rule: toHexString.induct)
  case (1 n)
  show ?case
  proof (cases "n < 16")
    case True
    then show ?thesis
      by (subst (1 2 3) toHexString.simps) (simp add: isDigitIn_def digitIn_hexDigit radixValue_def)
  next
    case False
    with 1 show ?thesis
      by (subst (1 2 3) toHexString.simps) (auto simp: radixValue_append isDigitIn_def digitIn_hexDigit)
  qed
qed

lemma isDigitIn_range: "isDigitIn 16 c \<longleftrightarrow> (48 \<le> code c \<and> code c \<le> 57) \<or> (97 \<le> code c \<and> code c \<le> 102) \<or>
    (65 \<le> code c \<and> code c \<le> 70)"
  by (auto simp: isDigitIn_def digitIn_def nibble_def)

lemma digit_not_sign: "isDigitIn 16 c \<Longrightarrow> \<not> isSpace c \<and> c \<noteq> CHR ''-'' \<and> c \<noteq> CHR ''+'' \<and> c \<noteq> CHR ''x'' \<and> c \<noteq> CHR ''X'' \<and>
    c \<noteq> CHR 0x00 \<and> c \<noteq> newline"
  by (auto simp: isDigitIn_range isSpace_def newline_def)

lemma dropRadixPrefix_digits: "\<forall>c \<in> set s. isDigitIn 16 c \<Longrightarrow> dropRadixPrefix 16 s = s"
  by (induction "16 :: nat" s rule: dropRadixPrefix.induct) (auto dest: digit_not_sign)

lemma strto_digits:
  assumes "s \<noteq> []" "\<forall>c \<in> set s. isDigitIn 16 c"
  shows "strto 16 s = Some (int (radixValue 16 s), [])"
proof -
  obtain c r where s: "s = c # r"
    using assms(1) by (cases s) auto
  have "dropWhile isSpace s = s" "splitSign s = (False, s)"
    using assms(2) digit_not_sign [of c] by (simp_all add: s)
  moreover have "takeWhile (isDigitIn 16) s = s" "dropWhile (isDigitIn 16) s = []"
    using assms(2) by (simp_all add: dropWhile_eq_Nil_conv)
  ultimately show ?thesis
    using assms by (simp add: strto_def dropRadixPrefix_digits Let_def takeWhile_eq_all_conv [THEN iffD2])
qed

lemma strto_toHexString: "strto 16 (toHexString n) = Some (int n, [])"
  using toHexString_props [of n] by (simp add: strto_digits)

lemma cstr_id: "CHR 0x00 \<notin> set s \<Longrightarrow> cstr s = s"
  by (auto simp: cstr_def takeWhile_eq_all_conv)

lemma cstr_toHexString [simp]: "cstr (toHexString n) = toHexString n"
  using toHexString_props [of n] by (intro cstr_id) (auto dest: digit_not_sign)

lemma nextToken_word:
  assumes "t \<noteq> []" "\<forall>c \<in> set t. \<not> isSpace c" "r = [] \<or> isSpace (hd r)"
  shows "nextToken (t @ r) = (t, r)" "nextToken (CHR '' '' # t @ r) = (t, r)"
proof -
  have "dropWhile isSpace (t @ r) = t @ r"
    using assms(1,2) by (cases t) auto
  moreover have "takeWhile (\<lambda>c. \<not> isSpace c) (t @ r) = t" "dropWhile (\<lambda>c. \<not> isSpace c) (t @ r) = r"
    using assms(2,3) by (cases r; simp add: takeWhile_append2 dropWhile_append2)+
  ultimately show "nextToken (t @ r) = (t, r)" "nextToken (CHR '' '' # t @ r) = (t, r)"
    by (simp_all add: nextToken_def isSpace_def)
qed

end
