(* ===== verification/Binder_Classifier.thy ===== *)
theory Binder_Classifier
  imports Abi_Recipe C_Strings
begin

text \<open>
  The pure classifiers of the Binder side: the modes of the bootstrap and of the router
  (\<open>CameraServerBootstrapMode.cpp\<close>, \<open>CameraServiceRouterMode.cpp\<close>), the payload shape of a
  transaction (\<open>BinderTransactionClassifier.cpp\<close>), the caller's identity
  (\<open>CameraCallerIdentityClassifier.cpp\<close>) and the protocol profile of a build
  (\<open>platform/Android14CameraServiceProfile.cpp\<close>), all under \<open>src/runtime\<close>.
\<close>

section \<open>Modes\<close>

datatype CameraServerBootstrapMode = kStock | kPreflight | kPassThrough | kPhysicalRoute | kInvalid

text \<open>A null pointer is \<open>None\<close>.\<close>

definition parseCameraServerBootstrapMode :: "string option \<Rightarrow> CameraServerBootstrapMode" where
  "parseCameraServerBootstrapMode v =
     (case map_option cstr v of
        None \<Rightarrow> kStock
      | Some text \<Rightarrow>
          (if text = [] \<or> text = ''stock'' then kStock
           else if text = ''preflight'' then kPreflight
           else if text = ''passthrough'' then kPassThrough
           else if text = ''physical-route'' then kPhysicalRoute
           else kInvalid))"

fun cameraServerBootstrapModeName :: "CameraServerBootstrapMode \<Rightarrow> string" where
  "cameraServerBootstrapModeName kStock = ''stock''"
| "cameraServerBootstrapModeName kPreflight = ''preflight''"
| "cameraServerBootstrapModeName kPassThrough = ''passthrough''"
| "cameraServerBootstrapModeName kPhysicalRoute = ''physical-route''"
| "cameraServerBootstrapModeName kInvalid = ''invalid''"

datatype CameraServiceRouterMode = kPreflight | kPassThrough | kPhysicalRoute | kDisabled | kInvalid

definition parseCameraServiceRouterMode :: "string option \<Rightarrow> CameraServiceRouterMode" where
  "parseCameraServiceRouterMode v =
     (case map_option cstr v of
        None \<Rightarrow> kPreflight
      | Some text \<Rightarrow>
          (if text = [] \<or> text = ''preflight'' then kPreflight
           else if text = ''passthrough'' then kPassThrough
           else if text = ''physical-route'' then kPhysicalRoute
           else if text = ''disabled'' then kDisabled
           else kInvalid))"

fun cameraServiceRouterModeName :: "CameraServiceRouterMode \<Rightarrow> string" where
  "cameraServiceRouterModeName kPreflight = ''preflight''"
| "cameraServiceRouterModeName kPassThrough = ''passthrough''"
| "cameraServiceRouterModeName kPhysicalRoute = ''physical-route''"
| "cameraServiceRouterModeName kDisabled = ''disabled''"
| "cameraServiceRouterModeName kInvalid = ''invalid''"


section \<open>Transactions\<close>

datatype BinderPayloadShape = kPassThrough | kConnectApi1 | kConnectDevice | kStringCameraId | kIntegerCameraId
  | kListener | kListenerRemoval | kConcurrentIds | kConcurrentSessionConfiguration

record BinderTransactionClass =
  code :: uint32
  role :: string
  payloadShape :: BinderPayloadShape
  cameraScoped :: bool
  carriesPackageName :: bool

definition unclassified :: "uint32 \<Rightarrow> BinderTransactionClass" where
  "unclassified c = \<lparr>code = c, role = [], payloadShape = BinderPayloadShape.kPassThrough, cameraScoped = False,
     carriesPackageName = False\<rparr>"

definition classificationForRole :: "uint32 \<Rightarrow> string \<Rightarrow> BinderTransactionClass" where
  "classificationForRole c r =
     (let base = (unclassified c)\<lparr>role := r\<rparr> in
      if r = ''connect_api1'' then
        base\<lparr>payloadShape := kConnectApi1, cameraScoped := True, carriesPackageName := True\<rparr>
      else if r = ''connect_device'' then
        base\<lparr>payloadShape := kConnectDevice, cameraScoped := True, carriesPackageName := True\<rparr>
      else if r = ''get_camera_characteristics'' \<or> r = ''supports_camera_api'' \<or> r = ''set_torch_mode'' \<or>
              r = ''turn_on_torch_with_strength'' \<or> r = ''get_torch_strength'' then
        base\<lparr>payloadShape := kStringCameraId, cameraScoped := True\<rparr>
      else if r = ''get_legacy_parameters'' then
        base\<lparr>payloadShape := kIntegerCameraId, cameraScoped := True\<rparr>
      else if r = ''add_listener'' then base\<lparr>payloadShape := kListener\<rparr>
      else if r = ''remove_listener'' then base\<lparr>payloadShape := kListenerRemoval\<rparr>
      else if r = ''get_concurrent_camera_ids'' then base\<lparr>payloadShape := kConcurrentIds\<rparr>
      else if r = ''concurrent_session_support'' then
        base\<lparr>payloadShape := kConcurrentSessionConfiguration, cameraScoped := True\<rparr>
      else base)"

definition classifyBinderTransaction :: "AbiRecipe \<Rightarrow> uint32 \<Rightarrow> BinderTransactionClass" where
  "classifyBinderTransaction recipe c =
     (case find (\<lambda>candidate. BinderTransaction.code candidate = c) (transactions recipe) of
        None \<Rightarrow> unclassified c
      | Some txn \<Rightarrow> classificationForRole c (BinderTransaction.role txn))"

fun binderPayloadShapeName :: "BinderPayloadShape \<Rightarrow> string" where
  "binderPayloadShapeName kPassThrough = ''pass_through''"
| "binderPayloadShapeName kConnectApi1 = ''connect_api1''"
| "binderPayloadShapeName kConnectDevice = ''connect_device''"
| "binderPayloadShapeName kStringCameraId = ''string_camera_id''"
| "binderPayloadShapeName kIntegerCameraId = ''integer_camera_id''"
| "binderPayloadShapeName kListener = ''listener''"
| "binderPayloadShapeName kListenerRemoval = ''listener_removal''"
| "binderPayloadShapeName kConcurrentIds = ''concurrent_ids''"
| "binderPayloadShapeName kConcurrentSessionConfiguration = ''concurrent_session_configuration''"


section \<open>Callers\<close>

datatype CameraCallerIdentityKind = kNotApplicable | kClaimedPackage | kUidOnly | kUnavailable

record CameraCallerIdentityClassification =
  kind :: CameraCallerIdentityKind
  requiresPackageVerification :: bool

definition classifyCameraCallerIdentity ::
  "bool \<Rightarrow> bool \<Rightarrow> int \<Rightarrow> int \<Rightarrow> string \<Rightarrow> CameraCallerIdentityClassification" where
  "classifyCameraCallerIdentity scoped carriesPackage callingUid callingPid packageName =
     (if \<not> scoped then \<lparr>kind = kNotApplicable, requiresPackageVerification = False\<rparr>
      else if callingUid < 0 \<or> callingPid < 0 then \<lparr>kind = kUnavailable, requiresPackageVerification = False\<rparr>
      else if carriesPackage \<and> packageName \<noteq> [] then \<lparr>kind = kClaimedPackage, requiresPackageVerification = True\<rparr>
      else \<lparr>kind = kUidOnly, requiresPackageVerification = False\<rparr>)"

fun cameraCallerIdentityKindName :: "CameraCallerIdentityKind \<Rightarrow> string" where
  "cameraCallerIdentityKindName kNotApplicable = ''not_applicable''"
| "cameraCallerIdentityKindName kClaimedPackage = ''claimed_package''"
| "cameraCallerIdentityKindName kUidOnly = ''uid_only''"
| "cameraCallerIdentityKindName kUnavailable = ''unavailable''"


section \<open>Protocol profiles\<close>

definition kNx769jAndroid14Fingerprint :: string where
  "kNx769jAndroid14Fingerprint = ''nubia/NX769J/NX769J:14/UKQ1.230917.001/20240417.145608:user/release-keys''"
definition kNx769jAndroid14ProfileName :: string where
  "kNx769jAndroid14ProfileName = ''nx769j-ukq1-20240417''"
definition kAosp14AvdFingerprint :: string where
  "kAosp14AvdFingerprint =
     ''Android/sdk_phone64_x86_64/emu64x:14/UE1A.230829.036.A1/11228894:userdebug/test-keys''"
definition kAosp14AvdProfileName :: string where
  "kAosp14AvdProfileName = ''aosp14-api34-avd-11228894''"
definition kAndroid14InitialCandidateProfileName :: string where
  "kAndroid14InitialCandidateProfileName = ''android14-aosp-initial-candidate''"

datatype Android14CameraServiceProtocolConfidence = kUnsupported | kProbeCandidate | kQualified

record Android14CameraServiceProtocolSelection =
  recipe :: AbiRecipe
  profileName :: string
  confidence :: Android14CameraServiceProtocolConfidence
  observationAllowed :: bool
  routingAllowed :: bool

definition makeAndroid14InitialCameraServiceRecipe :: AbiRecipe where
  "makeAndroid14InitialCameraServiceRecipe = emptyRecipe\<lparr>schema := 2, architecture := ''arm64'',
     transactions := map (\<lambda>(r, c). \<lparr>BinderTransaction.role = r, code = c\<rparr>)
       [(''connect_api1'', 3), (''connect_device'', 4), (''add_listener'', 5), (''get_concurrent_camera_ids'', 6),
        (''concurrent_session_support'', 7), (''remove_listener'', 8), (''get_camera_characteristics'', 9),
        (''get_legacy_parameters'', 12), (''supports_camera_api'', 13), (''set_torch_mode'', 16),
        (''turn_on_torch_with_strength'', 17), (''get_torch_strength'', 18)]\<rparr>"

definition makeNx769jAndroid14CameraServiceRecipe :: AbiRecipe where
  "makeNx769jAndroid14CameraServiceRecipe = makeAndroid14InitialCameraServiceRecipe"

definition matchesNx769jAndroid14CameraServiceProfile :: "string \<Rightarrow> bool" where
  "matchesNx769jAndroid14CameraServiceProfile fingerprint \<longleftrightarrow> fingerprint = kNx769jAndroid14Fingerprint"

definition selectAndroid14CameraServiceProtocol :: "int \<Rightarrow> string \<Rightarrow> Android14CameraServiceProtocolSelection" where
  "selectAndroid14CameraServiceProtocol sdk fingerprint =
     (let selection = \<lparr>recipe = emptyRecipe, profileName = ''none'', confidence = kUnsupported,
            observationAllowed = False, routingAllowed = False\<rparr> in
      if sdk \<noteq> 34 then selection
      else let selection = selection\<lparr>recipe := makeAndroid14InitialCameraServiceRecipe, observationAllowed := True\<rparr> in
        if matchesNx769jAndroid14CameraServiceProfile fingerprint then
          selection\<lparr>profileName := kNx769jAndroid14ProfileName, confidence := kQualified, routingAllowed := True\<rparr>
        else if fingerprint = kAosp14AvdFingerprint then
          selection\<lparr>profileName := kAosp14AvdProfileName, confidence := kQualified, routingAllowed := True\<rparr>
        else selection\<lparr>profileName := kAndroid14InitialCandidateProfileName, confidence := kProbeCandidate\<rparr>)"

fun android14CameraServiceProtocolConfidenceName :: "Android14CameraServiceProtocolConfidence \<Rightarrow> string" where
  "android14CameraServiceProtocolConfidenceName kUnsupported = ''unsupported''"
| "android14CameraServiceProtocolConfidenceName kProbeCandidate = ''probe_candidate''"
| "android14CameraServiceProtocolConfidenceName kQualified = ''qualified''"


section \<open>Lemmas\<close>

interpretation bootstrap_codec: text_codec cameraServerBootstrapModeName
  "\<lambda>s. Some (parseCameraServerBootstrapMode (Some s))" "\<lambda>_. True"
proof
  fix mode
  show "Some (parseCameraServerBootstrapMode (Some (cameraServerBootstrapModeName mode))) = Some mode"
    by (cases mode) (simp_all add: parseCameraServerBootstrapMode_def cstr_def)
qed

interpretation router_codec: text_codec cameraServiceRouterModeName
  "\<lambda>s. Some (parseCameraServiceRouterMode (Some s))" "\<lambda>_. True"
proof
  fix mode
  show "Some (parseCameraServiceRouterMode (Some (cameraServiceRouterModeName mode))) = Some mode"
    by (cases mode) (simp_all add: parseCameraServiceRouterMode_def cstr_def)
qed

lemma classification_code: "code (classificationForRole c r) = c"
  by (simp add: classificationForRole_def unclassified_def Let_def)

lemma package_only_in_connect:
  "carriesPackageName (classificationForRole c r) \<longleftrightarrow>
     payloadShape (classificationForRole c r) = kConnectApi1 \<or> payloadShape (classificationForRole c r) = kConnectDevice"
  by (simp add: classificationForRole_def unclassified_def Let_def)

lemma scoped_shapes:
  "cameraScoped (classificationForRole c r) \<longleftrightarrow>
     payloadShape (classificationForRole c r) \<in>
       {kConnectApi1, kConnectDevice, kStringCameraId, kIntegerCameraId, kConcurrentSessionConfiguration}"
  by (simp add: classificationForRole_def unclassified_def Let_def)


section \<open>Qualified builds\<close>

text \<open>
  Routing is authorised only for the two reviewed builds of Android 14, with the
  qualified confidence; every other build gets at most observation, and other releases get
  nothing, not even a transaction table.
\<close>
lemma routing_only_on_qualified_builds:
  "(routingAllowed (selectAndroid14CameraServiceProtocol sdk fingerprint) \<longleftrightarrow>
      sdk = 34 \<and> fingerprint \<in> {kNx769jAndroid14Fingerprint, kAosp14AvdFingerprint}) \<and>
   (confidence (selectAndroid14CameraServiceProtocol sdk fingerprint) = kQualified \<longleftrightarrow>
      routingAllowed (selectAndroid14CameraServiceProtocol sdk fingerprint)) \<and>
   (observationAllowed (selectAndroid14CameraServiceProtocol sdk fingerprint) \<longleftrightarrow> sdk = 34) \<and>
   (transactions (recipe (selectAndroid14CameraServiceProtocol sdk fingerprint)) = [] \<longleftrightarrow> sdk \<noteq> 34)"
  by (auto simp: selectAndroid14CameraServiceProtocol_def matchesNx769jAndroid14CameraServiceProfile_def Let_def
      emptyRecipe_def makeAndroid14InitialCameraServiceRecipe_def)

end
