(* ===== verification/Parcel_Observer.thy ===== *)
theory Parcel_Observer
  imports Binder_Parcel Binder_Classifier
begin

text \<open>
  The observer of camera-service transactions, \<open>src/runtime/platform/Android14ParcelObserver.cpp\<close>:
  it decodes the camera id and the claimed package of a request parcel and puts the parcel's
  cursor back.  The lemmas show that it implements a decoder of the parcel's layout.
\<close>

section \<open>Definitions\<close>

definition kCameraServiceDescriptor :: uint16s where
  "kCameraServiceDescriptor = utf16 ''android.hardware.ICameraService''"

definition kMaxObservedStringLength :: nat where
  "kMaxObservedStringLength = 255"

text \<open>\<open>'SYST'\<close>.\<close>

definition expectedHeader :: int where
  "expectedHeader = 0x53595354"

datatype ParcelObservationStatus = kObserved | kNotRoutedTransaction | kNullParcel | kMalformedHeader
  | kWrongInterface | kMalformedPayload | kUnsupportedPayload

record ParcelObservation =
  status :: ParcelObservationStatus
  transaction :: BinderTransactionClass
  callingUid :: int
  callingPid :: int
  cameraId :: string
  packageName :: string
  initialDataPosition :: nat
  finalDataPosition :: nat
  cameraIdStart :: nat
  cameraIdEnd :: nat

definition emptyObservation :: ParcelObservation where
  "emptyObservation = \<lparr>status = kNotRoutedTransaction, transaction = unclassified 0, callingUid = - 1,
     callingPid = - 1, cameraId = [], packageName = [], initialDataPosition = 0, finalDataPosition = 0,
     cameraIdStart = 0, cameraIdEnd = 0\<rparr>"

text \<open>The output argument keeps the characters that were appended before a character is refused.\<close>

definition readAsciiString16 :: "('p, 'b, 's) ParcelApi \<Rightarrow> string \<Rightarrow> 'p \<Rightarrow> bool \<times> string \<times> 'p" where
  "readAsciiString16 api out p =
     (case readString16Inplace api p of
        (None, p') \<Rightarrow> (False, out, p')
      | (Some v, p') \<Rightarrow>
          (if length v > kMaxObservedStringLength then (False, out, p')
           else let accepted = takeWhile (\<lambda>c. c \<le> 0x7f) v
             in (length accepted = length v, map asciiChar accepted, p')))"

datatype HeaderStatus = kOk | kMalformed | kWrongInterface

definition readAndCheckHeader :: "('p, 'b, 's) ParcelApi \<Rightarrow> 'p \<Rightarrow> HeaderStatus \<times> 'p" where
  "readAndCheckHeader api p =
     (case rd_bind (readInt32 api) (\<lambda>_. rd_bind (readInt32 api) (\<lambda>_. readInt32 api)) p of
        (None, p1) \<Rightarrow> (kMalformed, p1)
      | (Some header, p1) \<Rightarrow>
          (if header \<noteq> expectedHeader then (HeaderStatus.kWrongInterface, p1)
           else case readString16Inplace api p1 of
             (None, p2) \<Rightarrow> (HeaderStatus.kWrongInterface, p2)
           | (Some descriptor, p2) \<Rightarrow>
               (if length descriptor \<noteq> length kCameraServiceDescriptor then HeaderStatus.kWrongInterface
                else if descriptor \<noteq> kCameraServiceDescriptor then HeaderStatus.kWrongInterface
                else kOk, p2)))"

definition skipStrongBinder :: "('p, 'b, 's) ParcelApi \<Rightarrow> 'p \<Rightarrow> bool \<times> 'p" where
  "skipStrongBinder api p = (case readStrongBinder api p of (r, p') \<Rightarrow> (r \<noteq> None, p'))"

definition readIntegerCameraId :: "('p, 'b, 's) ParcelApi \<Rightarrow> string \<Rightarrow> 'p \<Rightarrow> bool \<times> string \<times> 'p" where
  "readIntegerCameraId api out p =
     (case readInt32 api p of
        (None, p') \<Rightarrow> (False, out, p')
      | (Some v, p') \<Rightarrow> (if v < 0 then (False, out, p') else (True, toString (nat v), p')))"

text \<open>The switch over the payload shape; the answer is \<open>decoded\<close>.\<close>

definition observePayload ::
  "('p, 'b, 's) ParcelApi \<Rightarrow> ParcelObservation \<Rightarrow> 'p \<Rightarrow> bool \<times> ParcelObservation \<times> 'p" where
  "observePayload api r p =
     (case payloadShape (transaction r) of
        kConnectApi1 \<Rightarrow>
          (case skipStrongBinder api p of (d1, p1) \<Rightarrow>
           let r1 = r\<lparr>cameraIdStart := dataPosition api p1\<rparr> in
           case (if d1 then readIntegerCameraId api (cameraId r1) p1 else (False, cameraId r1, p1)) of (d2, out, p2) \<Rightarrow>
           let r2 = r1\<lparr>cameraId := out, cameraIdEnd := dataPosition api p2\<rparr> in
           case (if d2 then readAsciiString16 api (packageName r2) p2 else (False, packageName r2, p2)) of (d3, pkg, p3) \<Rightarrow>
           (d3, r2\<lparr>packageName := pkg\<rparr>, p3))
      | kConnectDevice \<Rightarrow>
          (case skipStrongBinder api p of (d1, p1) \<Rightarrow>
           let r1 = r\<lparr>cameraIdStart := dataPosition api p1\<rparr> in
           case (if d1 then readAsciiString16 api (cameraId r1) p1 else (False, cameraId r1, p1)) of (d2, out, p2) \<Rightarrow>
           let r2 = r1\<lparr>cameraId := out, cameraIdEnd := dataPosition api p2\<rparr> in
           case (if d2 then readAsciiString16 api (packageName r2) p2 else (False, packageName r2, p2)) of (d3, pkg, p3) \<Rightarrow>
           (d3, r2\<lparr>packageName := pkg\<rparr>, p3))
      | kStringCameraId \<Rightarrow>
          (let r1 = r\<lparr>cameraIdStart := dataPosition api p\<rparr> in
           case readAsciiString16 api (cameraId r1) p of (d2, out, p2) \<Rightarrow>
           (d2, r1\<lparr>cameraId := out, cameraIdEnd := dataPosition api p2\<rparr>, p2))
      | kIntegerCameraId \<Rightarrow>
          (let r1 = r\<lparr>cameraIdStart := dataPosition api p\<rparr> in
           case readIntegerCameraId api (cameraId r1) p of (d2, out, p2) \<Rightarrow>
           (d2, r1\<lparr>cameraId := out, cameraIdEnd := dataPosition api p2\<rparr>, p2))
      | kListener \<Rightarrow> (True, r, p)
      | kListenerRemoval \<Rightarrow> (True, r, p)
      | kConcurrentIds \<Rightarrow> (True, r, p)
      | kConcurrentSessionConfiguration \<Rightarrow> (False, r, p)
      | BinderPayloadShape.kPassThrough \<Rightarrow> (False, r, p))"

text \<open>
  \<open>uid\<close> and \<open>pid\<close> are what \<open>IPCThreadState\<close> reports for the calling thread.  The second result
  is the parcel, whose cursor the position guard restores on every path.
\<close>

definition observeAndroid14CameraServiceParcel ::
  "('p, 'b, 's) ParcelApi \<Rightarrow> int \<Rightarrow> int \<Rightarrow> AbiRecipe \<Rightarrow> uint32 \<Rightarrow> 'p option \<Rightarrow> ParcelObservation \<times> 'p option" where
  "observeAndroid14CameraServiceParcel api uid pid abi txnCode dataParcel =
     (let r = emptyObservation\<lparr>transaction := classifyBinderTransaction abi txnCode\<rparr> in
      if payloadShape (transaction r) = BinderPayloadShape.kPassThrough then
        (r\<lparr>status := kNotRoutedTransaction\<rparr>, dataParcel)
      else case dataParcel of
        None \<Rightarrow> (r\<lparr>status := kNullParcel\<rparr>, None)
      | Some parcel \<Rightarrow>
          (let position = dataPosition api parcel;
               r = r\<lparr>initialDataPosition := position\<rparr> in
           case readAndCheckHeader api (setDataPosition api 0 parcel) of (headerStatus, p1) \<Rightarrow>
             if headerStatus \<noteq> kOk then
               (r\<lparr>status := if headerStatus = kMalformed then kMalformedHeader else ParcelObservationStatus.kWrongInterface,
                  finalDataPosition := position\<rparr>, Some (setDataPosition api position p1))
             else
               (let r = r\<lparr>callingUid := uid, callingPid := pid\<rparr> in
                if payloadShape (transaction r) = kConcurrentSessionConfiguration then
                  (r\<lparr>status := kUnsupportedPayload, finalDataPosition := position\<rparr>,
                   Some (setDataPosition api position p1))
                else case observePayload api r p1 of (decoded, r, p2) \<Rightarrow>
                  (r\<lparr>status := if decoded then kObserved else kMalformedPayload, finalDataPosition := position\<rparr>,
                   Some (setDataPosition api position p2)))))"

fun parcelObservationStatusName :: "ParcelObservationStatus \<Rightarrow> string" where
  "parcelObservationStatusName kObserved = ''observed''"
| "parcelObservationStatusName kNotRoutedTransaction = ''not_routed_transaction''"
| "parcelObservationStatusName kNullParcel = ''null_parcel''"
| "parcelObservationStatusName kMalformedHeader = ''malformed_header''"
| "parcelObservationStatusName ParcelObservationStatus.kWrongInterface = ''wrong_interface''"
| "parcelObservationStatusName kMalformedPayload = ''malformed_payload''"
| "parcelObservationStatusName kUnsupportedPayload = ''unsupported_payload''"

section \<open>The layout of a request\<close>

text \<open>Decoders over the cells of the parcel, which say where the camera id and the package stand.\<close>

definition dec_inplace :: "('c, 'b, 's) ParcelFormat \<Rightarrow> 'c list \<Rightarrow> (uint16s \<times> nat) option" where
  "dec_inplace fmt xs =
     (case dec_string16 fmt xs of Some (Some s, n) \<Rightarrow> Some (s, n) | _ \<Rightarrow> None)"

definition is_ascii16 :: "nat \<Rightarrow> uint16s \<Rightarrow> bool" where
  "is_ascii16 limit v \<longleftrightarrow> length v \<le> limit \<and> list_all (\<lambda>c. c \<le> 0x7f) v"

definition dec_ascii :: "('c, 'b, 's) ParcelFormat \<Rightarrow> 'c list \<Rightarrow> (string \<times> nat) option" where
  "dec_ascii fmt = dec_bind (dec_inplace fmt)
     (\<lambda>v. dec_bind (dec_check (is_ascii16 255 v)) (\<lambda>_. dec_return (map asciiChar v)))"

definition dec_camera_int :: "('c, 'b, 's) ParcelFormat \<Rightarrow> 'c list \<Rightarrow> (string \<times> nat) option" where
  "dec_camera_int fmt = dec_bind (dec_int32 fmt)
     (\<lambda>v. dec_bind (dec_check (0 \<le> v)) (\<lambda>_. dec_return (toString (nat v))))"

definition dec_header :: "('c, 'b, 's) ParcelFormat \<Rightarrow> uint16s \<Rightarrow> 'c list \<Rightarrow> (unit \<times> nat) option" where
  "dec_header fmt descriptor = dec_bind (dec_int32 fmt) (\<lambda>_. dec_bind (dec_int32 fmt) (\<lambda>_. dec_bind (dec_int32 fmt)
     (\<lambda>h. dec_bind (dec_check (h = expectedHeader)) (\<lambda>_. dec_bind (dec_inplace fmt) (\<lambda>d. dec_check (d = descriptor))))))"

definition has_package :: "BinderPayloadShape \<Rightarrow> bool" where
  "has_package shape \<longleftrightarrow> shape = kConnectApi1 \<or> shape = kConnectDevice"

definition string_id :: "BinderPayloadShape \<Rightarrow> bool" where
  "string_id shape \<longleftrightarrow> shape = kConnectDevice \<or> shape = kStringCameraId"

definition integer_id :: "BinderPayloadShape \<Rightarrow> bool" where
  "integer_id shape \<longleftrightarrow> shape = kConnectApi1 \<or> shape = kIntegerCameraId"

definition layout_prefix :: "('c, 'b, 's) ParcelFormat \<Rightarrow> BinderPayloadShape \<Rightarrow> 'c list \<Rightarrow> (unit \<times> nat) option" where
  "layout_prefix fmt shape = dec_bind (dec_header fmt kCameraServiceDescriptor)
     (\<lambda>_. if has_package shape then dec_bind (dec_binder fmt) (\<lambda>_. dec_return ()) else dec_return ())"

definition layout_id :: "('c, 'b, 's) ParcelFormat \<Rightarrow> BinderPayloadShape \<Rightarrow> 'c list \<Rightarrow> (string \<times> nat) option" where
  "layout_id fmt shape = (if string_id shape then dec_ascii fmt else dec_camera_int fmt)"

definition layout_package :: "('c, 'b, 's) ParcelFormat \<Rightarrow> BinderPayloadShape \<Rightarrow> 'c list \<Rightarrow> (string \<times> nat) option" where
  "layout_package fmt shape = (if has_package shape then dec_ascii fmt else dec_return [])"

text \<open>Camera id, start and end of its encoding, package.\<close>

definition request_layout ::
  "('c, 'b, 's) ParcelFormat \<Rightarrow> BinderPayloadShape \<Rightarrow> 'c list \<Rightarrow> (string \<times> nat \<times> nat \<times> string) option" where
  "request_layout fmt shape xs =
     (case layout_prefix fmt shape xs of
        None \<Rightarrow> None
      | Some (_, n1) \<Rightarrow>
          (case layout_id fmt shape (drop n1 xs) of
             None \<Rightarrow> None
           | Some (i, n2) \<Rightarrow>
               (case layout_package fmt shape (drop (n1 + n2) xs) of
                  None \<Rightarrow> None
                | Some (pkg, _) \<Rightarrow> Some (i, n1, n1 + n2, pkg))))"

section \<open>Readers implement decoders\<close>

lemma reads_inplace [reads_intros]:
  assumes "read_contract api fmt view"
  shows "reads api view (readString16Inplace api) (dec_inplace fmt)"
proof -
  have r: "reads api view (readString16 api) (dec_string16 fmt)"
    using assms by (simp add: read_contract_def)
  show ?thesis
    unfolding reads_def
  proof
    fix p
    obtain v p' where v: "readString16 api p = (v, p')" by (cases "readString16 api p")
    show "case readString16Inplace api p of (r, p') \<Rightarrow> view p' = view p \<and>
        (case dec_inplace fmt (drop (dataPosition api p) (view p)) of None \<Rightarrow> r = None
         | Some (a, n) \<Rightarrow> r = Some a \<and> dataPosition api p' = dataPosition api p + n)"
      using readsD [OF r v] v
      by (cases "dec_string16 fmt (drop (dataPosition api p) (view p))")
        (auto simp: readString16Inplace_def dec_inplace_def split: option.split option.split_asm)
  qed
qed

lemma inplace_delimiting [delimiting_intros]:
  assumes "read_contract api fmt view"
  shows "self_delimiting (dec_inplace fmt)"
proof -
  have s: "self_delimiting (dec_string16 fmt)"
    using assms by (simp add: read_contract_def)
  show ?thesis
    unfolding self_delimiting_def
  proof (intro allI impI)
    fix xs v n
    assume "dec_inplace fmt xs = Some (v, n)"
    then have "dec_string16 fmt xs = Some (Some v, n)"
      by (auto simp: dec_inplace_def split: option.split_asm)
    then show "n \<le> length xs \<and> (\<forall>ys. dec_inplace fmt (take n xs @ ys) = Some (v, n))"
      using self_delimitingD [OF s] by (simp add: dec_inplace_def)
  qed
qed

text \<open>The readers of the code, with success and value in one option.\<close>

definition as_reader :: "(string \<Rightarrow> 'p \<Rightarrow> bool \<times> string \<times> 'p) \<Rightarrow> 'p \<Rightarrow> string option \<times> 'p" where
  "as_reader f p = (case f [] p of (ok, v, p') \<Rightarrow> ((if ok then Some v else None), p'))"

lemma length_takeWhile_iff: "length (takeWhile P v) = length v \<longleftrightarrow> list_all P v"
  by (metis list_all_iff takeWhile_eq_all_conv takeWhile_eq_take take_all_iff order_refl)

lemma ascii_as_reader:
  "as_reader (readAsciiString16 api) = rd_bind (readString16Inplace api)
     (\<lambda>v. rd_bind (rd_check (is_ascii16 255 v)) (\<lambda>_. rd_return (map asciiChar v)))"
proof
  fix p
  obtain r p' where "readString16Inplace api p = (r, p')" by (cases "readString16Inplace api p")
  then show "as_reader (readAsciiString16 api) p = rd_bind (readString16Inplace api)
     (\<lambda>v. rd_bind (rd_check (is_ascii16 255 v)) (\<lambda>_. rd_return (map asciiChar v))) p"
    by (cases r) (auto simp: as_reader_def readAsciiString16_def rd_bind_def rd_check_def rd_return_def
        is_ascii16_def kMaxObservedStringLength_def Let_def length_takeWhile_iff list_all_iff takeWhile_eq_all_conv [THEN iffD2])
qed

lemma integer_as_reader:
  "as_reader (readIntegerCameraId api) = rd_bind (readInt32 api)
     (\<lambda>v. rd_bind (rd_check (0 \<le> v)) (\<lambda>_. rd_return (toString (nat v))))"
proof
  fix p
  obtain r p' where "readInt32 api p = (r, p')" by (cases "readInt32 api p")
  then show "as_reader (readIntegerCameraId api) p = rd_bind (readInt32 api)
     (\<lambda>v. rd_bind (rd_check (0 \<le> v)) (\<lambda>_. rd_return (toString (nat v)))) p"
    by (cases r) (auto simp: as_reader_def readIntegerCameraId_def rd_bind_def rd_check_def rd_return_def)
qed

definition rd_header :: "('p, 'b, 's) ParcelApi \<Rightarrow> 'p \<Rightarrow> unit option \<times> 'p" where
  "rd_header api p = (case readAndCheckHeader api p of (h, p') \<Rightarrow> ((if h = kOk then Some () else None), p'))"

lemma header_as_reader:
  "rd_header api = rd_bind (readInt32 api) (\<lambda>_. rd_bind (readInt32 api) (\<lambda>_. rd_bind (readInt32 api)
     (\<lambda>h. rd_bind (rd_check (h = expectedHeader)) (\<lambda>_. rd_bind (readString16Inplace api)
       (\<lambda>d. rd_check (d = kCameraServiceDescriptor))))))"
proof -
  let ?tail = "\<lambda>h. rd_bind (rd_check (h = expectedHeader)) (\<lambda>_. rd_bind (readString16Inplace api)
       (\<lambda>d. rd_check (d = kCameraServiceDescriptor)))"
  let ?three = "rd_bind (readInt32 api) (\<lambda>_. rd_bind (readInt32 api) (\<lambda>_. readInt32 api))"
  have "rd_header api p = rd_bind ?three ?tail p" for p
  proof -
    obtain r p1 where three: "?three p = (r, p1)" by (cases "?three p")
    obtain d p2 where d: "readString16Inplace api p1 = (d, p2)" by (cases "readString16Inplace api p1")
    have bind: "rd_bind ?three g p = (case r of None \<Rightarrow> (None, p1) | Some a \<Rightarrow> g a p1)" for g :: "int \<Rightarrow> 'a \<Rightarrow> unit option \<times> 'a"
      using three by (simp add: rd_bind_def [of ?three] split: option.split)
    show ?thesis
      unfolding bind rd_header_def readAndCheckHeader_def three
      using d by (cases r; cases d) (auto simp: rd_bind_def rd_check_def)
  qed
  then show ?thesis
    by (simp add: rd_bind_assoc fun_eq_iff)
qed

lemma reads_header: "read_contract api fmt view \<Longrightarrow>
    reads api view (rd_header api) (dec_header fmt kCameraServiceDescriptor)"
  unfolding header_as_reader dec_header_def by (intro reads_intros) (simp_all add: read_contract_def)

lemma reads_ascii: "read_contract api fmt view \<Longrightarrow> reads api view (as_reader (readAsciiString16 api)) (dec_ascii fmt)"
  unfolding ascii_as_reader dec_ascii_def by (intro reads_intros)

lemma reads_camera_int:
  "read_contract api fmt view \<Longrightarrow> reads api view (as_reader (readIntegerCameraId api)) (dec_camera_int fmt)"
  unfolding integer_as_reader dec_camera_int_def by (intro reads_intros) (simp add: read_contract_def)

definition rd_skip :: "('p, 'b, 's) ParcelApi \<Rightarrow> BinderPayloadShape \<Rightarrow> 'p \<Rightarrow> unit option \<times> 'p" where
  "rd_skip api shape = (if has_package shape then rd_bind (readStrongBinder api) (\<lambda>_. rd_return ()) else rd_return ())"

lemma reads_skip: "read_contract api fmt view \<Longrightarrow> reads api view (rd_skip api shape)
    (if has_package shape then dec_bind (dec_binder fmt) (\<lambda>_. dec_return ()) else dec_return ())"
  by (auto simp: rd_skip_def read_contract_def intro!: reads_intros)

definition id_reader :: "('p, 'b, 's) ParcelApi \<Rightarrow> BinderPayloadShape \<Rightarrow> string \<Rightarrow> 'p \<Rightarrow> bool \<times> string \<times> 'p" where
  "id_reader api shape = (if string_id shape then readAsciiString16 api else readIntegerCameraId api)"

definition package_reader :: "('p, 'b, 's) ParcelApi \<Rightarrow> BinderPayloadShape \<Rightarrow> string \<Rightarrow> 'p \<Rightarrow> bool \<times> string \<times> 'p" where
  "package_reader api shape = (if has_package shape then readAsciiString16 api else (\<lambda>out p. (True, out, p)))"

lemma reads_id: "read_contract api fmt view \<Longrightarrow> reads api view (as_reader (id_reader api shape)) (layout_id fmt shape)"
  by (simp add: id_reader_def layout_id_def reads_ascii reads_camera_int)

lemma as_reader_keep: "as_reader (\<lambda>out p. (True, out, p)) = rd_return []"
  by (rule ext) (simp add: as_reader_def rd_return_def)

lemma reads_package:
  "read_contract api fmt view \<Longrightarrow> reads api view (as_reader (package_reader api shape)) (layout_package fmt shape)"
  by (simp add: package_reader_def layout_package_def reads_ascii reads_return as_reader_keep)

text \<open>The four shapes with a camera id, as one sequence.\<close>

lemma shape_readers:
  "has_package kConnectApi1" "has_package kConnectDevice"
  "\<not> has_package kStringCameraId" "\<not> has_package kIntegerCameraId"
  "id_reader api kConnectApi1 = readIntegerCameraId api" "id_reader api kConnectDevice = readAsciiString16 api"
  "id_reader api kStringCameraId = readAsciiString16 api" "id_reader api kIntegerCameraId = readIntegerCameraId api"
  "package_reader api kConnectApi1 = readAsciiString16 api" "package_reader api kConnectDevice = readAsciiString16 api"
  "package_reader api kStringCameraId out p = (True, out, p)"
  "package_reader api kIntegerCameraId out p = (True, out, p)"
  by (simp_all add: has_package_def id_reader_def package_reader_def string_id_def)

lemma observePayload_uniform:
  assumes "string_id (payloadShape (transaction r)) \<or> integer_id (payloadShape (transaction r))"
  shows "observePayload api r p =
    (case rd_skip api (payloadShape (transaction r)) p of (d1, p1) \<Rightarrow>
     let r1 = r\<lparr>cameraIdStart := dataPosition api p1\<rparr> in
     case (if d1 \<noteq> None then id_reader api (payloadShape (transaction r)) (cameraId r1) p1 else (False, cameraId r1, p1)) of
       (d2, out, p2) \<Rightarrow>
     let r2 = r1\<lparr>cameraId := out, cameraIdEnd := dataPosition api p2\<rparr> in
     case (if d2 then package_reader api (payloadShape (transaction r)) (packageName r2) p2 else (False, packageName r2, p2)) of
       (d3, pkg, p3) \<Rightarrow> (d3, r2\<lparr>packageName := pkg\<rparr>, p3))"
proof -
  obtain d p1 where d: "skipStrongBinder api p = (d, p1)" by (cases "skipStrongBinder api p")
  have skip: "rd_skip api shape p = (if has_package shape then ((if d then Some () else None), p1) else (Some (), p))"
    for shape
    using d by (auto simp: rd_skip_def skipStrongBinder_def rd_bind_def rd_return_def split: prod.splits option.splits)
  note rules = observePayload_def skip shape_readers d BinderPayloadShape.case prod.case if_True if_False
    option.distinct not_False_eq_True not_True_eq_False simp_thms Let_def
  consider (a) "payloadShape (transaction r) = kConnectApi1" | (b) "payloadShape (transaction r) = kConnectDevice"
    | (c) "payloadShape (transaction r) = kStringCameraId" | (e) "payloadShape (transaction r) = kIntegerCameraId"
    using assms by (auto simp: string_id_def integer_id_def)
  then show ?thesis
  proof cases
    case a
    then show ?thesis by (cases d) (simp_all only: rules)
  next
    case b
    then show ?thesis by (cases d) (simp_all only: rules)
  next
    case c
    then show ?thesis by (simp only: rules) (simp split: prod.split)
  next
    case e
    then show ?thesis by (simp only: rules) (simp split: prod.split)
  qed
qed

section \<open>The observer implements the layout\<close>

definition skip_layout :: "('c, 'b, 's) ParcelFormat \<Rightarrow> BinderPayloadShape \<Rightarrow> 'c list \<Rightarrow> (unit \<times> nat) option" where
  "skip_layout fmt shape = (if has_package shape then dec_bind (dec_binder fmt) (\<lambda>_. dec_return ()) else dec_return ())"

definition payload_layout ::
  "('c, 'b, 's) ParcelFormat \<Rightarrow> BinderPayloadShape \<Rightarrow> nat \<Rightarrow> 'c list \<Rightarrow> (string \<times> nat \<times> nat \<times> string) option" where
  "payload_layout fmt shape base xs =
     (case skip_layout fmt shape xs of
        None \<Rightarrow> None
      | Some (_, n1) \<Rightarrow>
          (case layout_id fmt shape (drop n1 xs) of
             None \<Rightarrow> None
           | Some (i, n2) \<Rightarrow>
               (case layout_package fmt shape (drop (n1 + n2) xs) of
                  None \<Rightarrow> None
                | Some (pkg, _) \<Rightarrow> Some (i, base + n1, base + n1 + n2, pkg))))"

definition observed_fields :: "bool \<Rightarrow> ParcelObservation \<Rightarrow> (string \<times> nat \<times> nat \<times> string) option" where
  "observed_fields ok r = (if ok then Some (cameraId r, cameraIdStart r, cameraIdEnd r, packageName r) else None)"

lemma as_readerD:
  assumes "reads api view (as_reader f) dec" "f [] p = (ok, out, p')"
  shows "view p' = view p"
    and "dec (drop (dataPosition api p) (view p)) = None \<Longrightarrow> \<not> ok"
    and "dec (drop (dataPosition api p) (view p)) = Some (a, n) \<Longrightarrow>
      ok \<and> out = a \<and> dataPosition api p' = dataPosition api p + n"
proof -
  have "as_reader f p = ((if ok then Some out else None), p')"
    using assms(2) by (simp add: as_reader_def)
  note r = readsD [OF assms(1) this]
  show "view p' = view p" by (rule r(1))
  show "\<not> ok" if "dec (drop (dataPosition api p) (view p)) = None"
    using r(2) [OF that] by (simp split: if_splits)
  show "ok \<and> out = a \<and> dataPosition api p' = dataPosition api p + n"
    if "dec (drop (dataPosition api p) (view p)) = Some (a, n)"
    using r(3) [OF that] by (simp split: if_splits)
qed

lemma observePayload_layout:
  assumes c: "read_contract api fmt view"
    and shape: "string_id (payloadShape (transaction r)) \<or> integer_id (payloadShape (transaction r))"
    and empty: "cameraId r = []" "packageName r = []"
    and run: "observePayload api r p = (ok, r', p')"
  shows "view p' = view p \<and> observed_fields ok r' =
    payload_layout fmt (payloadShape (transaction r)) (dataPosition api p) (drop (dataPosition api p) (view p))"
proof -
  let ?s = "payloadShape (transaction r)" and ?xs = "drop (dataPosition api p) (view p)"
  obtain d1 p1 where 1: "rd_skip api ?s p = (d1, p1)" by (cases "rd_skip api ?s p")
  obtain d2 out p2 where 2: "id_reader api ?s [] p1 = (d2, out, p2)" by (cases "id_reader api ?s [] p1")
  obtain d3 pkg p3 where 3: "package_reader api ?s [] p2 = (d3, pkg, p3)" by (cases "package_reader api ?s [] p2")
  note s = readsD [OF reads_skip [OF c] 1] and i = as_readerD [OF reads_id [OF c] 2]
    and k = as_readerD [OF reads_package [OF c] 3]
  note s = s [folded skip_layout_def]
  note run = run [unfolded observePayload_uniform [OF shape]]
  note defs = payload_layout_def observed_fields_def
  show ?thesis
  proof (cases "skip_layout fmt ?s ?xs")
    case None
    then show ?thesis using run 1 empty s(1) s(2) by (auto simp: defs)
  next
    case (Some un)
    then obtain n1 where n1: "skip_layout fmt ?s ?xs = Some ((), n1)" by (cases un) simp
    note p1 = s(1) s(3) [OF n1]
    have at1: "drop (dataPosition api p1) (view p1) = drop n1 ?xs" using p1 by (simp add: add.commute)
    show ?thesis
    proof (cases "layout_id fmt ?s (drop n1 ?xs)")
      case None
      then show ?thesis using run 1 2 empty n1 p1 i(1) i(2) at1 by (auto simp: defs)
    next
      case (Some idn)
      then obtain j n2 where n2: "layout_id fmt ?s (drop n1 ?xs) = Some (j, n2)" by (cases idn) simp
      note p2 = i(1) i(3) [unfolded at1, OF n2]
      have at2: "drop (dataPosition api p2) (view p2) = drop (n1 + n2) ?xs" using p1 p2 by (simp add: ac_simps)
      show ?thesis
        using run 1 2 3 empty n1 n2 p1 p2 k [unfolded at2]
        by (cases "layout_package fmt ?s (drop (n1 + n2) ?xs)") (auto simp: defs ac_simps)
    qed
  qed
qed

lemma request_layout_split:
  "request_layout fmt shape xs =
     (case dec_header fmt kCameraServiceDescriptor xs of
        None \<Rightarrow> None
      | Some (_, h) \<Rightarrow> payload_layout fmt shape h (drop h xs))"
  by (auto simp: request_layout_def payload_layout_def layout_prefix_def skip_layout_def dec_bind_def ac_simps
      split: option.split prod.split)

lemma observePayload_frame:
  "observePayload api r p = (ok, r', p') \<Longrightarrow>
   r' = r\<lparr>cameraId := cameraId r', packageName := packageName r', cameraIdStart := cameraIdStart r',
     cameraIdEnd := cameraIdEnd r'\<rparr>"
  by (cases "payloadShape (transaction r)") (auto simp: observePayload_def Let_def split: prod.splits)

lemma observePayload_view:
  assumes "read_contract api fmt view" "cameraId r = []" "packageName r = []"
    and "observePayload api r p = (ok, r', p')"
  shows "view p' = view p"
proof (cases "string_id (payloadShape (transaction r)) \<or> integer_id (payloadShape (transaction r))")
  case True
  then show ?thesis using observePayload_layout [OF assms(1) True assms(2,3,4)] by simp
next
  case False
  then show ?thesis
    using assms(4) by (cases "payloadShape (transaction r)") (simp_all add: observePayload_def string_id_def integer_id_def)
qed

lemma header_cases:
  assumes "read_contract api fmt view" "readAndCheckHeader api p = (h, p')"
  shows "view p' = view p"
    and "h = kOk \<longleftrightarrow> dec_header fmt kCameraServiceDescriptor (drop (dataPosition api p) (view p)) \<noteq> None"
    and "dec_header fmt kCameraServiceDescriptor (drop (dataPosition api p) (view p)) = Some (u, n) \<Longrightarrow>
      dataPosition api p' = dataPosition api p + n"
proof -
  have "rd_header api p = ((if h = kOk then Some () else None), p')"
    using assms(2) by (simp add: rd_header_def)
  note r = readsD [OF reads_header [OF assms(1)] this]
  show "view p' = view p" by (rule r(1))
  show "h = kOk \<longleftrightarrow> dec_header fmt kCameraServiceDescriptor (drop (dataPosition api p) (view p)) \<noteq> None"
    using r(2,3) by (cases "dec_header fmt kCameraServiceDescriptor (drop (dataPosition api p) (view p))")
      (auto split: if_splits)
  show "dataPosition api p' = dataPosition api p + n"
    if "dec_header fmt kCameraServiceDescriptor (drop (dataPosition api p) (view p)) = Some (u, n)"
    using r(3) [OF that] by simp
qed

definition observed_as :: "int \<Rightarrow> int \<Rightarrow> BinderTransactionClass \<Rightarrow> nat \<Rightarrow> string \<times> nat \<times> nat \<times> string \<Rightarrow> ParcelObservation" where
  "observed_as uid pid txn position f = (case f of (i, start, limit, pkg) \<Rightarrow>
     \<lparr>status = kObserved, transaction = txn, callingUid = uid, callingPid = pid, cameraId = i, packageName = pkg,
      initialDataPosition = position, finalDataPosition = position, cameraIdStart = start, cameraIdEnd = limit\<rparr>)"

lemma cursor_restored:
  "cursor_contract api view \<Longrightarrow>
   view (setDataPosition api n p) = view p \<and> dataPosition api (setDataPosition api n p) = n"
  unfolding cursor_contract_def by blast

lemma observe_restores:
  assumes c: "cursor_contract api view" "read_contract api fmt view"
    and run: "observeAndroid14CameraServiceParcel api uid pid abi txnCode (Some p) = (obs, q)"
  shows "\<exists>p'. q = Some p' \<and> view p' = view p \<and> dataPosition api p' = dataPosition api p"
proof -
  let ?r = "emptyObservation\<lparr>transaction := classifyBinderTransaction abi txnCode, initialDataPosition := dataPosition api p,
      callingUid := uid, callingPid := pid\<rparr>"
  obtain h p1 where h: "readAndCheckHeader api (setDataPosition api 0 p) = (h, p1)"
    by (cases "readAndCheckHeader api (setDataPosition api 0 p)")
  obtain ok r2 p2 where pl: "observePayload api ?r p1 = (ok, r2, p2)" by (cases "observePayload api ?r p1")
  have "view p1 = view p" using header_cases(1) [OF c(2) h] cursor_restored [OF c(1)] by simp
  moreover have "view p2 = view p1"
    by (rule observePayload_view [OF c(2) _ _ pl]) (simp_all add: emptyObservation_def)
  ultimately show ?thesis
    using run h pl cursor_restored [OF c(1)]
    by (auto simp: observeAndroid14CameraServiceParcel_def Let_def split: if_splits)
qed

lemma observe_layout:
  assumes c: "cursor_contract api view" "read_contract api fmt view"
    and shape: "string_id (payloadShape (classifyBinderTransaction abi txnCode)) \<or>
      integer_id (payloadShape (classifyBinderTransaction abi txnCode))"
    and run: "observeAndroid14CameraServiceParcel api uid pid abi txnCode (Some p) = (obs, q)"
  shows "case request_layout fmt (payloadShape (classifyBinderTransaction abi txnCode)) (view p) of
      None \<Rightarrow> status obs \<noteq> kObserved
    | Some f \<Rightarrow> obs = observed_as uid pid (classifyBinderTransaction abi txnCode) (dataPosition api p) f"
proof -
  let ?t = "classifyBinderTransaction abi txnCode"
  let ?r = "emptyObservation\<lparr>transaction := ?t, initialDataPosition := dataPosition api p, callingUid := uid, callingPid := pid\<rparr>"
  obtain h p1 where h: "readAndCheckHeader api (setDataPosition api 0 p) = (h, p1)"
    by (cases "readAndCheckHeader api (setDataPosition api 0 p)")
  obtain ok r2 p2 where pl: "observePayload api ?r p1 = (ok, r2, p2)" by (cases "observePayload api ?r p1")
  have no: "payloadShape ?t \<noteq> BinderPayloadShape.kPassThrough" "payloadShape ?t \<noteq> kConcurrentSessionConfiguration"
    using shape by (auto simp: string_id_def integer_id_def)
  have obs: "obs = (if h = kOk then r2\<lparr>status := if ok then kObserved else kMalformedPayload,
        finalDataPosition := dataPosition api p\<rparr> else obs) \<and> (h \<noteq> kOk \<longrightarrow> status obs \<noteq> kObserved)"
    using run h pl no by (auto simp: observeAndroid14CameraServiceParcel_def Let_def split: if_splits)
  note hc = header_cases [OF c(2) h, unfolded cursor_restored [OF c(1), THEN conjunct1] cursor_restored [OF c(1), THEN conjunct2] drop_0]
  show ?thesis
  proof (cases "dec_header fmt kCameraServiceDescriptor (view p)")
    case None
    then show ?thesis using hc(2) obs by (auto simp: request_layout_split)
  next
    case (Some un)
    then obtain n where n: "dec_header fmt kCameraServiceDescriptor (view p) = Some ((), n)" by (cases un) simp
    have "h = kOk" using hc(2) n by simp
    have "observed_fields ok r2 = payload_layout fmt (payloadShape ?t) n (drop n (view p))"
      using observePayload_layout [OF c(2) _ _ _ pl] shape hc(1) hc(3) [OF n] by (simp add: emptyObservation_def)
    then show ?thesis
      using obs \<open>h = kOk\<close> n observePayload_frame [OF pl]
      by (cases r2; cases ok) (auto simp: request_layout_split observed_fields_def observed_as_def emptyObservation_def
          split: option.split dest: sym)
  qed
qed

lemma unat_of_char16: "unat (of_char c :: uint16) = of_char c"
proof (rule of_nat_inverse)
  show "word_of_nat (of_char c) = (of_char c :: uint16)" by (rule of_nat_of_char)
  show "(of_char c :: nat) < 2 ^ LENGTH(16)" using nat_of_char_less_256 [of c] by (rule less_trans) simp
qed

lemma asciiChar_utf16: "map asciiChar (utf16 s) = s"
  by (induction s) (simp_all add: utf16_def asciiChar_def unat_of_char16)

section \<open>Properties\<close>

text \<open>
  C26. Observing a request leaves the parcel's data and cursor as they were, and what it
  reports is exactly what the layout of the request says: for the transactions with a camera
  id it succeeds if and only if the interface header, the optional client binder, the id and
  the optional package decode at their places, and then it reports that id with the bounds
  of its encoding, that package and the caller's identity.
\<close>
theorem observation_decodes_layout:
  assumes "parcel_contract api fmt view"
    and "string_id (payloadShape (classifyBinderTransaction abi txnCode)) \<or>
      integer_id (payloadShape (classifyBinderTransaction abi txnCode))"
  shows "case observeAndroid14CameraServiceParcel api uid pid abi txnCode (Some p) of (obs, q) \<Rightarrow>
    (\<exists>p'. q = Some p' \<and> view p' = view p \<and> dataPosition api p' = dataPosition api p) \<and>
    (case request_layout fmt (payloadShape (classifyBinderTransaction abi txnCode)) (view p) of
       None \<Rightarrow> status obs \<noteq> kObserved
     | Some f \<Rightarrow> obs = observed_as uid pid (classifyBinderTransaction abi txnCode) (dataPosition api p) f)"
  using assms observe_restores [of api view fmt uid pid abi txnCode p] observe_layout [of api view fmt abi txnCode uid pid p]
  by (auto simp: parcel_contract_def)

text \<open>A \<open>connectDevice\<close> request for camera 0.\<close>

definition exampleRequest :: flat_parcel where
  "exampleRequest = \<lparr>cells = [Int32 0, Int32 (- 1), Int32 expectedHeader, Str16 (Some kCameraServiceDescriptor),
     Binder (Some 7), Str16 (Some (utf16 ''0'')), Str16 (Some (utf16 ''com.app''))], cursor = 4\<rparr>"

lemma example_class:
  "classifyBinderTransaction makeAndroid14InitialCameraServiceRecipe 4 =
     \<lparr>code = 4, role = ''connect_device'', payloadShape = kConnectDevice, cameraScoped = True, carriesPackageName = True\<rparr>"
  by (simp add: classifyBinderTransaction_def makeAndroid14InitialCameraServiceRecipe_def classificationForRole_def
      unclassified_def Let_def)

lemma example_layout:
  "request_layout flatFormat kConnectDevice (cells exampleRequest) = Some (''0'', 5, 6, ''com.app'')"
  by code_simp

theorem observation_decodes_layout_witness:
  "fst (observeAndroid14CameraServiceParcel flatApi 10001 4242 makeAndroid14InitialCameraServiceRecipe 4 (Some exampleRequest)) =
     observed_as 10001 4242 (classifyBinderTransaction makeAndroid14InitialCameraServiceRecipe 4) 4 (''0'', 5, 6, ''com.app'')"
  using observation_decodes_layout [OF flat_contract, of makeAndroid14InitialCameraServiceRecipe 4 exampleRequest 10001 4242]
  by (auto simp: example_class example_layout string_id_def) (simp add: flatApi_def exampleRequest_def)

end
