(* ===== verification/Device_User_Router.thy ===== *)
theory Device_User_Router
  imports Parcel_Observer C_Strings
begin

text \<open>
  The delegator of a camera device, \<open>src/runtime/platform/Android14CameraDeviceUserRouter.cpp\<close>:
  it is put in place of the device binder of a \<open>connectDevice\<close> reply and exchanges the camera
  id in every capture request.  The lemmas show that a rewritten batch is the original with
  exactly the encodings of the ids exchanged and that it decodes as a batch of the device's id.
\<close>

section \<open>Definitions\<close>

definition kDeviceUserDescriptor :: uint16s where
  "kDeviceUserDescriptor = utf16 ''android.hardware.camera2.ICameraDeviceUser''"

text \<open>\<open>FIRST_CALL_TRANSACTION\<close> is 1.\<close>

definition kSubmitRequestCode :: uint32 where "kSubmitRequestCode = 2"
definition kSubmitRequestListCode :: uint32 where "kSubmitRequestListCode = 3"
definition kRequestPresent :: int where "kRequestPresent = 1"
definition kMaxRequestCount :: int where "kMaxRequestCount = 256"
definition kMaxSurfaceCount :: int where "kMaxSurfaceCount = 64"
definition kMaxMetadataBlobSize :: int where "kMaxMetadataBlobSize = 64 * 1024 * 1024"
definition kMetadataAlignment :: int where "kMetadataAlignment = 8"
definition kUseBufferQueue :: uint32 where "kUseBufferQueue = 0x62717565"

text \<open>The counters of the file; \<open>deviceUsers\<close> holds the delegators with their fields.\<close>

record 'b DeviceUserState =
  gDeviceUserWrappers :: uint64
  gRequestBatchesRewritten :: uint64
  gRequestsRewritten :: uint64
  gRequestBatchesSkipped :: uint64
  deviceUsers :: "'b \<Rightarrow> ('b \<times> string \<times> string) option"

definition readOffsetString16 :: "('p, 'b, 's) ParcelApi \<Rightarrow> 'p \<Rightarrow> (string \<times> nat \<times> nat) option \<times> 'p" where
  "readOffsetString16 api p =
     (let start = dataPosition api p in
      case readString16Inplace api p of
        (None, p') \<Rightarrow> (None, p')
      | (Some v, p') \<Rightarrow>
          (if length v = 0 \<or> length v > 255 then None
           else if list_all (\<lambda>c. \<not> c > 0x7f) v then Some (map asciiChar v, start, dataPosition api p')
           else None, p'))"

definition readAndCheckInterfaceHeader :: "('p, 'b, 's) ParcelApi \<Rightarrow> 'p \<Rightarrow> unit option \<times> 'p" where
  "readAndCheckInterfaceHeader api =
     rd_bind (readInt32 api) (\<lambda>_. rd_bind (readInt32 api) (\<lambda>_. rd_bind (readInt32 api) (\<lambda>header.
     rd_bind (rd_check (header = expectedHeader)) (\<lambda>_.
     rd_bind (readString16Inplace api) (\<lambda>descriptor.
     rd_bind (rd_check (length descriptor = length kDeviceUserDescriptor)) (\<lambda>_.
     rd_check (descriptor = kDeviceUserDescriptor)))))))"

definition skipMetadata :: "('p, 'b, 's) ParcelApi \<Rightarrow> 'p \<Rightarrow> unit option \<times> 'p" where
  "skipMetadata api =
     rd_bind (readInt32 api) (\<lambda>blobSize.
     rd_bind (rd_check (\<not> (blobSize < 0 \<or> blobSize > kMaxMetadataBlobSize))) (\<lambda>_.
     if blobSize = 0 then rd_return ()
     else rd_bind (rd_check (\<not> blobSize \<le> kMetadataAlignment)) (\<lambda>_.
          rd_bind (readBlob api (nat blobSize)) (\<lambda>_.
          rd_bind (readInt32 api) (\<lambda>ignoredOffset. rd_check (ignoredOffset \<ge> 0 \<and> ignoredOffset < kMetadataAlignment))))))"

definition skipSurface :: "('p, 'b, 's) ParcelApi \<Rightarrow> 'p \<Rightarrow> unit option \<times> 'p" where
  "skipSurface api =
     rd_bind (readString16 api) (\<lambda>_. rd_bind (readInt32 api) (\<lambda>_.
     rd_bind (readUint32 api) (\<lambda>producerMagic. rd_bind (rd_check (producerMagic = kUseBufferQueue)) (\<lambda>_.
     rd_bind (readNullableStrongBinder api) (\<lambda>_. rd_bind (readNullableStrongBinder api) (\<lambda>_. rd_return ()))))))"

text \<open>The parts of a capture request in front of the camera id and behind it.\<close>

definition requestHead :: "('p, 'b, 's) ParcelApi \<Rightarrow> 'p \<Rightarrow> unit option \<times> 'p" where
  "requestHead api =
     rd_bind (readInt32 api) (\<lambda>present. rd_bind (rd_check (present = kRequestPresent)) (\<lambda>_.
     rd_bind (readInt32 api) (\<lambda>settingsCount. rd_check (settingsCount = 1))))"

definition skipSurfaces :: "('p, 'b, 's) ParcelApi \<Rightarrow> 'p \<Rightarrow> unit option \<times> 'p" where
  "skipSurfaces api =
     rd_bind (readInt32 api) (\<lambda>surfaceCount.
     rd_bind (rd_check (\<not> (surfaceCount < 0 \<or> surfaceCount > kMaxSurfaceCount))) (\<lambda>_.
     rd_bind (rd_repeat (nat surfaceCount)
       (rd_bind (readUtf8FromUtf16 api) (\<lambda>className. rd_bind (rd_check (className \<noteq> None)) (\<lambda>_. skipSurface api)))) (\<lambda>_.
     rd_return ())))"

definition skipStreamSurfaces :: "('p, 'b, 's) ParcelApi \<Rightarrow> 'p \<Rightarrow> unit option \<times> 'p" where
  "skipStreamSurfaces api =
     rd_bind (readInt32 api) (\<lambda>streamSurfaceCount.
     rd_bind (rd_check (\<not> (streamSurfaceCount < 0 \<or> streamSurfaceCount > kMaxSurfaceCount))) (\<lambda>_.
     rd_bind (rd_repeat (nat streamSurfaceCount) (rd_bind (readInt32 api) (\<lambda>_. readInt32 api))) (\<lambda>_.
     rd_return ())))"

definition skipUserTag :: "('p, 'b, 's) ParcelApi \<Rightarrow> 'p \<Rightarrow> unit option \<times> 'p" where
  "skipUserTag api =
     rd_bind (readInt32 api) (\<lambda>hasUserTag.
     if hasUserTag \<noteq> 0 then rd_bind (readString16 api) (\<lambda>ignoredTag. rd_check (ignoredTag \<noteq> None)) else rd_return ())"

definition requestTail :: "('p, 'b, 's) ParcelApi \<Rightarrow> 'p \<Rightarrow> unit option \<times> 'p" where
  "requestTail api =
     rd_bind (skipMetadata api) (\<lambda>_. rd_bind (readInt32 api) (\<lambda>_.
     rd_bind (skipSurfaces api) (\<lambda>_. rd_bind (skipStreamSurfaces api) (\<lambda>_. skipUserTag api))))"

definition observeCaptureRequest :: "('p, 'b, 's) ParcelApi \<Rightarrow> string \<Rightarrow> 'p \<Rightarrow> (nat \<times> nat) option \<times> 'p" where
  "observeCaptureRequest api publicCameraId =
     rd_bind (requestHead api) (\<lambda>_. rd_bind (readOffsetString16 api) (\<lambda>(logicalCameraId, start, stop).
     rd_bind (rd_check (logicalCameraId = publicCameraId)) (\<lambda>_.
     rd_bind (requestTail api) (\<lambda>_. rd_return (start, stop)))))"

text \<open>The number of requests of the transaction, and the whole batch behind the header.\<close>

definition readRequestCount :: "('p, 'b, 's) ParcelApi \<Rightarrow> uint32 \<Rightarrow> 'p \<Rightarrow> nat option \<times> 'p" where
  "readRequestCount api txnCode =
     (if txnCode = kSubmitRequestListCode then
        rd_bind (readInt32 api) (\<lambda>requestCount.
        rd_bind (rd_check (\<not> (requestCount \<le> 0 \<or> requestCount > kMaxRequestCount))) (\<lambda>_. rd_return (nat requestCount)))
      else if txnCode \<noteq> kSubmitRequestCode then (\<lambda>p. (None, p))
      else rd_return 1)"

definition observeRequestOffsets ::
  "('p, 'b, 's) ParcelApi \<Rightarrow> uint32 \<Rightarrow> 'p \<Rightarrow> string \<Rightarrow> (nat \<times> nat) list option \<times> 'p" where
  "observeRequestOffsets api txnCode parcel publicCameraId =
     (let position = dataPosition api parcel in
      case rd_bind (readAndCheckInterfaceHeader api) (\<lambda>_. rd_bind (readRequestCount api txnCode) (\<lambda>requestCount.
           rd_bind (rd_repeat requestCount (observeCaptureRequest api publicCameraId)) (\<lambda>offsets.
           rd_bind (readBool api) (\<lambda>_ p. (if dataPosition api p = dataSize api p then Some offsets else None, p)))))
           (setDataPosition api 0 parcel) of
        (r, p) \<Rightarrow> (r, setDataPosition api position p))"

text \<open>
  The copy loop: \<open>mapped\<close> is \<open>remappedPosition\<close> once \<open>positionMapped\<close> is set.  The answer is the
  position behind the last id, the mapped position and the output.
\<close>

fun rewriteLoop ::
  "('p, 'b, 's) ParcelApi \<Rightarrow> 'p \<Rightarrow> string \<Rightarrow> (nat \<times> nat) list \<Rightarrow> nat \<Rightarrow> nat option \<Rightarrow> 'p \<Rightarrow> (nat \<times> nat option) option \<times> 'p" where
  "rewriteLoop api input deviceCameraId [] sourcePosition mapped out = (Some (sourcePosition, mapped), out)"
| "rewriteLoop api input deviceCameraId ((start, stop) # offsets) sourcePosition mapped out =
     (if start < sourcePosition \<or> start \<ge> stop \<or> stop > dataSize api input then (None, out)
      else let segmentOutputStart = dataPosition api out; originalPosition = dataPosition api input in
      case appendFrom api input sourcePosition (start - sourcePosition) out of (ok1, out1) \<Rightarrow>
        if \<not> ok1 then (None, out1)
        else case writeString16 api (utf16 (cstr deviceCameraId)) out1 of (ok2, out2) \<Rightarrow>
          if \<not> ok2 then (None, out2)
          else let replacementEnd = dataPosition api out2;
                   mapped = (if mapped = None \<and> originalPosition \<le> start then Some (segmentOutputStart + (originalPosition - sourcePosition))
                             else if mapped = None \<and> originalPosition < stop then Some replacementEnd
                             else mapped)
               in rewriteLoop api input deviceCameraId offsets stop mapped out2)"

text \<open>The number of requests on success, the input (whose cursor the observation restored) and the output.\<close>

definition rewriteRequestIds ::
  "('p, 'b, 's) ParcelApi \<Rightarrow> uint32 \<Rightarrow> 'p \<Rightarrow> string \<Rightarrow> string \<Rightarrow> 'p option \<Rightarrow> nat option \<times> 'p \<times> 'p option" where
  "rewriteRequestIds api txnCode input publicCameraId deviceCameraId output =
     (case output of
        None \<Rightarrow> (None, input, None)
      | Some out \<Rightarrow>
     if deviceCameraId = [] \<or> length deviceCameraId > 255 then (None, input, output)
     else if \<not> list_all (\<lambda>c. \<not> Text_Parsing.code c > 0x7f) deviceCameraId then (None, input, output)
     else case observeRequestOffsets api txnCode input publicCameraId of
       (None, input) \<Rightarrow> (None, input, output)
     | (Some offsets, input) \<Rightarrow>
         if dataPosition api input > dataSize api input then (None, input, output)
         else case setDataSize api 0 (setDataPosition api 0 out) of (ok, out1) \<Rightarrow>
           if \<not> ok then (None, input, Some out1)
           else case rewriteLoop api input deviceCameraId offsets 0 None out1 of
             (None, out2) \<Rightarrow> (None, input, Some out2)
           | (Some (sourcePosition, mapped), out2) \<Rightarrow>
               (case appendFrom api input sourcePosition (dataSize api input - sourcePosition) out2 of (ok, out3) \<Rightarrow>
                  if \<not> ok then (None, input, Some out3)
                  else let remappedPosition = (case mapped of Some m \<Rightarrow> m
                         | None \<Rightarrow> dataSize api out3 - (dataSize api input - dataPosition api input))
                    in if remappedPosition > dataSize api out3 then (None, input, Some out3)
                       else (Some (length offsets), input, Some (setDataPosition api remappedPosition out3))))"

text \<open>\<open>RoutedCameraDeviceUser::onTransact\<close>; \<open>transact\<close> is the transaction on the delegate's target.\<close>

definition deviceUserOnTransact ::
  "('p, 'b, 's) ParcelApi \<Rightarrow> ('b \<Rightarrow> uint32 \<Rightarrow> 'p \<Rightarrow> 'p option \<Rightarrow> uint32 \<Rightarrow> 'e \<Rightarrow> int \<times> 'e) \<Rightarrow> 'b \<times> string \<times> string \<Rightarrow>
   uint32 \<Rightarrow> 'p \<Rightarrow> 'p option \<Rightarrow> uint32 \<Rightarrow> 'b DeviceUserState \<Rightarrow> 'e \<Rightarrow> int \<times> 'b DeviceUserState \<times> 'e" where
  "deviceUserOnTransact api transact delegator txnCode data reply flags st e =
     (case delegator of (target, publicCameraId, deviceCameraId) \<Rightarrow>
      if txnCode = kSubmitRequestCode \<or> txnCode = kSubmitRequestListCode then
        (case rewriteRequestIds api txnCode data publicCameraId deviceCameraId (Some (newParcel api)) of
           (Some requestCount, data, Some rewritten) \<Rightarrow>
             (let st = st\<lparr>gRequestBatchesRewritten := gRequestBatchesRewritten st + 1,
                    gRequestsRewritten := gRequestsRewritten st + of_nat requestCount\<rparr> in
              case transact target txnCode rewritten reply flags e of (r, e') \<Rightarrow> (r, st, e'))
         | (_, data, _) \<Rightarrow>
             (let st = st\<lparr>gRequestBatchesSkipped := gRequestBatchesSkipped st + 1\<rparr> in
              case transact target txnCode data reply flags e of (r, e') \<Rightarrow> (r, st, e')))
      else case transact target txnCode data reply flags e of (r, e') \<Rightarrow> (r, st, e'))"

datatype CameraDeviceUserReplyRouteStatus = kDeviceWrapped | kDeviceNotEligible | kDeviceMalformedReply
  | kDeviceServiceError | kDeviceWriteFailed

definition wrapAndroid14CameraDeviceUserReply ::
  "('p, 'b, 's) ParcelApi \<Rightarrow> 'b \<Rightarrow> 'p option \<Rightarrow> string \<Rightarrow> string \<Rightarrow> 'b DeviceUserState \<Rightarrow>
   CameraDeviceUserReplyRouteStatus \<times> 'p option \<times> 'b DeviceUserState" where
  "wrapAndroid14CameraDeviceUserReply api newObject replyPointer publicCameraId deviceCameraId st =
     (case replyPointer of
        None \<Rightarrow> (kDeviceNotEligible, None, st)
      | Some reply \<Rightarrow>
     if publicCameraId = [] \<or> deviceCameraId = [] \<or> publicCameraId = deviceCameraId then (kDeviceNotEligible, Some reply, st)
     else let originalPosition = dataPosition api reply in
     case readStatus api (setDataPosition api 0 reply) of
       (None, reply) \<Rightarrow> (kDeviceMalformedReply, Some (setDataPosition api originalPosition reply), st)
     | (Some serviceStatus, reply) \<Rightarrow>
         if \<not> statusIsOk api serviceStatus then (kDeviceServiceError, Some (setDataPosition api originalPosition reply), st)
         else case readStrongBinder api reply of
           (Some (Some deviceBinder), reply) \<Rightarrow>
             (if dataPosition api reply \<noteq> dataSize api reply
              then (kDeviceMalformedReply, Some (setDataPosition api originalPosition reply), st)
              else case wr_then (writeStatus api serviceStatus) (writeStrongBinder api newObject) (newParcel api) of (ok, replacement) \<Rightarrow>
                if \<not> ok then (kDeviceWriteFailed, Some (setDataPosition api originalPosition reply), st)
                else case appendFrom api replacement 0 (dataSize api replacement) (freeData api reply) of (ok, reply) \<Rightarrow>
                  if \<not> ok then (kDeviceWriteFailed, Some reply, st)
                  else (kDeviceWrapped, Some (setDataPosition api 0 reply),
                    st\<lparr>gDeviceUserWrappers := gDeviceUserWrappers st + 1,
                       deviceUsers := (deviceUsers st)(newObject := Some (deviceBinder, publicCameraId, deviceCameraId))\<rparr>))
         | (_, reply) \<Rightarrow> (kDeviceMalformedReply, Some (setDataPosition api originalPosition reply), st))"

fun cameraDeviceUserReplyRouteStatusName :: "CameraDeviceUserReplyRouteStatus \<Rightarrow> string" where
  "cameraDeviceUserReplyRouteStatusName kDeviceWrapped = ''wrapped''"
| "cameraDeviceUserReplyRouteStatusName kDeviceNotEligible = ''not_eligible''"
| "cameraDeviceUserReplyRouteStatusName kDeviceMalformedReply = ''malformed_reply''"
| "cameraDeviceUserReplyRouteStatusName kDeviceServiceError = ''service_error''"
| "cameraDeviceUserReplyRouteStatusName kDeviceWriteFailed = ''write_failed''"

section \<open>Local readers\<close>

text \<open>A reader that decodes a self-delimiting encoding at the cursor.\<close>

definition local_reader :: "('p, 'b, 's) ParcelApi \<Rightarrow> ('p \<Rightarrow> 'c list) \<Rightarrow> ('p \<Rightarrow> 'a option \<times> 'p) \<Rightarrow> bool" where
  "local_reader api view rd \<longleftrightarrow> (\<exists>dec. reads api view rd dec \<and> self_delimiting dec)"

named_theorems local_intros \<open>readers that decode at the cursor\<close>

lemma local_bind [local_intros]:
  assumes "local_reader api view f" "\<And>a. local_reader api view (g a)"
  shows "local_reader api view (rd_bind f g)"
proof -
  obtain df where f: "reads api view f df" "self_delimiting df" using assms(1) by (auto simp: local_reader_def)
  obtain dg where g: "\<And>a. reads api view (g a) (dg a) \<and> self_delimiting (dg a)"
    using assms(2) unfolding local_reader_def by metis
  show ?thesis
    unfolding local_reader_def using reads_bind [OF f(1), of g dg] delimiting_bind [OF f(2), of dg] g by blast
qed

lemma local_basic [local_intros]:
  "local_reader api view (rd_return a)" "local_reader api view (rd_check b)"
  unfolding local_reader_def by (blast intro: reads_intros delimiting_intros)+

lemma local_if [local_intros]: "local_reader api view f \<Longrightarrow> local_reader api view g \<Longrightarrow> local_reader api view (if b then f else g)"
  by simp

lemma local_repeat [local_intros]: "local_reader api view f \<Longrightarrow> local_reader api view (rd_repeat n f)"
  by (induction n) (auto intro!: local_intros)

lemma local_reads:
  assumes "read_contract api fmt view"
  shows "local_reader api view (readInt32 api)" "local_reader api view (readUint32 api)" "local_reader api view (readBool api)"
    "local_reader api view (readString16 api)" "local_reader api view (readUtf8FromUtf16 api)"
    "local_reader api view (readNullableStrongBinder api)" "local_reader api view (readBlob api n)"
    "local_reader api view (readString16Inplace api)" "local_reader api view (readStatus api)" "local_reader api view (readStrongBinder api)"
  using assms reads_inplace [OF assms] inplace_delimiting [OF assms] unfolding local_reader_def read_contract_def by blast+

lemma local_refuse: "local_reader api view (\<lambda>p. (None, p))"
  unfolding local_reader_def by (rule exI [of _ "\<lambda>_. None"]) (simp add: reads_def self_delimiting_def)

lemma local_parts:
  assumes "read_contract api fmt view"
  shows "local_reader api view (readAndCheckInterfaceHeader api)" "local_reader api view (requestHead api)"
    "local_reader api view (requestTail api)" "local_reader api view (readRequestCount api txnCode)"
  unfolding readAndCheckInterfaceHeader_def requestHead_def requestTail_def skipMetadata_def skipSurfaces_def skipSurface_def
    skipStreamSurfaces_def skipUserTag_def readRequestCount_def
  by (intro local_intros local_refuse local_reads [OF assms])+

text \<open>A reader that accepts a segment wherever it stands, whatever follows it.\<close>

definition consumes :: "('p, 'b, 's) ParcelApi \<Rightarrow> ('p \<Rightarrow> 'c list) \<Rightarrow> ('p \<Rightarrow> 'a option \<times> 'p) \<Rightarrow> 'c list \<Rightarrow> ('a \<Rightarrow> bool) \<Rightarrow> bool" where
  "consumes api view rd seg P \<longleftrightarrow>
     (\<forall>q rest. drop (dataPosition api q) (view q) = seg @ rest \<longrightarrow>
        (\<exists>a q'. rd q = (Some a, q') \<and> P a \<and> view q' = view q \<and> dataPosition api q' = dataPosition api q + length seg))"

lemma consumesD:
  assumes "consumes api view rd seg P" "drop (dataPosition api q) (view q) = seg @ rest"
  obtains a q' where "rd q = (Some a, q')" "P a" "view q' = view q" "dataPosition api q' = dataPosition api q + length seg"
    "drop (dataPosition api q') (view q') = rest"
proof -
  obtain a q' where q: "rd q = (Some a, q')" "P a" "view q' = view q" "dataPosition api q' = dataPosition api q + length seg"
    using assms unfolding consumes_def by blast
  moreover have "drop (dataPosition api q') (view q') = rest"
    using q assms(2) by (metis append_eq_conv_conj drop_drop add.commute)
  ultimately show thesis by (rule that)
qed

lemma consumes_bind:
  assumes "consumes api view f xs P" "\<And>a. P a \<Longrightarrow> consumes api view (g a) ys Q"
  shows "consumes api view (rd_bind f g) (xs @ ys) Q"
  unfolding consumes_def
proof (intro allI impI)
  fix q rest
  assume "drop (dataPosition api q) (view q) = (xs @ ys) @ rest"
  then obtain a q1 where 1: "f q = (Some a, q1)" "P a" "view q1 = view q" "dataPosition api q1 = dataPosition api q + length xs"
    "drop (dataPosition api q1) (view q1) = ys @ rest"
    using consumesD [OF assms(1), of q "ys @ rest"] by auto
  obtain b q2 where "g a q1 = (Some b, q2)" "Q b" "view q2 = view q1" "dataPosition api q2 = dataPosition api q1 + length ys"
    using consumesD [OF assms(2) [OF 1(2)] 1(5)] by metis
  then show "\<exists>b q'. rd_bind f g q = (Some b, q') \<and> Q b \<and> view q' = view q \<and> dataPosition api q' = dataPosition api q + length (xs @ ys)"
    using 1 by (simp add: rd_bind_def)
qed

lemma consumes_nil: "P a \<Longrightarrow> consumes api view (rd_return a) [] P"
  by (simp add: consumes_def rd_return_def)

lemma consumes_check: "b \<Longrightarrow> consumes api view (rd_check b) [] (\<lambda>_. True)"
  by (simp add: consumes_def rd_check_def)

text \<open>What a local reader has read, it reads again anywhere.\<close>

lemma local_consumes:
  assumes "local_reader api view rd" "rd p = (Some a, p')"
  obtains seg where "drop (dataPosition api p) (view p) = seg @ drop (dataPosition api p') (view p)"
    "dataPosition api p' = dataPosition api p + length seg" "view p' = view p" "consumes api view rd seg (\<lambda>b. b = a)"
proof -
  obtain dec where r: "reads api view rd dec" "self_delimiting dec" using assms(1) by (auto simp: local_reader_def)
  obtain n where n: "dec (drop (dataPosition api p) (view p)) = Some (a, n)" "view p' = view p"
    "dataPosition api p' = dataPosition api p + n"
    using reads_SomeE [OF r(1) assms(2)] by blast
  let ?xs = "drop (dataPosition api p) (view p)"
  note d = self_delimitingD [OF r(2) n(1)]
  have "consumes api view rd (take n ?xs) (\<lambda>b. b = a)"
    unfolding consumes_def
  proof (intro allI impI)
    fix q rest
    assume q: "drop (dataPosition api q) (view q) = take n ?xs @ rest"
    obtain r1 q' where rd: "rd q = (r1, q')" by (cases "rd q")
    have "dec (drop (dataPosition api q) (view q)) = Some (a, n)" using d q by simp
    from readsD(1,3) [OF r(1) rd] this
    show "\<exists>b q'. rd q = (Some b, q') \<and> b = a \<and> view q' = view q \<and> dataPosition api q' = dataPosition api q + length (take n ?xs)"
      using rd d by (auto simp: min_absorb2)
  qed
  moreover have "?xs = take n ?xs @ drop (dataPosition api p') (view p)"
    using n(3) by (metis append_take_drop_id drop_drop add.commute)
  ultimately show thesis using that [of "take n ?xs"] n d by (simp add: min_absorb2)
qed

lemma rd_bind_Some:
  assumes "rd_bind f g p = (Some b, p')"
  obtains a p1 where "f p = (Some a, p1)" "g a p1 = (Some b, p')"
  using assms by (auto simp: rd_bind_def split: prod.splits option.splits)

section \<open>Requests\<close>

definition request_id :: "string \<Rightarrow> bool" where
  "request_id cam \<longleftrightarrow> cam \<noteq> [] \<and> length cam \<le> 255 \<and> list_all (\<lambda>c. Text_Parsing.code c \<le> 0x7f) cam"

lemma request_id_utf16:
  assumes "request_id cam"
  shows "map asciiChar (utf16 cam) = cam" "list_all (\<lambda>c. \<not> c > 0x7f) (utf16 cam)"
proof -
  show "map asciiChar (utf16 cam) = cam" by (simp add: asciiChar_utf16)
  show "list_all (\<lambda>c. \<not> c > 0x7f) (utf16 cam)"
    using assms by (auto simp: request_id_def list_all_iff utf16_def word_less_nat_alt unat_of_char16 not_less)
qed

lemma consumes_id:
  assumes "parcel_contract api fmt view" "request_id cam"
  shows "consumes api view (readOffsetString16 api) (enc_string16 fmt (utf16 cam)) (\<lambda>(v, _). v = cam)"
  unfolding consumes_def
proof (intro allI impI)
  fix q rest
  assume q: "drop (dataPosition api q) (view q) = enc_string16 fmt (utf16 cam) @ rest"
  obtain r q' where rd: "readString16 api q = (r, q')" by (cases "readString16 api q")
  have w: "write_contract api fmt view" and r: "read_contract api fmt view" using assms(1) by (simp_all add: parcel_contract_def)
  have "dec_string16 fmt (drop (dataPosition api q) (view q)) = Some (Some (utf16 cam), length (enc_string16 fmt (utf16 cam)))"
    using write_decodes(2) [OF w, of "utf16 cam"] q by (simp add: decodes_def)
  from readsD(1,3) [OF read_reads(4) [OF r] rd] this
  have "readString16 api q = (Some (Some (utf16 cam)), q')" "view q' = view q"
    "dataPosition api q' = dataPosition api q + length (enc_string16 fmt (utf16 cam))"
    using rd by auto
  then show "\<exists>a q'. readOffsetString16 api q = (Some a, q') \<and> (case a of (v, _) \<Rightarrow> v = cam) \<and> view q' = view q \<and>
      dataPosition api q' = dataPosition api q + length (enc_string16 fmt (utf16 cam))"
    using request_id_utf16 [OF assms(2)] assms(2)
    by (simp add: readOffsetString16_def readString16Inplace_def request_id_def utf16_def)
qed

lemma consumes_request:
  assumes "parcel_contract api fmt view" "request_id cam"
    and "consumes api view (requestHead api) A (\<lambda>b. b = ())" "consumes api view (requestTail api) B (\<lambda>b. b = ())"
  shows "consumes api view (observeCaptureRequest api cam) (A @ enc_string16 fmt (utf16 cam) @ B) (\<lambda>_. True)"
proof -
  have "consumes api view (rd_bind (requestTail api) (\<lambda>_. rd_return so)) (B @ []) (\<lambda>_. True)" for so :: "nat \<times> nat"
    by (rule consumes_bind [OF assms(4)]) (simp add: consumes_nil)
  then have tail: "consumes api view (rd_bind (rd_check True) (\<lambda>_. rd_bind (requestTail api) (\<lambda>_. rd_return so))) ([] @ B) (\<lambda>_. True)" for so :: "nat \<times> nat"
    by (intro consumes_bind [OF consumes_check]) simp_all
  show ?thesis
    unfolding observeCaptureRequest_def
    by (intro consumes_bind [OF assms(3)] consumes_bind [OF consumes_id [OF assms(1,2)]]) (use tail in \<open>auto simp: case_prod_unfold\<close>)
qed

text \<open>The segments of an observed request: in front of the id, the id, behind it.\<close>

lemma observed_request:
  assumes c: "parcel_contract api fmt view" and cam: "request_id cam"
    and o: "observeCaptureRequest api publicId p = (Some (s, e), p')"
  obtains A I B where "drop (dataPosition api p) (view p) = A @ I @ B @ drop (dataPosition api p') (view p)"
    "s = dataPosition api p + length A" "e = s + length I" "dataPosition api p' = e + length B" "view p' = view p"
    "consumes api view (observeCaptureRequest api cam) (A @ enc_string16 fmt (utf16 cam) @ B) (\<lambda>_. True)"
proof -
  have r: "read_contract api fmt view" using c by (simp add: parcel_contract_def)
  obtain p1 where h: "requestHead api p = (Some (), p1)" and
    o1: "rd_bind (readOffsetString16 api) (\<lambda>(logicalCameraId, start, stop). rd_bind (rd_check (logicalCameraId = publicId)) (\<lambda>_.
     rd_bind (requestTail api) (\<lambda>_. rd_return (start, stop)))) p1 = (Some (s, e), p')"
    using o [unfolded observeCaptureRequest_def] by (rule rd_bind_Some) simp
  obtain v s' e' p2 where i: "readOffsetString16 api p1 = (Some (v, s', e'), p2)" and
    o2: "rd_bind (rd_check (v = publicId)) (\<lambda>_. rd_bind (requestTail api) (\<lambda>_. rd_return (s', e'))) p2 = (Some (s, e), p')"
    using o1 by (rule rd_bind_Some) (auto split: prod.splits)
  have t: "requestTail api p2 = (Some (), p')" "s' = s" "e' = e"
    using o2 by (auto simp: rd_check_def rd_return_def elim!: rd_bind_Some split: if_splits)
  obtain w where w: "readString16Inplace api p1 = (Some w, p2)" "s = dataPosition api p1" "e = dataPosition api p2"
    using i t(2,3) by (auto simp: readOffsetString16_def Let_def split: prod.splits option.splits if_splits)
  obtain A where A: "drop (dataPosition api p) (view p) = A @ drop (dataPosition api p1) (view p)"
    "dataPosition api p1 = dataPosition api p + length A" "view p1 = view p" "consumes api view (requestHead api) A (\<lambda>b. b = ())"
    using local_consumes [OF local_parts(2) [OF r] h] by blast
  obtain I where I: "drop (dataPosition api p1) (view p1) = I @ drop (dataPosition api p2) (view p1)"
    "dataPosition api p2 = dataPosition api p1 + length I" "view p2 = view p1"
    using local_consumes [OF local_reads(8) [OF r] w(1)] by metis
  obtain B where B: "drop (dataPosition api p2) (view p2) = B @ drop (dataPosition api p') (view p2)"
    "dataPosition api p' = dataPosition api p2 + length B" "view p' = view p2" "consumes api view (requestTail api) B (\<lambda>b. b = ())"
    using local_consumes [OF local_parts(3) [OF r] t(1)] by blast
  show thesis
    using that [of A I B] A I B w consumes_request [OF c cam A(4) B(4)] by simp
qed

text \<open>The cells with the segments at the given offsets exchanged, from a position on.\<close>

fun replace_at :: "'c list \<Rightarrow> 'c list \<Rightarrow> nat \<Rightarrow> (nat \<times> nat) list \<Rightarrow> 'c list" where
  "replace_at enc xs pos [] = drop pos xs"
| "replace_at enc xs pos ((s, e) # offsets) = take (s - pos) (drop pos xs) @ enc @ replace_at enc xs e offsets"

lemma replace_at_skip: "drop pos xs = B @ drop (pos + length B) xs \<Longrightarrow>
    \<forall>(s, e) \<in> set (take 1 offsets). pos + length B \<le> s \<Longrightarrow>
    replace_at enc xs pos offsets = B @ replace_at enc xs (pos + length B) offsets"
  by (cases offsets) (auto simp: take_append diff_diff_left)

lemma observed_requests:
  assumes c: "parcel_contract api fmt view" and cam: "request_id cam"
    and o: "rd_repeat n (observeCaptureRequest api publicId) p = (Some offsets, p')"
  shows "\<exists>new. replace_at (enc_string16 fmt (utf16 cam)) (view p) (dataPosition api p) offsets = new @ drop (dataPosition api p') (view p) \<and>
    consumes api view (rd_repeat n (observeCaptureRequest api cam)) new (\<lambda>as. length as = n) \<and>
    length offsets = n \<and> view p' = view p \<and> (\<forall>(s, e) \<in> set (take 1 offsets). dataPosition api p \<le> s)"
  using o
proof (induction n arbitrary: p offsets)
  case 0
  then show ?case by (auto simp: rd_return_def consumes_def)
next
  case (Suc n)
  obtain s e p1 os where o1: "observeCaptureRequest api publicId p = (Some (s, e), p1)"
    and o2: "rd_repeat n (observeCaptureRequest api publicId) p1 = (Some os, p')" and offs: "offsets = (s, e) # os"
    using Suc.prems by (auto simp: rd_return_def elim!: rd_bind_Some)
  obtain A I B where seg: "drop (dataPosition api p) (view p) = A @ I @ B @ drop (dataPosition api p1) (view p)"
    "s = dataPosition api p + length A" "e = s + length I" "dataPosition api p1 = e + length B" "view p1 = view p"
    and con: "consumes api view (observeCaptureRequest api cam) (A @ enc_string16 fmt (utf16 cam) @ B) (\<lambda>_. True)"
    using observed_request [OF c cam o1] .
  obtain new where new: "replace_at (enc_string16 fmt (utf16 cam)) (view p) (dataPosition api p1) os = new @ drop (dataPosition api p') (view p)"
    "consumes api view (rd_repeat n (observeCaptureRequest api cam)) new (\<lambda>as. length as = n)"
    "length os = n" "view p' = view p" "\<forall>(s, e) \<in> set (take 1 os). dataPosition api p1 \<le> s"
    using Suc.IH [OF o2] seg(5) by auto
  have "drop e (view p) = drop (length (A @ I)) (drop (dataPosition api p) (view p))"
    using seg(2,3) by (simp add: add.commute add.left_commute)
  then have dropE: "drop e (view p) = B @ drop (e + length B) (view p)" using seg(1,4) by simp
  then have "replace_at (enc_string16 fmt (utf16 cam)) (view p) e os = B @ replace_at (enc_string16 fmt (utf16 cam)) (view p) (e + length B) os"
    using new(5) seg(4) by (intro replace_at_skip) auto
  moreover have "take (s - dataPosition api p) (drop (dataPosition api p) (view p)) = A" using seg(1,2) by simp
  moreover have "consumes api view (rd_repeat (Suc n) (observeCaptureRequest api cam))
      ((A @ enc_string16 fmt (utf16 cam) @ B) @ new @ []) (\<lambda>as. length as = Suc n)"
    unfolding rd_repeat.simps by (rule consumes_bind [OF con], rule consumes_bind [OF new(2)]) (simp add: consumes_nil)
  ultimately show ?case
    using new seg(2,4) offs by (intro exI [of _ "A @ enc_string16 fmt (utf16 cam) @ B @ new"]) simp
qed

section \<open>The copy loop\<close>

text \<open>The part of the rewritten cells behind a cursor of the original.\<close>

fun remaining :: "'c list \<Rightarrow> 'c list \<Rightarrow> nat \<Rightarrow> (nat \<times> nat) list \<Rightarrow> 'c list" where
  "remaining enc xs pos [] = drop pos xs"
| "remaining enc xs pos ((s, e) # offsets) =
     (if pos \<le> s then replace_at enc xs pos ((s, e) # offsets)
      else if pos < e then replace_at enc xs e offsets
      else remaining enc xs pos offsets)"

definition mapped_step :: "nat \<Rightarrow> nat \<Rightarrow> nat \<Rightarrow> nat \<Rightarrow> nat \<Rightarrow> nat \<Rightarrow> nat option \<Rightarrow> nat option" where
  "mapped_step pos src s e before after mapped =
     (if mapped = None \<and> pos \<le> s then Some (before + (pos - src)) else if mapped = None \<and> pos < e then Some after else mapped)"

lemma rewriteLoop_step:
  assumes c: "parcel_contract api fmt view" and end0: "dataPosition api out = length (view out)"
    and l: "rewriteLoop api input cam ((s, e) # offsets) src mapped out = (Some r, out')"
  obtains out2 where "src \<le> s" "s < e" "e \<le> length (view input)"
    "view out2 = view out @ take (s - src) (drop src (view input)) @ enc_string16 fmt (utf16 (cstr cam))"
    "dataPosition api out2 = length (view out2)"
    "rewriteLoop api input cam offsets e
       (mapped_step (dataPosition api input) src s e (length (view out)) (length (view out2)) mapped) out2 = (Some r, out')"
proof -
  have cc: "cursor_contract api view" and w: "write_contract api fmt view" using c by (simp_all add: parcel_contract_def)
  have g: "src \<le> s" "s < e" "e \<le> length (view input)"
    using l cursorD(1) [OF cc, of input] by (auto split: if_splits)
  obtain ok1 out1 where a1: "appendFrom api input src (s - src) out = (ok1, out1)" by (cases "appendFrom api input src (s - src) out")
  obtain ok2 out2 where a2: "writeString16 api (utf16 (cstr cam)) out1 = (ok2, out2)" by (cases "writeString16 api (utf16 (cstr cam)) out1")
  have ok: "ok1" "ok2" using l a1 a2 g cursorD(1) [OF cc, of input] by (auto simp: Let_def split: if_splits)
  have v1: "view out1 = view out @ take (s - src) (drop src (view input))" "dataPosition api out1 = length (view out1)"
    using appendFromD [OF cc end0 _ a1 [unfolded eqTrueI [OF ok(1)]]] g by auto
  have v2: "view out2 = view out1 @ enc_string16 fmt (utf16 (cstr cam))" "dataPosition api out2 = length (view out2)"
    using appendsD [OF write_appends(2) [OF w] v1(2) a2 [unfolded eqTrueI [OF ok(2)]]] by auto
  have "rewriteLoop api input cam offsets e
       (mapped_step (dataPosition api input) src s e (length (view out)) (length (view out2)) mapped) out2 = (Some r, out')"
    using l a1 a2 g ok v2(2) end0 cursorD(1) [OF cc, of input] by (simp add: Let_def mapped_step_def cong: if_cong)
  then show thesis using that [of out2] g v1 v2 by simp
qed

lemma rewriteLoop_view:
  assumes "parcel_contract api fmt view" "dataPosition api out = length (view out)"
    and "rewriteLoop api input cam offsets src mapped out = (Some (src', mapped'), out')" "src \<le> length (view input)"
  shows "view out' @ drop src' (view input) = view out @ replace_at (enc_string16 fmt (utf16 (cstr cam))) (view input) src offsets \<and>
    dataPosition api out' = length (view out') \<and> src' \<le> length (view input) \<and> (mapped \<noteq> None \<longrightarrow> mapped' = mapped)"
  using assms(2-)
proof (induction offsets arbitrary: src mapped out)
  case Nil
  then show ?case by simp
next
  case (Cons off offsets)
  obtain s e where off: "off = (s, e)" by (cases off)
  obtain out2 where 2: "e \<le> length (view input)"
    "view out2 = view out @ take (s - src) (drop src (view input)) @ enc_string16 fmt (utf16 (cstr cam))"
    "dataPosition api out2 = length (view out2)"
    "rewriteLoop api input cam offsets e
       (mapped_step (dataPosition api input) src s e (length (view out)) (length (view out2)) mapped) out2 = (Some (src', mapped'), out')"
    using rewriteLoop_step [OF assms(1) Cons.prems(1) Cons.prems(2) [unfolded off]] by metis
  show ?case using Cons.IH [OF 2(3,4,1)] 2(2) by (auto simp: off mapped_step_def)
qed

lemma rewriteLoop_cursor:
  assumes "parcel_contract api fmt view" "dataPosition api out = length (view out)"
    and "rewriteLoop api input cam offsets src None out = (Some (src', mapped'), out')" "src \<le> length (view input)"
    "src \<le> dataPosition api input"
  shows "case mapped' of
      None \<Rightarrow> src' \<le> dataPosition api input \<and>
        remaining (enc_string16 fmt (utf16 (cstr cam))) (view input) (dataPosition api input) offsets = drop (dataPosition api input) (view input)
    | Some m \<Rightarrow> drop m (view out' @ drop src' (view input)) =
        remaining (enc_string16 fmt (utf16 (cstr cam))) (view input) (dataPosition api input) offsets"
  using assms(2-)
proof (induction offsets arbitrary: src out)
  case Nil
  then show ?case by auto
next
  case (Cons off offsets)
  let ?enc = "enc_string16 fmt (utf16 (cstr cam))" and ?pos = "dataPosition api input" and ?xs = "view input"
  obtain s e where off: "off = (s, e)" by (cases off)
  obtain out2 where g: "src \<le> s" "s < e" "e \<le> length ?xs" and v: "view out2 = view out @ take (s - src) (drop src ?xs) @ ?enc"
    "dataPosition api out2 = length (view out2)"
    and l: "rewriteLoop api input cam offsets e
       (mapped_step ?pos src s e (length (view out)) (length (view out2)) None) out2 = (Some (src', mapped'), out')"
    using rewriteLoop_step [OF assms(1) Cons.prems(1) Cons.prems(2) [unfolded off]] by metis
  have total: "view out' @ drop src' ?xs = view out2 @ replace_at ?enc ?xs e offsets"
    using rewriteLoop_view [OF assms(1) v(2) l g(3)] by simp
  consider (before) "?pos \<le> s" | (inside) "s < ?pos" "?pos < e" | (behind) "e \<le> ?pos" using g(2) by linarith
  then show ?case
  proof cases
    case before
    then have m: "mapped' = Some (length (view out) + (?pos - src))"
      using rewriteLoop_view [OF assms(1) v(2) l g(3)] by (simp add: mapped_step_def)
    have "drop (?pos - src) (take (s - src) (drop src ?xs)) = take (s - ?pos) (drop ?pos ?xs)"
      using Cons.prems(4) before by (simp add: drop_take)
    then show ?thesis
      using before Cons.prems(4) g by (simp add: m total v(1) off)
  next
    case inside
    then have "mapped' = Some (length (view out2))"
      using rewriteLoop_view [OF assms(1) v(2) l g(3)] by (simp add: mapped_step_def)
    then show ?thesis using inside by (simp add: total off)
  next
    case behind
    then have "mapped_step ?pos src s e (length (view out)) (length (view out2)) None = None" using g by (simp add: mapped_step_def)
    then show ?thesis using Cons.IH [OF v(2) _ g(3) behind] l behind g by (simp add: off cong: option.case_cong)
  qed
qed

lemma segments_observed:
  assumes cc: "cursor_contract api view" and q: "view q = H @ K @ new @ B"
    and h: "consumes api view (readAndCheckInterfaceHeader api) H (\<lambda>b. b = ())"
    and k: "consumes api view (readRequestCount api txnCode) K (\<lambda>b. b = n)"
    and rs: "consumes api view (rd_repeat n (observeCaptureRequest api cam)) new (\<lambda>as. length as = n)"
    and bl: "consumes api view (readBool api) B (\<lambda>x. x = b)"
  shows "\<exists>offsets' q'. observeRequestOffsets api txnCode q cam = (Some offsets', q') \<and> length offsets' = n"
proof -
  define q0 where "q0 = setDataPosition api 0 q"
  have q0: "view q0 = H @ K @ new @ B" "dataPosition api q0 = 0" by (simp_all add: q0_def cursorD [OF cc] q)
  obtain q1 where 1: "readAndCheckInterfaceHeader api q0 = (Some (), q1)" "view q1 = view q0" "dataPosition api q1 = length H"
    "drop (dataPosition api q1) (view q1) = K @ new @ B"
    using consumesD [OF h, of q0 "K @ new @ B"] q0 by auto
  obtain q2 where 2: "readRequestCount api txnCode q1 = (Some n, q2)" "view q2 = view q0" "dataPosition api q2 = length H + length K"
    "drop (dataPosition api q2) (view q2) = new @ B"
    using consumesD [OF k 1(4)] 1(2,3) by metis
  obtain os q3 where 3: "rd_repeat n (observeCaptureRequest api cam) q2 = (Some os, q3)" "length os = n" "view q3 = view q0"
    "dataPosition api q3 = length H + length K + length new" "drop (dataPosition api q3) (view q3) = B @ []"
    using consumesD [OF rs 2(4)] 2(2,3) by (metis append_Nil2)
  obtain b' q4 where 4: "readBool api q3 = (Some b', q4)" "view q4 = view q0" "dataPosition api q4 = length H + length K + length new + length B"
    using consumesD [OF bl 3(5)] 3(3,4) by metis
  have "dataPosition api q4 = dataSize api q4" using 4(2,3) q0(1) by (simp add: cursorD [OF cc])
  then have "observeRequestOffsets api txnCode q cam = (Some os, setDataPosition api (dataPosition api q) q4)"
    unfolding observeRequestOffsets_def q0_def [symmetric] Let_def rd_bind_def using 1(1) 2(1) 3(1) 4(1) by simp
  then show ?thesis using 3(2) by simp
qed

lemma observe_again:
  assumes c: "parcel_contract api fmt view" and cam: "request_id cam"
    and o: "observeRequestOffsets api txnCode parcel publicId = (Some offsets, parcel')"
  shows "view parcel' = view parcel \<and> dataPosition api parcel' = dataPosition api parcel \<and>
    (\<forall>q. view q = replace_at (enc_string16 fmt (utf16 cam)) (view parcel) 0 offsets \<longrightarrow>
       (\<exists>offsets' q'. observeRequestOffsets api txnCode q cam = (Some offsets', q') \<and> length offsets' = length offsets))"
proof -
  have r: "read_contract api fmt view" and cc: "cursor_contract api view" using c by (simp_all add: parcel_contract_def)
  define p0 where "p0 = setDataPosition api 0 parcel"
  have p0: "view p0 = view parcel" "dataPosition api p0 = 0" by (simp_all add: p0_def cursorD [OF cc])
  obtain p4 where all: "rd_bind (readAndCheckInterfaceHeader api) (\<lambda>_. rd_bind (readRequestCount api txnCode) (\<lambda>requestCount.
           rd_bind (rd_repeat requestCount (observeCaptureRequest api publicId)) (\<lambda>offsets.
           rd_bind (readBool api) (\<lambda>_ p. (if dataPosition api p = dataSize api p then Some offsets else None, p))))) p0 = (Some offsets, p4)"
    and p4: "parcel' = setDataPosition api (dataPosition api parcel) p4"
    using o unfolding observeRequestOffsets_def Let_def p0_def [symmetric] by (auto split: prod.splits)
  obtain p1 n p2 p3 b where h: "readAndCheckInterfaceHeader api p0 = (Some (), p1)" and k: "readRequestCount api txnCode p1 = (Some n, p2)"
    and rs: "rd_repeat n (observeCaptureRequest api publicId) p2 = (Some offsets, p3)" and bl: "readBool api p3 = (Some b, p4)"
    and fin: "dataPosition api p4 = dataSize api p4"
    using all by (auto elim!: rd_bind_Some split: if_splits)
  obtain H where H: "drop 0 (view parcel) = H @ drop (dataPosition api p1) (view parcel)" "dataPosition api p1 = length H"
    "view p1 = view parcel" "consumes api view (readAndCheckInterfaceHeader api) H (\<lambda>b. b = ())"
    using local_consumes [OF local_parts(1) [OF r] h] p0 by (metis add_0)
  obtain K where K: "drop (dataPosition api p1) (view parcel) = K @ drop (dataPosition api p2) (view parcel)"
    "dataPosition api p2 = dataPosition api p1 + length K"
    "view p2 = view parcel" "consumes api view (readRequestCount api txnCode) K (\<lambda>b. b = n)"
    using local_consumes [OF local_parts(4) [OF r] k] H(3) by metis
  obtain new where N: "replace_at (enc_string16 fmt (utf16 cam)) (view parcel) (dataPosition api p2) offsets =
      new @ drop (dataPosition api p3) (view parcel)"
    "consumes api view (rd_repeat n (observeCaptureRequest api cam)) new (\<lambda>as. length as = n)"
    "length offsets = n" "view p3 = view parcel" "\<forall>(s, e) \<in> set (take 1 offsets). dataPosition api p2 \<le> s"
    using observed_requests [OF c cam rs] K(3) by auto
  obtain B where B: "drop (dataPosition api p3) (view parcel) = B @ drop (dataPosition api p4) (view parcel)"
    "view p4 = view parcel" "consumes api view (readBool api) B (\<lambda>x. x = b)"
    using local_consumes [OF local_reads(3) [OF r] bl] N(4) by metis
  have end4: "drop (dataPosition api p4) (view parcel) = []" using fin B(2) cursorD(1) [OF cc, of p4] by simp
  have "drop 0 (view parcel) = (H @ K) @ drop (0 + length (H @ K)) (view parcel)" using H(1,2) K(1,2) by simp
  then have cells: "replace_at (enc_string16 fmt (utf16 cam)) (view parcel) 0 offsets = H @ K @ new @ B"
    using replace_at_skip [of 0 "view parcel" "H @ K" offsets] N(1,5) H(2) K(2) B(1) end4 by simp
  show ?thesis
    using segments_observed [OF cc _ H(4) K(4) N(2) B(3)] cells p4 B(2) N(3) by (simp add: cursorD [OF cc])
qed

lemma rewriteE:
  assumes "rewriteRequestIds api txnCode input publicId deviceId (Some out0) = (Some n, input', Some out)"
  obtains offsets out1 src mapped out2 out3 where "request_id deviceId"
    "observeRequestOffsets api txnCode input publicId = (Some offsets, input')" "dataPosition api input' \<le> dataSize api input'"
    "setDataSize api 0 (setDataPosition api 0 out0) = (True, out1)"
    "rewriteLoop api input' deviceId offsets 0 None out1 = (Some (src, mapped), out2)"
    "appendFrom api input' src (dataSize api input' - src) out2 = (True, out3)" "n = length offsets"
    "out = setDataPosition api (case mapped of Some m \<Rightarrow> m | None \<Rightarrow> dataSize api out3 - (dataSize api input' - dataPosition api input')) out3"
proof -
  have ok: "request_id deviceId"
    using assms by (auto simp: rewriteRequestIds_def request_id_def list_all_iff not_less split: if_splits)
  obtain r i1 where o: "observeRequestOffsets api txnCode input publicId = (r, i1)" by (cases "observeRequestOffsets api txnCode input publicId")
  obtain ok1 out1 where s: "setDataSize api 0 (setDataPosition api 0 out0) = (ok1, out1)" by (cases "setDataSize api 0 (setDataPosition api 0 out0)")
  note guards = rewriteRequestIds_def option.case prod.case if_False o s
  have "r \<noteq> None" using assms unfolding guards by (cases r) (auto split: if_splits)
  then obtain offsets where r: "r = Some offsets" by blast
  have g: "dataPosition api i1 \<le> dataSize api i1" "ok1" using assms unfolding guards r by (auto split: if_splits)
  obtain l out2 where l: "rewriteLoop api i1 deviceId offsets 0 None out1 = (l, out2)" by (cases "rewriteLoop api i1 deviceId offsets 0 None out1")
  have "l \<noteq> None" using assms g unfolding guards r l by (cases l) (auto split: if_splits)
  then obtain src mapped where lm: "l = Some (src, mapped)" by auto
  obtain ok3 out3 where a: "appendFrom api i1 src (dataSize api i1 - src) out2 = (ok3, out3)" by (cases "appendFrom api i1 src (dataSize api i1 - src) out2")
  have "ok3" "i1 = input'" "n = length offsets"
    "out = setDataPosition api (case mapped of Some m \<Rightarrow> m | None \<Rightarrow> dataSize api out3 - (dataSize api i1 - dataPosition api i1)) out3"
    using assms g unfolding guards r l lm a Let_def by (auto split: if_splits)
  then show thesis using that [of offsets out1 src mapped out2 out3] ok o s r g l lm a by (simp cong: option.case_cong)
qed

lemma rewritten_batch:
  assumes c: "parcel_contract api fmt view" and nul: "CHR 0x00 \<notin> set deviceId"
    and rw: "rewriteRequestIds api txnCode input publicId deviceId (Some out0) = (Some n, input', Some out)"
  shows "\<exists>offsets. observeRequestOffsets api txnCode input publicId = (Some offsets, input') \<and> length offsets = n \<and>
    view input' = view input \<and> dataPosition api input' = dataPosition api input \<and>
    view out = replace_at (enc_string16 fmt (utf16 deviceId)) (view input) 0 offsets \<and>
    drop (dataPosition api out) (view out) = remaining (enc_string16 fmt (utf16 deviceId)) (view input) (dataPosition api input) offsets \<and>
    (\<exists>offsets' out'. observeRequestOffsets api txnCode out deviceId = (Some offsets', out') \<and> length offsets' = n)"
proof -
  have cc: "cursor_contract api view" using c by (simp add: parcel_contract_def)
  obtain offsets out1 src mapped out2 out3 where id: "request_id deviceId"
    and o: "observeRequestOffsets api txnCode input publicId = (Some offsets, input')" and p: "dataPosition api input' \<le> dataSize api input'"
    and s: "setDataSize api 0 (setDataPosition api 0 out0) = (True, out1)"
    and l: "rewriteLoop api input' deviceId offsets 0 None out1 = (Some (src, mapped), out2)"
    and a: "appendFrom api input' src (dataSize api input' - src) out2 = (True, out3)" and n: "n = length offsets"
    and out: "out = setDataPosition api (case mapped of Some m \<Rightarrow> m | None \<Rightarrow> dataSize api out3 - (dataSize api input' - dataPosition api input')) out3"
    using rewriteE [OF rw] by metis
  note again = observe_again [OF c id o]
  have d: "cstr deviceId = deviceId" by (rule cstr_id [OF nul])
  have out1: "view out1 = []" "dataPosition api out1 = length (view out1)" using setDataSizeD [OF cc s] by simp_all
  note v = rewriteLoop_view [OF c out1(2) l le0, unfolded d]
  note m = rewriteLoop_cursor [OF c out1(2) l le0 le0, unfolded d]
  have src: "src \<le> length (view input')" and end2: "dataPosition api out2 = length (view out2)" using v by simp_all
  have v3: "view out3 = view out2 @ drop src (view input')"
    using appendFromD [OF cc end2 _ a] src by (simp add: cursorD [OF cc])
  then have vout: "view out = replace_at (enc_string16 fmt (utf16 deviceId)) (view input') 0 offsets"
    using v out1 by (simp add: out cursorD [OF cc])
  have "drop (dataPosition api out) (view out) = remaining (enc_string16 fmt (utf16 deviceId)) (view input') (dataPosition api input') offsets"
    using m p src v3 by (cases mapped) (auto simp: out cursorD [OF cc])
  then show ?thesis using o n again vout by auto
qed

lemma wrapped_reply:
  assumes c: "parcel_contract api fmt view"
    and w: "wrapAndroid14CameraDeviceUserReply api wrapper (Some reply) publicId deviceId st = (kDeviceWrapped, reply', st')"
  shows "\<exists>serviceStatus device q1 q2 r. readStatus api (setDataPosition api 0 reply) = (Some serviceStatus, q1) \<and> statusIsOk api serviceStatus \<and>
    readStrongBinder api q1 = (Some (Some device), q2) \<and> dataPosition api q2 = dataSize api q2 \<and>
    reply' = Some r \<and> view r = enc_status fmt serviceStatus @ enc_binder fmt wrapper \<and> dataPosition api r = 0 \<and>
    st' = st\<lparr>gDeviceUserWrappers := gDeviceUserWrappers st + 1,
       deviceUsers := (deviceUsers st)(wrapper \<mapsto> (device, publicId, deviceId))\<rparr>"
proof -
  have cc: "cursor_contract api view" and wc: "write_contract api fmt view" using c by (simp_all add: parcel_contract_def)
  obtain s q1 where s: "readStatus api (setDataPosition api 0 reply) = (s, q1)" by (cases "readStatus api (setDataPosition api 0 reply)")
  note steps = wrapAndroid14CameraDeviceUserReply_def option.case Let_def s prod.case
  have "s \<noteq> None" using w unfolding steps by (cases s) (auto split: if_splits)
  then obtain sv where sv: "s = Some sv" by blast
  obtain b q2 where b: "readStrongBinder api q1 = (b, q2)" by (cases "readStrongBinder api q1")
  have "b \<noteq> None \<and> b \<noteq> Some None" using w unfolding steps sv b by (intro conjI notI) (auto split: if_splits)
  then obtain d where d: "b = Some (Some d)" by (cases b; cases "the b") simp_all
  obtain ok3 r3 where a3: "wr_then (writeStatus api sv) (writeStrongBinder api wrapper) (newParcel api) = (ok3, r3)"
    by (cases "wr_then (writeStatus api sv) (writeStrongBinder api wrapper) (newParcel api)")
  obtain ok4 r4 where a4: "appendFrom api r3 0 (dataSize api r3) (freeData api q2) = (ok4, r4)"
    by (cases "appendFrom api r3 0 (dataSize api r3) (freeData api q2)")
  have ok: "statusIsOk api sv \<and> dataPosition api q2 = dataSize api q2 \<and> ok3 \<and> ok4 \<and> reply' = Some (setDataPosition api 0 r4) \<and>
    st' = st\<lparr>gDeviceUserWrappers := gDeviceUserWrappers st + 1,
       deviceUsers := (deviceUsers st)(wrapper \<mapsto> (d, publicId, deviceId))\<rparr>"
    using w unfolding steps sv b d a3 a4 by (simp split: if_splits)
  have "view r3 = enc_status fmt sv @ enc_binder fmt wrapper"
    using appendsD [OF appends_then [OF write_appends(5) [OF wc] write_appends(4) [OF wc]], of "newParcel api"] a3 ok
    by (auto simp: cursorD [OF cc])
  moreover have "appendFrom api r3 0 (dataSize api r3) (freeData api q2) = (True, r4)" using a4 ok by simp
  from appendFromD [OF cc _ _ this] have "view r4 = view r3" by (simp add: cursorD [OF cc])
  ultimately have "view r4 = enc_status fmt sv @ enc_binder fmt wrapper" by simp
  then show ?thesis using s sv b d ok by (auto simp: cursorD [OF cc])
qed

lemma unwrapped_reply:
  assumes c: "parcel_contract api fmt view"
    and w: "wrapAndroid14CameraDeviceUserReply api wrapper (Some reply) publicId deviceId st = (result, reply', st')"
    and n: "result \<noteq> kDeviceWrapped" "result \<noteq> kDeviceWriteFailed"
  shows "st' = st \<and> (\<exists>r. reply' = Some r \<and> view r = view reply \<and> dataPosition api r = dataPosition api reply)"
proof -
  have cc: "cursor_contract api view" and rc: "read_contract api fmt view" using c by (simp_all add: parcel_contract_def)
  obtain s q1 where s: "readStatus api (setDataPosition api 0 reply) = (s, q1)" by (cases "readStatus api (setDataPosition api 0 reply)")
  obtain b q2 where b: "readStrongBinder api q1 = (b, q2)" by (cases "readStrongBinder api q1")
  have v: "view q1 = view reply" "view q2 = view reply"
    using readsD(1) [OF read_reads(10) [OF rc] s] readsD(1) [OF read_reads(7) [OF rc] b] by (simp_all add: cursorD [OF cc])
  note steps = w [unfolded wrapAndroid14CameraDeviceUserReply_def option.case Let_def s prod.case]
  consider (none) "s = None" | (unread) sv where "s = Some sv" "b = None \<or> b = Some None" | (read) sv d where "s = Some sv" "b = Some (Some d)"
    by (cases s; cases b) auto
  then show ?thesis
  proof cases
    case none
    then show ?thesis using steps v(1) by (auto simp: cursorD [OF cc] split: if_splits)
  next
    case unread
    then show ?thesis using steps v by (auto simp: b cursorD [OF cc] split: if_splits)
  next
    case read
    then show ?thesis
      using steps n v by (simp add: b split: if_splits prod.splits) (auto simp: cursorD [OF cc])
  qed
qed

section \<open>Properties\<close>

text \<open>
  C36. When the delegator rewrites a batch of capture requests, the client's parcel is left as
  it was, the new parcel is the client's with exactly the encodings of the camera ids exchanged,
  its cursor stands in front of the same (rewritten) rest, and the new parcel decodes as a batch
  of as many requests that all carry the device's id.
\<close>
theorem rewritten_batch_reobserved:
  assumes "parcel_contract api fmt view" and "CHR 0x00 \<notin> set deviceId"
    and "rewriteRequestIds api txnCode input publicId deviceId (Some out0) = (Some n, input', Some out)"
  shows "\<exists>offsets. observeRequestOffsets api txnCode input publicId = (Some offsets, input') \<and> length offsets = n \<and>
    view input' = view input \<and> dataPosition api input' = dataPosition api input \<and>
    view out = replace_at (enc_string16 fmt (utf16 deviceId)) (view input) 0 offsets \<and>
    drop (dataPosition api out) (view out) = remaining (enc_string16 fmt (utf16 deviceId)) (view input) (dataPosition api input) offsets \<and>
    (\<exists>offsets' out'. observeRequestOffsets api txnCode out deviceId = (Some offsets', out') \<and> length offsets' = n)"
  using assms by (rule rewritten_batch)


section \<open>Witnesses\<close>

text \<open>A submitted request for the camera 0, and the reply that handed out its device.\<close>

definition exampleBatch :: flat_parcel where
  "exampleBatch = \<lparr>cells = [Int32 0, Int32 0, Int32 expectedHeader, Str16 (Some kDeviceUserDescriptor), Int32 1, Int32 1,
     Str16 (Some (utf16 ''0'')), Int32 0, Int32 0, Int32 0, Int32 0, Int32 0, Int32 1], cursor = 0\<rparr>"

lemma example_rewrite:
  "rewriteRequestIds flatApi kSubmitRequestCode exampleBatch ''0'' ''1000'' (Some (newParcel flatApi)) =
     (Some 1, exampleBatch, Some (exampleBatch\<lparr>cells := (cells exampleBatch)[6 := Str16 (Some (utf16 ''1000''))]\<rparr>))"
  by code_simp

theorem rewritten_batch_reobserved_witness:
  "\<exists>offsets' out'. observeRequestOffsets flatApi kSubmitRequestCode
     (exampleBatch\<lparr>cells := (cells exampleBatch)[6 := Str16 (Some (utf16 ''1000''))]\<rparr>) ''1000'' = (Some offsets', out') \<and> length offsets' = 1"
  using rewritten_batch_reobserved [OF flat_contract _ example_rewrite] by auto

definition noDevices :: "nat DeviceUserState" where
  "noDevices = \<lparr>gDeviceUserWrappers = 0, gRequestBatchesRewritten = 0, gRequestsRewritten = 0, gRequestBatchesSkipped = 0,
     deviceUsers = (\<lambda>_. None)\<rparr>"

lemma example_wrap:
  "wrapAndroid14CameraDeviceUserReply flatApi 9 (Some \<lparr>cells = [Stat 0, Binder (Some 5)], cursor = 1\<rparr>) ''0'' ''1000'' noDevices =
     (kDeviceWrapped, Some \<lparr>cells = [Stat 0, Binder (Some 9)], cursor = 0\<rparr>,
      noDevices\<lparr>gDeviceUserWrappers := 1, deviceUsers := [9 \<mapsto> (5, ''0'', ''1000'')]\<rparr>)"
  by (simp add: wrapAndroid14CameraDeviceUserReply_def flatApi_def flat_read_def one_cell_def wr_then_def flat_write_def noDevices_def)


end
