(* ===== verification/Parcel_Rewriter.thy ===== *)
theory Parcel_Rewriter
  imports Parcel_Observer
begin

text \<open>
  The rewriter of the camera id in a request parcel,
  \<open>src/runtime/platform/Android14CameraIdRewriter.cpp\<close>.  The lemmas show that the output is
  the input with the encoding of the id replaced, and that observing the output gives the
  replacement with everything else unchanged.
\<close>

section \<open>Definitions\<close>

datatype CameraIdRewriteStatus = kRewritten | kNotEligible | kInvalidOffsets | kInvalidReplacement | kCopyFailed | kWriteFailed

text \<open>The accumulator is checked after each digit, so it stays far below the 64-bit range.\<close>

fun nonNegativeLoop :: "nat \<Rightarrow> string \<Rightarrow> nat option" where
  "nonNegativeLoop result [] = Some result"
| "nonNegativeLoop result (c # rest) =
     (if Text_Parsing.code c < 48 \<or> 57 < Text_Parsing.code c then None
      else let result = result * 10 + (Text_Parsing.code c - 48)
        in if result > 2147483647 then None else nonNegativeLoop result rest)"

definition parseNonNegativeInteger :: "string \<Rightarrow> int option" where
  "parseNonNegativeInteger v = (if v = [] then None else map_option int (nonNegativeLoop 0 v))"

definition isAscii :: "string \<Rightarrow> bool" where
  "isAscii v \<longleftrightarrow> \<not> (v = [] \<or> length v > 255) \<and> list_all (\<lambda>c. Text_Parsing.code c \<le> 0x7f) v"

definition appendRange :: "('p, 'b, 's) ParcelApi \<Rightarrow> 'p \<Rightarrow> nat \<Rightarrow> nat \<Rightarrow> 'p \<Rightarrow> bool \<times> 'p" where
  "appendRange api input offset len out = (if len = 0 then (True, out) else appendFrom api input offset len out)"

definition remapDataPosition :: "nat \<Rightarrow> nat \<Rightarrow> nat \<Rightarrow> nat \<Rightarrow> nat" where
  "remapDataPosition originalPosition originalStart originalEnd replacementEnd =
     (if originalPosition \<le> originalStart then originalPosition
      else if originalPosition < originalEnd then replacementEnd
      else replacementEnd + (originalPosition - originalEnd))"

definition rewriteAndroid14CameraId ::
  "('p, 'b, 's) ParcelApi \<Rightarrow> ParcelObservation \<Rightarrow> string \<Rightarrow> 'p \<Rightarrow> 'p OutputParcel \<Rightarrow>
   CameraIdRewriteStatus \<times> 'p OutputParcel" where
  "rewriteAndroid14CameraId api observation replacementCameraId input output =
     (case output of
        NullOutput \<Rightarrow> (kNotEligible, output)
      | SameAsInput \<Rightarrow> (kNotEligible, output)
      | Separate out \<Rightarrow>
     if status observation \<noteq> kObserved \<or> \<not> cameraScoped (transaction observation) \<or> cameraId observation = [] then
       (kNotEligible, output)
     else if cameraIdStart observation \<ge> cameraIdEnd observation \<or> cameraIdEnd observation > dataSize api input then
       (kInvalidOffsets, output)
     else if \<not> isAscii replacementCameraId then (kInvalidReplacement, output)
     else let shape = payloadShape (transaction observation) in
       if shape \<noteq> kConnectDevice \<and> shape \<noteq> kStringCameraId \<and> shape \<noteq> kConnectApi1 \<and> shape \<noteq> kIntegerCameraId then
         (kNotEligible, output)
       else case setDataSize api 0 (setDataPosition api 0 out) of (ok, o1) \<Rightarrow>
         if \<not> ok then (kCopyFailed, Separate o1)
         else case appendRange api input 0 (cameraIdStart observation) o1 of (ok, o2) \<Rightarrow>
           if \<not> ok then (kCopyFailed, Separate o2)
           else
             case (if shape = kConnectDevice \<or> shape = kStringCameraId then
                     Some (writeString16 api (utf16 (cstr replacementCameraId)) o2)
                   else map_option (\<lambda>v. writeInt32 api v o2) (parseNonNegativeInteger replacementCameraId)) of
               None \<Rightarrow> (kInvalidReplacement, Separate o2)
             | Some (ok, o3) \<Rightarrow>
               if \<not> ok then (kWriteFailed, Separate o3)
               else let replacementEnd = dataPosition api o3 in
                 case appendRange api input (cameraIdEnd observation)
                        (dataSize api input - cameraIdEnd observation) o3 of (ok, o4) \<Rightarrow>
                   if \<not> ok then (kCopyFailed, Separate o4)
                   else let remappedPosition = remapDataPosition (initialDataPosition observation)
                              (cameraIdStart observation) (cameraIdEnd observation) replacementEnd in
                     if remappedPosition > dataSize api o4 then (kWriteFailed, Separate o4)
                     else (kRewritten, Separate (setDataPosition api remappedPosition o4)))"

fun cameraIdRewriteStatusName :: "CameraIdRewriteStatus \<Rightarrow> string" where
  "cameraIdRewriteStatusName kRewritten = ''rewritten''"
| "cameraIdRewriteStatusName kNotEligible = ''not_eligible''"
| "cameraIdRewriteStatusName kInvalidOffsets = ''invalid_offsets''"
| "cameraIdRewriteStatusName kInvalidReplacement = ''invalid_replacement''"
| "cameraIdRewriteStatusName kCopyFailed = ''copy_failed''"
| "cameraIdRewriteStatusName kWriteFailed = ''write_failed''"

section \<open>Splicing the layout\<close>

lemma header_delimiting:
  assumes c: "read_contract api fmt view"
  shows "self_delimiting (dec_header fmt d)"
  unfolding dec_header_def using c
  by (intro delimiting_bind delimiting_check inplace_delimiting [OF c]) (simp_all add: read_contract_def)

lemma prefix_delimiting: "read_contract api fmt view \<Longrightarrow> self_delimiting (layout_prefix fmt shape)"
  unfolding layout_prefix_def
  by (auto intro!: delimiting_intros header_delimiting simp: read_contract_def)

lemma ascii_delimiting: "read_contract api fmt view \<Longrightarrow> self_delimiting (dec_ascii fmt)"
  unfolding dec_ascii_def by (intro delimiting_intros)

lemma id_delimiting: "read_contract api fmt view \<Longrightarrow> self_delimiting (layout_id fmt shape)"
  unfolding layout_id_def dec_camera_int_def
  by (auto intro!: delimiting_intros ascii_delimiting simp: read_contract_def)

lemma request_layoutE:
  assumes "request_layout fmt shape xs = Some (i, start, limit, pkg)"
  obtains n k where "layout_prefix fmt shape xs = Some ((), start)" "layout_id fmt shape (drop start xs) = Some (i, n)"
    "limit = start + n" "layout_package fmt shape (drop limit xs) = Some (pkg, k)"
  using assms by (auto simp: request_layout_def split: option.split_asm)

text \<open>Replacing the encoding of the id by another one changes only the id in the layout.\<close>

lemma request_layout_splice:
  assumes c: "read_contract api fmt view"
    and l: "request_layout fmt shape xs = Some (i, start, limit, pkg)"
    and new: "\<And>ys. layout_id fmt shape (enc @ ys) = Some (j, length enc)"
  shows "request_layout fmt shape (take start xs @ enc @ drop limit xs) = Some (j, start, start + length enc, pkg)"
proof -
  obtain n k where lay: "layout_prefix fmt shape xs = Some ((), start)"
    "limit = start + n" "layout_package fmt shape (drop limit xs) = Some (pkg, k)"
    using l by (rule request_layoutE)
  note p = self_delimitingD [OF prefix_delimiting [OF c] lay(1), of "enc @ drop limit xs"]
  then have "length (take start xs) = start" by simp
  then have "drop start (take start xs @ enc @ drop limit xs) = enc @ drop limit xs"
    "drop (start + length enc) (take start xs @ enc @ drop limit xs) = drop limit xs"
    by simp_all
  then show ?thesis
    using p new lay(3) by (simp add: request_layout_def)
qed

section \<open>The output of the rewriter\<close>

text \<open>The encoding the rewriter writes and the id an observer reads back.\<close>

definition encoded_id :: "('c, 'b, 's) ParcelFormat \<Rightarrow> BinderPayloadShape \<Rightarrow> string \<Rightarrow> 'c list" where
  "encoded_id fmt shape v =
     (if string_id shape then enc_string16 fmt (utf16 (cstr v))
      else enc_int32 fmt (the (parseNonNegativeInteger v)))"

definition shown_id :: "BinderPayloadShape \<Rightarrow> string \<Rightarrow> string" where
  "shown_id shape v =
     (if string_id shape then cstr v else toString (nat (the (parseNonNegativeInteger v))))"

lemma appendRange_view:
  assumes "cursor_contract api view" "dataPosition api p = length (view p)" "off + len \<le> length (view src)"
    and "appendRange api src off len p = (True, p')"
  shows "view p' = view p @ take len (drop off (view src)) \<and> dataPosition api p' = length (view p')"
proof (cases "len = 0")
  case True
  then show ?thesis using assms by (simp add: appendRange_def)
next
  case False
  then have "appendFrom api src off len p = (True, p')" using assms(4) by (simp add: appendRange_def)
  then show ?thesis using assms(1-3) unfolding cursor_contract_def by blast
qed

lemma parse_nonneg: "parseNonNegativeInteger v = Some n \<Longrightarrow> 0 \<le> n"
  by (auto simp: parseNonNegativeInteger_def split: if_splits)

lemma isAscii_utf16: "isAscii v \<Longrightarrow> is_ascii16 255 (utf16 (cstr v))"
proof -
  assume a: "isAscii v"
  have "(of_char c :: uint16) \<le> 0x7f" if "c \<in> set (cstr v)" for c
  proof -
    have "c \<in> set v" using that unfolding cstr_def by (rule set_takeWhileD [THEN conjunct1])
    then have "Text_Parsing.code c \<le> 0x7f" using a by (simp add: isAscii_def list_all_iff)
    then show ?thesis by (simp only: word_le_nat_alt unat_of_char16) simp
  qed
  moreover have "length (cstr v) \<le> 255"
    using a length_takeWhile_le [of "\<lambda>c. c \<noteq> CHR 0x00" v] by (simp add: isAscii_def cstr_def)
  ultimately show ?thesis by (simp add: is_ascii16_def list_all_iff utf16_def)
qed

lemma encoded_id_decodes:
  assumes c: "write_contract api fmt view" and v: "isAscii v"
    and "string_id shape \<or> parseNonNegativeInteger v \<noteq> None"
  shows "layout_id fmt shape (encoded_id fmt shape v @ ys) = Some (shown_id shape v, length (encoded_id fmt shape v))"
proof (cases "string_id shape")
  case True
  have "inverts (dec_string16 fmt) (enc_string16 fmt) Some" using c by (simp add: write_contract_def)
  then have "dec_inplace fmt (enc_string16 fmt s @ ys) = Some (s, length (enc_string16 fmt s))" for s
    by (simp add: inverts_def dec_inplace_def)
  then show ?thesis
    using True isAscii_utf16 [OF v]
    by (simp add: layout_id_def encoded_id_def shown_id_def dec_ascii_def dec_bind_def dec_check_def dec_return_def asciiChar_utf16)
next
  case False
  then obtain n where n: "parseNonNegativeInteger v = Some n" using assms(3) by blast
  have "inverts (dec_int32 fmt) (enc_int32 fmt) (\<lambda>v. v)" using c by (simp add: write_contract_def)
  then show ?thesis
    using False n parse_nonneg [OF n]
    by (simp add: layout_id_def encoded_id_def shown_id_def dec_camera_int_def dec_bind_def dec_check_def dec_return_def inverts_def)
qed

definition eligible :: "('p, 'b, 's) ParcelApi \<Rightarrow> ParcelObservation \<Rightarrow> string \<Rightarrow> 'p \<Rightarrow> bool" where
  "eligible api obs v input \<longleftrightarrow> status obs = kObserved \<and> cameraScoped (transaction obs) \<and> cameraId obs \<noteq> [] \<and>
     cameraIdStart obs < cameraIdEnd obs \<and> cameraIdEnd obs \<le> dataSize api input \<and> isAscii v \<and>
     (string_id (payloadShape (transaction obs)) \<or> integer_id (payloadShape (transaction obs)))"

definition write_id :: "('p, 'b, 's) ParcelApi \<Rightarrow> BinderPayloadShape \<Rightarrow> string \<Rightarrow> 'p \<Rightarrow> (bool \<times> 'p) option" where
  "write_id api shape v o2 = (if string_id shape then Some (writeString16 api (utf16 (cstr v)) o2)
     else map_option (\<lambda>n. writeInt32 api n o2) (parseNonNegativeInteger v))"

lemma rewrite_eligible:
  assumes "eligible api obs v input"
  shows "rewriteAndroid14CameraId api obs v input (Separate out) =
    (case setDataSize api 0 (setDataPosition api 0 out) of (ok, o1) \<Rightarrow>
       if \<not> ok then (kCopyFailed, Separate o1)
       else case appendRange api input 0 (cameraIdStart obs) o1 of (ok, o2) \<Rightarrow>
         if \<not> ok then (kCopyFailed, Separate o2)
         else case write_id api (payloadShape (transaction obs)) v o2 of
           None \<Rightarrow> (kInvalidReplacement, Separate o2)
         | Some (ok, o3) \<Rightarrow>
           if \<not> ok then (kWriteFailed, Separate o3)
           else case appendRange api input (cameraIdEnd obs) (dataSize api input - cameraIdEnd obs) o3 of (ok, o4) \<Rightarrow>
             if \<not> ok then (kCopyFailed, Separate o4)
             else let remapped = remapDataPosition (initialDataPosition obs) (cameraIdStart obs) (cameraIdEnd obs)
                    (dataPosition api o3) in
               if remapped > dataSize api o4 then (kWriteFailed, Separate o4)
               else (kRewritten, Separate (setDataPosition api remapped o4)))"
proof -
  have "\<not> (payloadShape (transaction obs) \<noteq> kConnectDevice \<and> payloadShape (transaction obs) \<noteq> kStringCameraId \<and>
      payloadShape (transaction obs) \<noteq> kConnectApi1 \<and> payloadShape (transaction obs) \<noteq> kIntegerCameraId)"
    using assms by (auto simp: eligible_def string_id_def integer_id_def)
  moreover have "\<not> (status obs \<noteq> kObserved \<or> \<not> cameraScoped (transaction obs) \<or> cameraId obs = [])"
    "\<not> (cameraIdStart obs \<ge> cameraIdEnd obs \<or> cameraIdEnd obs > dataSize api input)" "\<not> \<not> isAscii v"
    using assms by (auto simp: eligible_def)
  ultimately show ?thesis
    unfolding rewriteAndroid14CameraId_def write_id_def string_id_def Let_def OutputParcel.case by (simp only: if_False)
qed

lemma rewrite_not_eligible:
  assumes "\<not> eligible api obs v input"
  shows "fst (rewriteAndroid14CameraId api obs v input (Separate out)) \<noteq> kRewritten"
proof -
  let ?A = "status obs \<noteq> kObserved \<or> \<not> cameraScoped (transaction obs) \<or> cameraId obs = []"
  let ?B = "cameraIdStart obs \<ge> cameraIdEnd obs \<or> cameraIdEnd obs > dataSize api input"
  let ?D = "payloadShape (transaction obs) \<noteq> kConnectDevice \<and> payloadShape (transaction obs) \<noteq> kStringCameraId \<and>
      payloadShape (transaction obs) \<noteq> kConnectApi1 \<and> payloadShape (transaction obs) \<noteq> kIntegerCameraId"
  have "?A \<or> ?B \<or> \<not> isAscii v \<or> ?D"
    using assms by (auto simp: eligible_def string_id_def integer_id_def not_less not_le)
  then consider ?A | "\<not> ?A" ?B | "\<not> ?A" "\<not> ?B" "\<not> isAscii v" | "\<not> ?A" "\<not> ?B" "\<not> \<not> isAscii v" ?D by blast
  then show ?thesis
    unfolding rewriteAndroid14CameraId_def OutputParcel.case Let_def
    by cases (simp_all only: if_True if_False fst_conv CameraIdRewriteStatus.distinct not_False_eq_True simp_thms)
qed

lemma writesD:
  "writes api view wr enc \<Longrightarrow> dataPosition api p = length (view p) \<Longrightarrow> wr v p = (True, p') \<Longrightarrow>
   view p' = view p @ enc v \<and> dataPosition api p' = length (view p')"
  unfolding writes_def by blast

lemma write_id_view:
  assumes wc: "write_contract api fmt view" and p: "dataPosition api p = length (view p)"
    and w: "write_id api shape v p = Some (True, p')"
  shows "view p' = view p @ encoded_id fmt shape v \<and> dataPosition api p' = length (view p')"
proof (cases "string_id shape")
  case True
  have "writes api view (writeString16 api) (enc_string16 fmt)" using wc by (simp only: write_contract_def)
  from writesD [OF this p] show ?thesis using w True by (simp add: write_id_def encoded_id_def)
next
  case False
  have "writes api view (writeInt32 api) (enc_int32 fmt)" using wc by (simp only: write_contract_def)
  from writesD [OF this p] show ?thesis using w False by (auto simp: write_id_def encoded_id_def)
qed

lemma rewritten_view:
  assumes cc: "cursor_contract api view" and wc: "write_contract api fmt view"
    and lim: "cameraIdEnd obs \<le> length (view input)"
    and rw: "rewriteAndroid14CameraId api obs v input (Separate out) = (kRewritten, result)"
  obtains out' where "result = Separate out'" "eligible api obs v input" "string_id (payloadShape (transaction obs)) \<or> parseNonNegativeInteger v \<noteq> None"
    "view out' = take (cameraIdStart obs) (view input) @ encoded_id fmt (payloadShape (transaction obs)) v @
       drop (cameraIdEnd obs) (view input)"
    "dataPosition api out' = remapDataPosition (initialDataPosition obs) (cameraIdStart obs) (cameraIdEnd obs)
       (cameraIdStart obs + length (encoded_id fmt (payloadShape (transaction obs)) v))"
proof -
  let ?shape = "payloadShape (transaction obs)"
  have ok: "eligible api obs v input"
    using rewrite_not_eligible [of api obs v input out] rw by auto
  then have order: "cameraIdStart obs < cameraIdEnd obs" by (simp add: eligible_def)
  note peel = rw [unfolded rewrite_eligible [OF ok]]
  obtain k1 o1 where o1: "setDataSize api 0 (setDataPosition api 0 out) = (k1, o1)"
    by (cases "setDataSize api 0 (setDataPosition api 0 out)")
  obtain k2 o2 where o2: "appendRange api input 0 (cameraIdStart obs) o1 = (k2, o2)"
    by (cases "appendRange api input 0 (cameraIdStart obs) o1")
  have k12: "k1" "k2" using peel o1 o2 by (cases k1; cases k2; simp)+
  have "write_id api ?shape v o2 \<noteq> None"
    using peel o1 o2 k12 by (cases "write_id api ?shape v o2") simp_all
  then obtain k3 o3 where o3: "write_id api ?shape v o2 = Some (k3, o3)" by (metis option.exhaust surj_pair)
  obtain k4 o4 where o4: "appendRange api input (cameraIdEnd obs) (dataSize api input - cameraIdEnd obs) o3 = (k4, o4)"
    by (cases "appendRange api input (cameraIdEnd obs) (dataSize api input - cameraIdEnd obs) o3")
  have k34: "k3" "k4" and res: "result = Separate (setDataPosition api (remapDataPosition (initialDataPosition obs)
      (cameraIdStart obs) (cameraIdEnd obs) (dataPosition api o3)) o4)"
    using peel o1 o2 k12 o3 o4 by (cases k3; cases k4; simp add: Let_def split: if_split_asm)+
  note o1 = o1 [simplified k12] and o2 = o2 [simplified k12] and o3 = o3 [simplified k34] and o4 = o4 [simplified k34]
  have size: "dataSize api input = length (view input)" and
    v1: "view o1 = []" "dataPosition api o1 = 0"
    using cc o1 unfolding cursor_contract_def by blast+
  have v2: "view o2 = take (cameraIdStart obs) (view input)" "dataPosition api o2 = length (view o2)"
    using appendRange_view [OF cc _ _ o2] v1 order lim by simp_all
  note v3 = write_id_view [OF wc v2(2) o3]
  have v4: "view o4 = view o3 @ drop (cameraIdEnd obs) (view input)"
    using appendRange_view [OF cc _ _ o4] v3 lim by (simp add: size)
  have "length (view o2) = cameraIdStart obs" using v2(1) order lim by simp
  then have "dataPosition api o3 = cameraIdStart obs + length (encoded_id fmt ?shape v)" using v3 by simp
  moreover have "string_id ?shape \<or> parseNonNegativeInteger v \<noteq> None" using o3 by (auto simp: write_id_def split: if_splits)
  ultimately show ?thesis
    using that [OF res ok] v2(1) v3 v4 cursor_restored [OF cc] by simp
qed

text \<open>An observed camera id lies within the data.\<close>

lemma layout_bounds:
  assumes c: "read_contract api fmt view" and l: "request_layout fmt shape xs = Some (i, start, limit, pkg)"
  shows "start \<le> limit \<and> limit \<le> length xs"
proof -
  obtain n where n: "layout_prefix fmt shape xs = Some ((), start)" "layout_id fmt shape (drop start xs) = Some (i, n)"
    "limit = start + n"
    using l by (rule request_layoutE)
  have "start \<le> length xs" using self_delimitingD [OF prefix_delimiting [OF c] n(1)] by simp
  moreover have "n \<le> length (drop start xs)" using self_delimitingD [OF id_delimiting [OF c] n(2)] by blast
  ultimately show ?thesis using n(3) by simp
qed

lemma observed_layout:
  assumes c: "cursor_contract api view" "read_contract api fmt view"
    and run: "observeAndroid14CameraServiceParcel api uid pid abi txnCode (Some p) = (obs, q)"
    and shape: "string_id (payloadShape (classifyBinderTransaction abi txnCode)) \<or>
      integer_id (payloadShape (classifyBinderTransaction abi txnCode))"
    and "status obs = kObserved"
  obtains i start limit pkg
  where "request_layout fmt (payloadShape (classifyBinderTransaction abi txnCode)) (view p) = Some (i, start, limit, pkg)"
    "obs = observed_as uid pid (classifyBinderTransaction abi txnCode) (dataPosition api p) (i, start, limit, pkg)"
  using observe_layout [OF c shape run] assms(5)
  by (cases "request_layout fmt (payloadShape (classifyBinderTransaction abi txnCode)) (view p)") auto

lemma camera_id_scoped:
  "string_id (payloadShape (classifyBinderTransaction abi txnCode)) \<or>
   integer_id (payloadShape (classifyBinderTransaction abi txnCode)) \<Longrightarrow>
   cameraScoped (classifyBinderTransaction abi txnCode)"
  by (auto simp: classifyBinderTransaction_def scoped_shapes string_id_def integer_id_def unclassified_def split: option.splits)

lemma observePayload_transaction: "transaction (fst (snd (observePayload api r p))) = transaction r"
proof -
  obtain ok r' p' where run: "observePayload api r p = (ok, r', p')" by (cases "observePayload api r p")
  show ?thesis using arg_cong [where f = transaction, OF observePayload_frame [OF run]] run by simp
qed

lemma observed_transaction:
  "transaction (fst (observeAndroid14CameraServiceParcel api uid pid abi txnCode (Some p))) =
     classifyBinderTransaction abi txnCode"
proof -
  let ?r = "emptyObservation\<lparr>transaction := classifyBinderTransaction abi txnCode, initialDataPosition := dataPosition api p,
      callingUid := uid, callingPid := pid\<rparr>"
  obtain h p1 where h: "readAndCheckHeader api (setDataPosition api 0 p) = (h, p1)"
    by (cases "readAndCheckHeader api (setDataPosition api 0 p)")
  obtain ok r2 p2 where pl: "observePayload api ?r p1 = (ok, r2, p2)" by (cases "observePayload api ?r p1")
  show ?thesis
    using h pl observePayload_transaction [of api ?r p1] by (simp add: observeAndroid14CameraServiceParcel_def Let_def)
qed

text \<open>The remapped cursor stays within the rewritten data.\<close>

lemma remap_bound:
  assumes "position \<le> len" "start < limit" "limit \<le> len"
  shows "remapDataPosition position start limit (start + k) \<le> start + k + (len - limit)"
  using assms by (cases "position \<le> start"; cases "position < limit"; simp add: remapDataPosition_def)

lemma appendRange_ok: "never_fails api \<Longrightarrow> \<exists>p'. appendRange api src off len p = (True, p')"
  unfolding never_fails_def appendRange_def by (metis (full_types) prod.collapse)

lemma write_id_ok:
  assumes "never_fails api" "string_id shape \<or> parseNonNegativeInteger v \<noteq> None"
  shows "\<exists>p'. write_id api shape v p = Some (True, p')"
proof -
  have "\<exists>p'. writeString16 api x p = (True, p')" "\<exists>p'. writeInt32 api y p = (True, p')" for x y
    using assms(1) unfolding never_fails_def by (metis (full_types) prod.collapse)+
  then show ?thesis using assms(2) by (cases "string_id shape") (auto simp: write_id_def)
qed

lemma eligible_rewritten:
  assumes cc: "cursor_contract api view" and wc: "write_contract api fmt view" and nf: "never_fails api"
    and e: "eligible api obs v input" and v: "string_id (payloadShape (transaction obs)) \<or> parseNonNegativeInteger v \<noteq> None"
    and pos: "initialDataPosition obs \<le> length (view input)"
  shows "\<exists>out'. rewriteAndroid14CameraId api obs v input (Separate out) = (kRewritten, Separate out')"
proof -
  have size: "dataSize api p = length (view p)" for p using cc unfolding cursor_contract_def by blast
  have b: "cameraIdStart obs < cameraIdEnd obs" "cameraIdEnd obs \<le> length (view input)"
    using e size by (simp_all add: eligible_def)
  obtain o1 where o1: "setDataSize api 0 (setDataPosition api 0 out) = (True, o1)"
    using nf unfolding never_fails_def by (metis (full_types) prod.collapse)
  have v1: "view o1 = []" "dataPosition api o1 = 0" using cc o1 unfolding cursor_contract_def by blast+
  obtain o2 where o2: "appendRange api input 0 (cameraIdStart obs) o1 = (True, o2)" using appendRange_ok [OF nf] by blast
  have v2: "view o2 = take (cameraIdStart obs) (view input)" "dataPosition api o2 = length (view o2)"
    using appendRange_view [OF cc _ _ o2] v1 b by simp_all
  obtain o3 where o3: "write_id api (payloadShape (transaction obs)) v o2 = Some (True, o3)" using write_id_ok [OF nf v] by blast
  note v3 = write_id_view [OF wc v2(2) o3]
  obtain o4 where o4: "appendRange api input (cameraIdEnd obs) (dataSize api input - cameraIdEnd obs) o3 = (True, o4)"
    using appendRange_ok [OF nf] by blast
  have v4: "view o4 = view o3 @ drop (cameraIdEnd obs) (view input)"
    using appendRange_view [OF cc _ _ o4] v3 b by (simp add: size)
  have "remapDataPosition (initialDataPosition obs) (cameraIdStart obs) (cameraIdEnd obs) (dataPosition api o3) \<le> dataSize api o4"
    using remap_bound [OF pos b, of "length (encoded_id fmt (payloadShape (transaction obs)) v)"] v2 v3 v4 b
    by (simp add: size)
  then show ?thesis
    unfolding rewrite_eligible [OF e] by (simp add: o1 o2 o3 o4)
qed

lemma rewrite_reobserved:
  assumes contract: "parcel_contract api fmt view"
    and shape: "string_id (payloadShape (classifyBinderTransaction abi txnCode)) \<or> integer_id (payloadShape (classifyBinderTransaction abi txnCode))"
    and layout: "request_layout fmt (payloadShape (classifyBinderTransaction abi txnCode)) (view input) = Some (i, start, limit, pkg)"
    and obs: "obs = observed_as uid pid (classifyBinderTransaction abi txnCode) position (i, start, limit, pkg)"
    and rw: "rewriteAndroid14CameraId api obs v input (Separate out) = (kRewritten, Separate out')"
  shows "view out' = take (cameraIdStart obs) (view input) @ encoded_id fmt (payloadShape (transaction obs)) v @
      drop (cameraIdEnd obs) (view input) \<and>
    fst (observeAndroid14CameraServiceParcel api uid pid abi txnCode (Some out')) =
      obs\<lparr>cameraId := shown_id (payloadShape (transaction obs)) v,
          cameraIdEnd := cameraIdStart obs + length (encoded_id fmt (payloadShape (transaction obs)) v),
          initialDataPosition := dataPosition api out', finalDataPosition := dataPosition api out'\<rparr>"
proof -
  let ?t = "classifyBinderTransaction abi txnCode"
  have c: "cursor_contract api view" "read_contract api fmt view" "write_contract api fmt view"
    using contract by (simp_all add: parcel_contract_def)
  have fields: "transaction obs = ?t" "cameraIdStart obs = start" "cameraIdEnd obs = limit" using obs by (simp_all add: observed_as_def)
  have e: "eligible api obs v input" using rewrite_not_eligible [of api obs v input out] rw by auto
  have "cameraIdEnd obs \<le> length (view input)" using layout_bounds [OF c(2) layout] fields by simp
  then obtain out2 where "Separate out' = Separate out2" "string_id (payloadShape ?t) \<or> parseNonNegativeInteger v \<noteq> None"
    "view out2 = take start (view input) @ encoded_id fmt (payloadShape ?t) v @ drop limit (view input)"
    using rewritten_view [OF c(1,3) _ rw] fields by metis
  then have w: "view out' = take start (view input) @ encoded_id fmt (payloadShape ?t) v @ drop limit (view input)"
    and dec: "\<And>ys. layout_id fmt (payloadShape ?t) (encoded_id fmt (payloadShape ?t) v @ ys) =
      Some (shown_id (payloadShape ?t) v, length (encoded_id fmt (payloadShape ?t) v))"
    using encoded_id_decodes [OF c(3)] e by (auto simp: eligible_def)
  obtain obs2 q2 where run2: "observeAndroid14CameraServiceParcel api uid pid abi txnCode (Some out') = (obs2, q2)"
    by (cases "observeAndroid14CameraServiceParcel api uid pid abi txnCode (Some out')")
  have "obs2 = observed_as uid pid ?t (dataPosition api out')
      (shown_id (payloadShape ?t) v, start, start + length (encoded_id fmt (payloadShape ?t) v), pkg)"
    using observe_layout [OF c(1,2) shape run2] request_layout_splice [OF c(2) layout dec] by (simp add: w)
  then show ?thesis
    using w run2 obs fields by (simp add: observed_as_def)
qed

section \<open>Properties\<close>

text \<open>
  C24. When the rewriter reports success, the output parcel is the request with exactly the
  encoding of the camera id exchanged, and observing the output under the same recipe and
  caller gives the observation of the request with the replacement as its camera id: the
  transaction, the caller and the package are unchanged and the cursor is where the remapping
  puts it.
\<close>
theorem rewritten_request_reobserved:
  assumes "parcel_contract api fmt view"
    and "observeAndroid14CameraServiceParcel api uid pid abi txnCode (Some input) = (obs, q)"
    and "rewriteAndroid14CameraId api obs v input (Separate out) = (kRewritten, Separate out')"
  shows "view out' = take (cameraIdStart obs) (view input) @ encoded_id fmt (payloadShape (transaction obs)) v @
      drop (cameraIdEnd obs) (view input) \<and>
    fst (observeAndroid14CameraServiceParcel api uid pid abi txnCode (Some out')) =
      obs\<lparr>cameraId := shown_id (payloadShape (transaction obs)) v,
          cameraIdEnd := cameraIdStart obs + length (encoded_id fmt (payloadShape (transaction obs)) v),
          initialDataPosition := dataPosition api out', finalDataPosition := dataPosition api out'\<rparr>"
proof -
  let ?t = "classifyBinderTransaction abi txnCode"
  have c: "cursor_contract api view" "read_contract api fmt view" using assms(1) by (simp_all add: parcel_contract_def)
  have t: "transaction obs = ?t" using observed_transaction [of api uid pid abi txnCode input] assms(2) by simp
  have "eligible api obs v input" using rewrite_not_eligible [of api obs v input out] assms(3) by auto
  then have shape: "string_id (payloadShape ?t) \<or> integer_id (payloadShape ?t)" and st: "status obs = kObserved"
    using t by (simp_all add: eligible_def)
  show ?thesis
    by (rule observed_layout [OF c assms(2) shape st]) (rule rewrite_reobserved [OF assms(1) shape _ _ assms(3)])
qed


section \<open>Witnesses\<close>

lemma example_observed:
  "observeAndroid14CameraServiceParcel flatApi 10001 4242 makeAndroid14InitialCameraServiceRecipe 4 (Some exampleRequest) =
     (observed_as 10001 4242 (classifyBinderTransaction makeAndroid14InitialCameraServiceRecipe 4) 4 (''0'', 5, 6, ''com.app''),
      Some exampleRequest)"
  by code_simp

lemma example_rewritten:
  "rewriteAndroid14CameraId flatApi
     (fst (observeAndroid14CameraServiceParcel flatApi 10001 4242 makeAndroid14InitialCameraServiceRecipe 4 (Some exampleRequest)))
     ''1000'' exampleRequest (Separate (newParcel flatApi)) =
   (kRewritten, Separate (exampleRequest\<lparr>cells := (cells exampleRequest)[5 := Str16 (Some (utf16 ''1000''))]\<rparr>))"
  by code_simp

theorem rewritten_request_reobserved_witness:
  "fst (observeAndroid14CameraServiceParcel flatApi 10001 4242 makeAndroid14InitialCameraServiceRecipe 4
     (Some (exampleRequest\<lparr>cells := (cells exampleRequest)[5 := Str16 (Some (utf16 ''1000''))]\<rparr>))) =
   observed_as 10001 4242 (classifyBinderTransaction makeAndroid14InitialCameraServiceRecipe 4) 4 (''1000'', 5, 6, ''com.app'')"
  using rewritten_request_reobserved [OF flat_contract example_observed example_rewritten [unfolded example_observed fst_conv]]
  by (simp add: observed_as_def example_class shown_id_def string_id_def encoded_id_def flatFormat_def flatApi_def
      exampleRequest_def cstr_def)


end
