(* ===== verification/Listener_Filter.thy ===== *)
theory Listener_Filter
  imports Binder_Parcel
begin

text \<open>
  The filter that hides the internal cameras from listeners,
  \<open>src/runtime/platform/Android14CameraListenerFilter.cpp\<close>: the wrapper around a listener's
  binder, the registry of wrappers and the filter of the reply to \<open>addListener\<close>.  A binder is
  an element of an arbitrary type; which binders are alive, what a new object's identity is
  and what a transaction on a binder does are parameters.
\<close>

section \<open>Definitions\<close>

definition kServiceDescriptor :: uint16s where
  "kServiceDescriptor = utf16 ''android.hardware.ICameraService''"
definition kCameraServiceListenerDescriptor :: uint16s where
  "kCameraServiceListenerDescriptor = utf16 ''android.hardware.ICameraServiceListener''"

text \<open>\<open>FIRST_CALL_TRANSACTION\<close> is 1.\<close>

definition kOnStatusChangedCode :: uint32 where "kOnStatusChangedCode = 1"
definition kOnPhysicalCameraStatusChangedCode :: uint32 where "kOnPhysicalCameraStatusChangedCode = 2"
definition kOnTorchStatusChangedCode :: uint32 where "kOnTorchStatusChangedCode = 3"
definition kOnTorchStrengthLevelChangedCode :: uint32 where "kOnTorchStrengthLevelChangedCode = 4"
definition kOnCameraAccessPrioritiesChangedCode :: uint32 where "kOnCameraAccessPrioritiesChangedCode = 5"
definition kOnCameraOpenedCode :: uint32 where "kOnCameraOpenedCode = 6"
definition kOnCameraClosedCode :: uint32 where "kOnCameraClosedCode = 7"
definition kParcelablePresent :: int where "kParcelablePresent = 1"
definition kMaxCameraStatusCount :: int where "kMaxCameraStatusCount = 1024"
definition kMaxCameraIdLength :: nat where "kMaxCameraIdLength = 255"

text \<open>The counters and the registry of the file; \<open>wrapperTarget\<close> holds the wrapper objects.\<close>

record 'b ListenerState =
  gListenerWrappers :: uint64
  gListenerCallbacksFiltered :: uint64
  gStatusRecordsFiltered :: uint64
  gListenerRegistry :: "('b \<times> 'b) list"
  wrapperTarget :: "'b \<Rightarrow> 'b option"

definition initialListenerState :: "'b ListenerState" where
  "initialListenerState = \<lparr>gListenerWrappers = 0, gListenerCallbacksFiltered = 0, gStatusRecordsFiltered = 0,
     gListenerRegistry = [], wrapperTarget = (\<lambda>_. None)\<rparr>"

definition isInternalId :: "uint16s \<Rightarrow> bool" where
  "isInternalId v \<longleftrightarrow> v = utf16 ''1000'' \<or> v = utf16 ''1001''"

definition readRequiredString16 :: "('p, 'b, 's) ParcelApi \<Rightarrow> 'p \<Rightarrow> uint16s option \<times> 'p" where
  "readRequiredString16 api p =
     (case readString16 api p of
        (Some (Some decoded), p') \<Rightarrow> ((if length decoded > kMaxCameraIdLength then None else Some decoded), p')
      | (_, p') \<Rightarrow> (None, p'))"

text \<open>
  The switch over the callback: camera id and, for a physical-camera callback, the physical
  id.  The outer option is the early return of the callbacks without a camera.
\<close>

definition decodeCallback ::
  "('p, 'b, 's) ParcelApi \<Rightarrow> uint32 \<Rightarrow> 'p \<Rightarrow> (uint16s \<times> uint16s option) option option \<times> 'p" where
  "decodeCallback api txnCode p =
     (if txnCode = kOnStatusChangedCode \<or> txnCode = kOnTorchStatusChangedCode then
        apfst Some (rd_bind (readInt32 api) (\<lambda>_. rd_bind (readRequiredString16 api) (\<lambda>cam. rd_return (cam, None))) p)
      else if txnCode = kOnPhysicalCameraStatusChangedCode then
        apfst Some (rd_bind (readInt32 api) (\<lambda>_. rd_bind (readRequiredString16 api) (\<lambda>cam.
          rd_bind (readRequiredString16 api) (\<lambda>phys. rd_return (cam, Some phys)))) p)
      else if txnCode = kOnTorchStrengthLevelChangedCode then
        apfst Some (rd_bind (readRequiredString16 api) (\<lambda>cam. rd_bind (readInt32 api) (\<lambda>_. rd_return (cam, None))) p)
      else if txnCode = kOnCameraOpenedCode then
        apfst Some (rd_bind (readRequiredString16 api) (\<lambda>cam. rd_bind (readRequiredString16 api) (\<lambda>_. rd_return (cam, None))) p)
      else if txnCode = kOnCameraClosedCode then
        apfst Some (rd_bind (readRequiredString16 api) (\<lambda>cam. rd_return (cam, None)) p)
      else if txnCode = kOnCameraAccessPrioritiesChangedCode then (None, p)
      else (None, p))"

definition callbackReferencesInternalCamera ::
  "('p, 'b, 's) ParcelApi \<Rightarrow> uint32 \<Rightarrow> 'p \<Rightarrow> bool \<times> 'p" where
  "callbackReferencesInternalCamera api txnCode data =
     (let position = dataPosition api data in
      case enforceInterface api kCameraServiceListenerDescriptor (setDataPosition api 0 data) of (ok, p1) \<Rightarrow>
        if \<not> ok then (False, setDataPosition api position p1)
        else case decodeCallback api txnCode p1 of (decoded, p2) \<Rightarrow>
          (case decoded of
             None \<Rightarrow> False
           | Some None \<Rightarrow> False
           | Some (Some (cam, phys)) \<Rightarrow>
               (if dataPosition api p2 \<noteq> dataSize api p2 then False
                else isInternalId cam \<or> (case phys of None \<Rightarrow> False | Some v \<Rightarrow> isInternalId v)),
           setDataPosition api position p2))"

text \<open>
  \<open>FilteringCameraServiceListener::onTransact\<close>; \<open>transact\<close> is the transaction on the wrapped
  binder and \<open>0\<close> is \<open>OK\<close>.
\<close>

definition listenerOnTransact ::
  "('p, 'b, 's) ParcelApi \<Rightarrow> ('b \<Rightarrow> uint32 \<Rightarrow> 'p \<Rightarrow> 'p option \<Rightarrow> uint32 \<Rightarrow> 'e \<Rightarrow> int \<times> 'e) \<Rightarrow> 'b \<Rightarrow>
   uint32 \<Rightarrow> 'p \<Rightarrow> 'p option \<Rightarrow> uint32 \<Rightarrow> 'b ListenerState \<Rightarrow> 'e \<Rightarrow> int \<times> 'b ListenerState \<times> 'e" where
  "listenerOnTransact api transact target txnCode data reply flags st e =
     (case callbackReferencesInternalCamera api txnCode data of (hidden, data') \<Rightarrow>
        if hidden then (0, st\<lparr>gListenerCallbacksFiltered := gListenerCallbacksFiltered st + 1\<rparr>, e)
        else case transact target txnCode data' reply flags e of (r, e') \<Rightarrow> (r, st, e'))"

text \<open>
  The loop over the registry: dead entries are erased until the entry of the original is
  found; the entries behind it are left alone.
\<close>

fun scanRegistry :: "('b \<Rightarrow> bool) \<Rightarrow> 'b \<Rightarrow> ('b \<times> 'b) list \<Rightarrow> 'b option \<times> ('b \<times> 'b) list" where
  "scanRegistry alive original [] = (None, [])"
| "scanRegistry alive original ((candidate, wrapper) # entries) =
     (if \<not> alive candidate \<or> \<not> alive wrapper then scanRegistry alive original entries
      else if candidate = original then (Some wrapper, (candidate, wrapper) # entries)
      else case scanRegistry alive original entries of (found, rest) \<Rightarrow> (found, (candidate, wrapper) # rest))"

definition listenerWrapperFor ::
  "('b \<Rightarrow> bool) \<Rightarrow> 'b \<Rightarrow> 'b \<Rightarrow> bool \<Rightarrow> 'b ListenerState \<Rightarrow> ('b option \<times> bool) \<times> 'b ListenerState" where
  "listenerWrapperFor alive newObject original createIfMissing st =
     (case scanRegistry alive original (gListenerRegistry st) of (found, entries) \<Rightarrow>
        let st = st\<lparr>gListenerRegistry := entries\<rparr> in
        case found of
          Some wrapper \<Rightarrow> ((Some wrapper, False), st)
        | None \<Rightarrow>
            (if \<not> createIfMissing then ((None, False), st)
             else ((Some newObject, True),
               st\<lparr>gListenerRegistry := entries @ [(original, newObject)],
                  wrapperTarget := (wrapperTarget st)(newObject := Some original)\<rparr>)))"

datatype CameraListenerRequestRouteStatus = kWrapped | kNoRegisteredWrapper | kMalformedRequest | kCopyFailed | kWriteFailed

record CameraStatusRecord =
  rec_cameraId :: uint16s
  rec_status :: int
  unavailablePhysicalIds :: "uint16s list"
  clientPackage :: uint16s

definition readCameraStatusRecord :: "('p, 'b, 's) ParcelApi \<Rightarrow> 'p \<Rightarrow> CameraStatusRecord option \<times> 'p" where
  "readCameraStatusRecord api =
     rd_bind (readInt32 api) (\<lambda>present. rd_bind (rd_check (present = kParcelablePresent)) (\<lambda>_.
     rd_bind (readString16 api) (\<lambda>cam. rd_bind (rd_check (cam \<noteq> None)) (\<lambda>_.
     rd_bind (rd_check (length (the cam) \<le> kMaxCameraIdLength)) (\<lambda>_.
     rd_bind (readInt32 api) (\<lambda>st.
     rd_bind (readString16Vector api) (\<lambda>ids.
     rd_bind (readString16 api) (\<lambda>package. rd_bind (rd_check (package \<noteq> None)) (\<lambda>_.
     rd_return \<lparr>rec_cameraId = the cam, rec_status = st, unavailablePhysicalIds = ids, clientPackage = the package\<rparr>)))))))))"

definition writeCameraStatusRecord :: "('p, 'b, 's) ParcelApi \<Rightarrow> CameraStatusRecord \<Rightarrow> 'p \<Rightarrow> bool \<times> 'p" where
  "writeCameraStatusRecord api r =
     wr_then (writeInt32 api kParcelablePresent)
     (wr_then (writeString16 api (rec_cameraId r))
     (wr_then (writeInt32 api (rec_status r))
     (wr_then (writeString16Vector api (unavailablePhysicalIds r))
     (writeString16 api (clientPackage r)))))"

text \<open>The results are the status, the input with its cursor put back, the output and the state.\<close>

definition routeListenerRequest ::
  "('p, 'b, 's) ParcelApi \<Rightarrow> ('b \<Rightarrow> bool) \<Rightarrow> 'b \<Rightarrow> 'p \<Rightarrow> 'p OutputParcel \<Rightarrow> bool \<Rightarrow> 'b ListenerState \<Rightarrow>
   CameraListenerRequestRouteStatus \<times> 'p \<times> 'p OutputParcel \<times> 'b ListenerState" where
  "routeListenerRequest api alive newObject input output createIfMissing st =
     (case output of
        NullOutput \<Rightarrow> (kMalformedRequest, input, output, st)
      | SameAsInput \<Rightarrow> (kMalformedRequest, input, output, st)
      | Separate out \<Rightarrow>
     let position = dataPosition api input in
     case enforceInterface api kServiceDescriptor (setDataPosition api 0 input) of (ok, p1) \<Rightarrow>
     if \<not> ok then (kMalformedRequest, setDataPosition api position p1, output, st)
     else let listenerStart = dataPosition api p1 in
     case readStrongBinder api p1 of (listener, p2) \<Rightarrow>
     case listener of
       None \<Rightarrow> (kMalformedRequest, setDataPosition api position p2, output, st)
     | Some None \<Rightarrow> (kMalformedRequest, setDataPosition api position p2, output, st)
     | Some (Some original) \<Rightarrow>
     let listenerEnd = dataPosition api p2; input' = setDataPosition api position p2 in
     if listenerEnd \<noteq> dataSize api p2 then (kMalformedRequest, input', output, st)
     else case listenerWrapperFor alive newObject original createIfMissing st of ((wrapper, created), st) \<Rightarrow>
     case wrapper of
       None \<Rightarrow> (kNoRegisteredWrapper, input', output, st)
     | Some w \<Rightarrow>
     case setDataSize api 0 (setDataPosition api 0 out) of (ok, o1) \<Rightarrow>
     if \<not> ok then (kCopyFailed, input', Separate o1, st)
     else case appendFrom api p2 0 listenerStart o1 of (ok, o2) \<Rightarrow>
     if \<not> ok then (kCopyFailed, input', Separate o2, st)
     else case writeStrongBinder api w o2 of (ok, o3) \<Rightarrow>
     if \<not> ok then (kWriteFailed, input', Separate o3, st)
     else case appendFrom api p2 listenerEnd (dataSize api p2 - listenerEnd) o3 of (ok, o4) \<Rightarrow>
     if \<not> ok then (kCopyFailed, input', Separate o4, st)
     else if dataSize api o4 \<noteq> dataSize api p2 then (kWriteFailed, input', Separate o4, st)
     else (kWrapped, input', Separate (setDataPosition api position o4),
       if created then st\<lparr>gListenerWrappers := gListenerWrappers st + 1\<rparr> else st))"

definition wrapAndroid14CameraListenerRequest ::
  "('p, 'b, 's) ParcelApi \<Rightarrow> ('b \<Rightarrow> bool) \<Rightarrow> 'b \<Rightarrow> 'p \<Rightarrow> 'p OutputParcel \<Rightarrow> 'b ListenerState \<Rightarrow>
   CameraListenerRequestRouteStatus \<times> 'p \<times> 'p OutputParcel \<times> 'b ListenerState" where
  "wrapAndroid14CameraListenerRequest api alive newObject input output st =
     routeListenerRequest api alive newObject input output True st"

definition wrapAndroid14CameraListenerRemovalRequest ::
  "('p, 'b, 's) ParcelApi \<Rightarrow> ('b \<Rightarrow> bool) \<Rightarrow> 'b \<Rightarrow> 'p \<Rightarrow> 'p OutputParcel \<Rightarrow> 'b ListenerState \<Rightarrow>
   CameraListenerRequestRouteStatus \<times> 'p \<times> 'p OutputParcel \<times> 'b ListenerState" where
  "wrapAndroid14CameraListenerRemovalRequest api alive newObject input output st =
     routeListenerRequest api alive newObject input output False st"

datatype CameraStatusReplyFilterStatus = kFiltered | kUnchanged | kMalformedReply | kServiceError | kWriteFailed

text \<open>The loops over the records of the reply.\<close>

fun readVisibleRecords ::
  "('p, 'b, 's) ParcelApi \<Rightarrow> nat \<Rightarrow> CameraStatusRecord list \<Rightarrow> uint64 \<Rightarrow> 'p \<Rightarrow>
   (CameraStatusRecord list \<times> uint64) option \<times> 'p" where
  "readVisibleRecords api 0 visible filtered p = (Some (visible, filtered), p)"
| "readVisibleRecords api (Suc n) visible filtered p =
     (case readCameraStatusRecord api p of
        (None, p') \<Rightarrow> (None, p')
      | (Some r, p') \<Rightarrow>
          (if isInternalId (rec_cameraId r) then readVisibleRecords api n visible (filtered + 1) p'
           else readVisibleRecords api n (visible @ [r]) filtered p'))"

fun writeRecords :: "('p, 'b, 's) ParcelApi \<Rightarrow> CameraStatusRecord list \<Rightarrow> 'p \<Rightarrow> bool \<times> 'p" where
  "writeRecords api [] p = (True, p)"
| "writeRecords api (r # rs) p = wr_then (writeCameraStatusRecord api r) (writeRecords api rs) p"

definition filterAndroid14CameraStatusReply ::
  "('p, 'b, 's) ParcelApi \<Rightarrow> 'p option \<Rightarrow> 'b ListenerState \<Rightarrow>
   CameraStatusReplyFilterStatus \<times> 'p option \<times> 'b ListenerState" where
  "filterAndroid14CameraStatusReply api reply st =
     (case reply of
        None \<Rightarrow> (kMalformedReply, None, st)
      | Some reply \<Rightarrow>
     let originalPosition = dataPosition api reply; restored = (\<lambda>p. Some (setDataPosition api originalPosition p)) in
     case readStatus api (setDataPosition api 0 reply) of
       (None, p1) \<Rightarrow> (kMalformedReply, restored p1, st)
     | (Some serviceStatus, p1) \<Rightarrow>
     if \<not> statusIsOk api serviceStatus then (kServiceError, restored p1, st)
     else case readInt32 api p1 of
       (None, p2) \<Rightarrow> (kMalformedReply, restored p2, st)
     | (Some count, p2) \<Rightarrow>
     if count < 0 \<or> count > kMaxCameraStatusCount then (kMalformedReply, restored p2, st)
     else case readVisibleRecords api (nat count) [] 0 p2 of
       (None, p3) \<Rightarrow> (kMalformedReply, restored p3, st)
     | (Some (visible, filtered), p3) \<Rightarrow>
     if dataPosition api p3 \<noteq> dataSize api p3 then (kMalformedReply, restored p3, st)
     else if filtered = 0 then (kUnchanged, restored p3, st)
     else case wr_then (writeStatus api serviceStatus) (writeInt32 api (int (length visible))) (newParcel api) of
       (ok, replacement) \<Rightarrow>
     if \<not> ok then (kWriteFailed, restored p3, st)
     else case writeRecords api visible replacement of (ok, replacement) \<Rightarrow>
     if \<not> ok then (kWriteFailed, restored p3, st)
     else case appendFrom api replacement 0 (dataSize api replacement) (freeData api p3) of (ok, p4) \<Rightarrow>
     if \<not> ok then (kWriteFailed, Some p4, st)
     else (kFiltered, Some (setDataPosition api 0 p4),
       st\<lparr>gStatusRecordsFiltered := gStatusRecordsFiltered st + filtered\<rparr>))"

fun cameraListenerRequestRouteStatusName :: "CameraListenerRequestRouteStatus \<Rightarrow> string" where
  "cameraListenerRequestRouteStatusName kWrapped = ''wrapped''"
| "cameraListenerRequestRouteStatusName kNoRegisteredWrapper = ''no_registered_wrapper''"
| "cameraListenerRequestRouteStatusName kMalformedRequest = ''malformed_request''"
| "cameraListenerRequestRouteStatusName kCopyFailed = ''copy_failed''"
| "cameraListenerRequestRouteStatusName CameraListenerRequestRouteStatus.kWriteFailed = ''write_failed''"

fun cameraStatusReplyFilterStatusName :: "CameraStatusReplyFilterStatus \<Rightarrow> string" where
  "cameraStatusReplyFilterStatusName kFiltered = ''filtered''"
| "cameraStatusReplyFilterStatusName kUnchanged = ''unchanged''"
| "cameraStatusReplyFilterStatusName kMalformedReply = ''malformed_reply''"
| "cameraStatusReplyFilterStatusName kServiceError = ''service_error''"
| "cameraStatusReplyFilterStatusName CameraStatusReplyFilterStatus.kWriteFailed = ''write_failed''"

section \<open>The layout of the reply\<close>

definition record_ok :: "CameraStatusRecord \<Rightarrow> bool" where
  "record_ok r \<longleftrightarrow> length (rec_cameraId r) \<le> kMaxCameraIdLength"

definition dec_record :: "('c, 'b, 's) ParcelFormat \<Rightarrow> 'c list \<Rightarrow> (CameraStatusRecord \<times> nat) option" where
  "dec_record fmt =
     dec_bind (dec_int32 fmt) (\<lambda>present. dec_bind (dec_check (present = kParcelablePresent)) (\<lambda>_.
     dec_bind (dec_string16 fmt) (\<lambda>cam. dec_bind (dec_check (cam \<noteq> None)) (\<lambda>_.
     dec_bind (dec_check (length (the cam) \<le> kMaxCameraIdLength)) (\<lambda>_.
     dec_bind (dec_int32 fmt) (\<lambda>st.
     dec_bind (dec_string16_vector fmt) (\<lambda>ids.
     dec_bind (dec_string16 fmt) (\<lambda>package. dec_bind (dec_check (package \<noteq> None)) (\<lambda>_.
     dec_return \<lparr>rec_cameraId = the cam, rec_status = st, unavailablePhysicalIds = ids, clientPackage = the package\<rparr>)))))))))"

definition enc_record :: "('c, 'b, 's) ParcelFormat \<Rightarrow> CameraStatusRecord \<Rightarrow> 'c list" where
  "enc_record fmt r = enc_int32 fmt kParcelablePresent @ enc_string16 fmt (rec_cameraId r) @ enc_int32 fmt (rec_status r) @
     enc_string16_vector fmt (unavailablePhysicalIds r) @ enc_string16 fmt (clientPackage r)"

definition dec_records :: "('c, 'b, 's) ParcelFormat \<Rightarrow> 'c list \<Rightarrow> (CameraStatusRecord list \<times> nat) option" where
  "dec_records fmt = dec_bind (dec_int32 fmt) (\<lambda>c. dec_bind (dec_check (0 \<le> c \<and> c \<le> kMaxCameraStatusCount))
     (\<lambda>_. dec_repeat (nat c) (dec_record fmt)))"

text \<open>Status and records of a reply that reports success and has nothing behind the records.\<close>

definition reply_records ::
  "('p, 'b, 's) ParcelApi \<Rightarrow> ('c, 'b, 's) ParcelFormat \<Rightarrow> 'c list \<Rightarrow> ('s \<times> CameraStatusRecord list) option" where
  "reply_records api fmt xs =
     (case dec_bind (dec_status fmt) (\<lambda>st. dec_bind (dec_check (statusIsOk api st))
             (\<lambda>_. dec_bind (dec_records fmt) (\<lambda>rs. dec_return (st, rs)))) xs of
        None \<Rightarrow> None
      | Some (r, n) \<Rightarrow> if n = length xs then Some r else None)"

lemma reads_record: "read_contract api fmt view \<Longrightarrow> reads api view (readCameraStatusRecord api) (dec_record fmt)"
  unfolding readCameraStatusRecord_def dec_record_def by (intro reads_bind reads_check reads_return read_reads)

lemma append_nil_right: "xs = xs @ []"
  by simp

lemma record_decodes:
  assumes "write_contract api fmt view" "record_ok r"
  shows "decodes (dec_record fmt) (enc_record fmt r) r"
  unfolding dec_record_def enc_record_def
  by (rule decodes_bind, rule write_decodes(1) [OF assms(1)], rule decodes_bind_check, simp,
      rule decodes_bind, rule write_decodes(2) [OF assms(1)], rule decodes_bind_check, simp,
      rule decodes_bind_check, use assms(2) in \<open>simp add: record_ok_def\<close>,
      rule decodes_bind, rule write_decodes(1) [OF assms(1)],
      rule decodes_bind, rule write_decodes(3) [OF assms(1)],
      subst append_nil_right, rule decodes_bind, rule write_decodes(2) [OF assms(1)], rule decodes_bind_check, simp)
    (cases r, simp add: decodes_return)

lemma repeat_decodes:
  "(\<And>r. r \<in> set rs \<Longrightarrow> decodes dec (enc r) r) \<Longrightarrow> decodes (dec_repeat (length rs) dec) (concat (map enc rs)) rs"
proof (induction rs)
  case (Cons r rs)
  have "decodes (dec_bind (dec_repeat (length rs) dec) (\<lambda>as. dec_return (r # as))) (concat (map enc rs) @ []) (r # rs)"
    using Cons by (intro decodes_bind [OF _ decodes_return]) auto
  from decodes_bind [of dec "enc r" r "\<lambda>a. dec_bind (dec_repeat (length rs) dec) (\<lambda>as. dec_return (a # as))", OF _ this]
  show ?case
    using Cons.prems by simp
qed (simp add: decodes_return)

lemma dec_bind_Some:
  "dec_bind f g xs = Some (b, n) \<longleftrightarrow> (\<exists>a k m. f xs = Some (a, k) \<and> g a (drop k xs) = Some (b, m) \<and> n = k + m)"
  by (auto simp: dec_bind_def split: option.split)

lemma dec_check_Some: "dec_check P xs = Some (u, n) \<longleftrightarrow> P \<and> n = 0"
  by (auto simp: dec_check_def)

lemma dec_return_Some: "dec_return a xs = Some (b, n) \<longleftrightarrow> b = a \<and> n = 0"
  by (auto simp: dec_return_def)

lemma dec_record_ok: "dec_record fmt xs = Some (r, n) \<Longrightarrow> record_ok r"
  unfolding dec_record_def dec_bind_Some dec_check_Some dec_return_Some record_ok_def by auto

lemma dec_repeat_ok:
  "dec_repeat k (dec_record fmt) xs = Some (rs, n) \<Longrightarrow> length rs = k \<and> list_all record_ok rs"
proof (induction k arbitrary: xs rs n)
  case (Suc k)
  then obtain r n1 rs' n2 where "dec_record fmt xs = Some (r, n1)" "dec_repeat k (dec_record fmt) (drop n1 xs) = Some (rs', n2)"
    "rs = r # rs'"
    unfolding dec_repeat.simps dec_bind_Some dec_return_Some by blast
  with Suc.IH show ?case by (auto dest: dec_record_ok)
qed (simp add: dec_return_def)

lemma record_appends: "write_contract api fmt view \<Longrightarrow> appends api view (writeCameraStatusRecord api r) (enc_record fmt r)"
  unfolding writeCameraStatusRecord_def enc_record_def by (intro appends_then write_appends)

lemma records_append:
  assumes "write_contract api fmt view"
  shows "appends api view (writeRecords api rs) (concat (map (enc_record fmt) rs))"
proof (induction rs)
  case (Cons r rs)
  have "writeRecords api (r # rs) = wr_then (writeCameraStatusRecord api r) (writeRecords api rs)" by (rule ext) simp
  then show ?case using appends_then [OF record_appends [OF assms] Cons] by simp
qed (simp add: appends_def)

lemma records_written: "never_fails api \<Longrightarrow> \<exists>q. writeRecords api rs p = (True, q)"
proof (induction rs arbitrary: p)
  case (Cons r rs)
  have "\<exists>q. writeCameraStatusRecord api r p = (True, q)"
    unfolding writeCameraStatusRecord_def by (intro wr_then_ok neverD Cons.prems)
  then show ?case using Cons by (simp add: wr_then_ok)
qed simp

text \<open>The reading loop is the plain repetition with the internal records set aside.\<close>

definition visible_records :: "CameraStatusRecord list \<Rightarrow> CameraStatusRecord list" where
  "visible_records = filter (\<lambda>r. \<not> isInternalId (rec_cameraId r))"

definition hidden_count :: "CameraStatusRecord list \<Rightarrow> nat" where
  "hidden_count rs = length (filter (\<lambda>r. isInternalId (rec_cameraId r)) rs)"

lemma readVisibleRecords_repeat:
  "readVisibleRecords api n visible filtered p =
     (case rd_repeat n (readCameraStatusRecord api) p of
        (None, p') \<Rightarrow> (None, p')
      | (Some rs, p') \<Rightarrow> (Some (visible @ visible_records rs, filtered + of_nat (hidden_count rs)), p'))"
proof (induction n arbitrary: visible filtered p)
  case 0
  then show ?case by (simp add: rd_return_def visible_records_def hidden_count_def)
next
  case (Suc n)
  obtain r p' where r: "readCameraStatusRecord api p = (r, p')" by (cases "readCameraStatusRecord api p")
  obtain rs q where q: "rd_repeat n (readCameraStatusRecord api) p' = (rs, q)"
    by (cases "rd_repeat n (readCameraStatusRecord api) p'")
  show ?case
    using r q Suc.IH
    by (cases r; cases rs) (auto simp: rd_bind_def rd_return_def visible_records_def hidden_count_def)
qed

section \<open>The filtered reply\<close>

definition enc_reply :: "('c, 'b, 's) ParcelFormat \<Rightarrow> 's \<Rightarrow> CameraStatusRecord list \<Rightarrow> 'c list" where
  "enc_reply fmt st rs = enc_status fmt st @ enc_int32 fmt (int (length rs)) @ concat (map (enc_record fmt) rs)"

lemma reply_decodes:
  assumes "write_contract api fmt view" "statusIsOk api st" "list_all record_ok rs" "length rs \<le> 1024"
  shows "reply_records api fmt (enc_reply fmt st rs) = Some (st, rs)"
proof -
  have "decodes (dec_repeat (length rs) (dec_record fmt)) (concat (map (enc_record fmt) rs)) rs"
    using assms(3) by (intro repeat_decodes record_decodes [OF assms(1)]) (simp add: list_all_iff)
  then have "decodes (dec_records fmt) (enc_int32 fmt (int (length rs)) @ concat (map (enc_record fmt) rs)) rs"
    unfolding dec_records_def using assms(4)
    by (intro decodes_bind [OF write_decodes(1) [OF assms(1)]] decodes_bind_check) (simp_all add: kMaxCameraStatusCount_def)
  from decodes_bind [OF this decodes_return]
  have "decodes (dec_bind (dec_records fmt) (\<lambda>rs. dec_return (st, rs)))
      (enc_int32 fmt (int (length rs)) @ concat (map (enc_record fmt) rs)) (st, rs)"
    by simp
  then have "decodes (dec_bind (dec_status fmt) (\<lambda>st. dec_bind (dec_check (statusIsOk api st))
      (\<lambda>_. dec_bind (dec_records fmt) (\<lambda>rs. dec_return (st, rs))))) (enc_reply fmt st rs) (st, rs)"
    unfolding enc_reply_def using assms(2)
    by (intro decodes_bind [OF write_decodes(5) [OF assms(1)]] decodes_bind_check) simp_all
  from this [unfolded decodes_def, THEN spec, of "[]"] show ?thesis
    unfolding reply_records_def append_Nil2 by simp
qed

text \<open>What the reading part of the filter finds, as one reader.\<close>

definition rd_reply :: "('p, 'b, 's) ParcelApi \<Rightarrow> 'p \<Rightarrow> ('s \<times> CameraStatusRecord list) option \<times> 'p" where
  "rd_reply api = rd_bind (readStatus api) (\<lambda>st. rd_bind (rd_check (statusIsOk api st))
     (\<lambda>_. rd_bind (rd_bind (readInt32 api) (\<lambda>c. rd_bind (rd_check (0 \<le> c \<and> c \<le> kMaxCameraStatusCount))
       (\<lambda>_. rd_repeat (nat c) (readCameraStatusRecord api)))) (\<lambda>rs. rd_return (st, rs))))"

lemma reads_reply:
  "read_contract api fmt view \<Longrightarrow> reads api view (rd_reply api)
     (dec_bind (dec_status fmt) (\<lambda>st. dec_bind (dec_check (statusIsOk api st))
        (\<lambda>_. dec_bind (dec_records fmt) (\<lambda>rs. dec_return (st, rs)))))"
  unfolding rd_reply_def dec_records_def
  by (intro reads_bind reads_check reads_return reads_repeat reads_record read_reads)

definition replace_reply :: "('p, 'b, 's) ParcelApi \<Rightarrow> 's \<Rightarrow> CameraStatusRecord list \<Rightarrow> 'p \<Rightarrow> bool \<times> 'p" where
  "replace_reply api st visible =
     wr_then (wr_then (writeStatus api st) (writeInt32 api (int (length visible)))) (writeRecords api visible)"

text \<open>The whole operation over the one reader.\<close>

lemma filter_reply_uniform:
  assumes c: "read_contract api fmt view" and assms: "rd_reply api (setDataPosition api 0 reply) = (r, p3)"
  shows "case r of
      None \<Rightarrow> \<exists>status p'. filterAndroid14CameraStatusReply api (Some reply) st =
        (status, Some (setDataPosition api (dataPosition api reply) p'), st) \<and> status \<in> {kMalformedReply, kServiceError} \<and>
        view p' = view (setDataPosition api 0 reply)
    | Some (serviceStatus, rs) \<Rightarrow> filterAndroid14CameraStatusReply api (Some reply) st =
        (let restored = Some (setDataPosition api (dataPosition api reply) p3);
             visible = visible_records rs; filtered = of_nat (hidden_count rs) in
         if dataPosition api p3 \<noteq> dataSize api p3 then (kMalformedReply, restored, st)
         else if filtered = 0 then (kUnchanged, restored, st)
         else case replace_reply api serviceStatus visible (newParcel api) of (ok, replacement) \<Rightarrow>
           if \<not> ok then (CameraStatusReplyFilterStatus.kWriteFailed, restored, st)
           else case appendFrom api replacement 0 (dataSize api replacement) (freeData api p3) of (ok, p4) \<Rightarrow>
             if \<not> ok then (CameraStatusReplyFilterStatus.kWriteFailed, Some p4, st)
             else (kFiltered, Some (setDataPosition api 0 p4),
               st\<lparr>gStatusRecordsFiltered := gStatusRecordsFiltered st + filtered\<rparr>))"
proof -
  obtain s1 p1 where 1: "readStatus api (setDataPosition api 0 reply) = (s1, p1)"
    by (cases "readStatus api (setDataPosition api 0 reply)")
  obtain c p2 where 2: "readInt32 api p1 = (c, p2)" by (cases "readInt32 api p1")
  obtain rs q where 3: "rd_repeat (nat (the c)) (readCameraStatusRecord api) p2 = (rs, q)"
    by (cases "rd_repeat (nat (the c)) (readCameraStatusRecord api) p2")
  have v1: "view p1 = view (setDataPosition api 0 reply)"
    by (rule readsD(1) [OF read_reads(10) [OF c] 1])
  have v2: "view p2 = view p1"
    by (rule readsD(1) [OF read_reads(1) [OF c] 2])
  have v3: "view q = view p2"
    by (rule readsD(1) [OF reads_repeat [OF reads_record [OF c]] 3])
  show ?thesis
  proof (cases s1)
    case None
    then have "r = None" using assms 1 by (simp add: rd_reply_def rd_bind_def)
    with None 1 v1 show ?thesis by (auto simp: filterAndroid14CameraStatusReply_def Let_def)
  next
    case (Some s)
    show ?thesis
    proof (cases "statusIsOk api s")
      case False
      then have "r = None" using assms 1 Some by (simp add: rd_reply_def rd_bind_def rd_check_def)
      with False Some 1 v1 show ?thesis by (auto simp: filterAndroid14CameraStatusReply_def Let_def)
    next
      case True
      show ?thesis
      proof (cases "c = None \<or> \<not> (0 \<le> the c \<and> the c \<le> kMaxCameraStatusCount) \<or> rs = None")
        case bad: True
        then have "r = None"
          using assms 1 2 3 Some True by (cases c) (auto simp: rd_reply_def rd_bind_def rd_check_def split: if_splits)
        moreover have "\<exists>p'. filterAndroid14CameraStatusReply api (Some reply) st =
            (kMalformedReply, Some (setDataPosition api (dataPosition api reply) p'), st) \<and> (p' = p2 \<or> p' = q)"
          using 1 2 3 Some True bad
          by (cases c) (auto simp: filterAndroid14CameraStatusReply_def Let_def readVisibleRecords_repeat)
        ultimately show ?thesis using v1 v2 v3 by auto
      next
        case False
        then obtain n recs where n: "c = Some n" "0 \<le> n" "n \<le> kMaxCameraStatusCount" "rs = Some recs" by auto
        have "r = Some (s, recs)" "q = p3"
          using assms 1 2 3 Some True n by (auto simp: rd_reply_def rd_bind_def rd_check_def rd_return_def)
        then show ?thesis
          using 1 2 3 Some True n
          by (simp add: filterAndroid14CameraStatusReply_def Let_def readVisibleRecords_repeat replace_reply_def
              wr_then_def case_prod_unfold)
      qed
    qed
  qed
qed

lemma replaced_reply:
  assumes "cursor_contract api view" "write_contract api fmt view" "never_fails api"
  obtains p4 replacement where "replace_reply api st visible (newParcel api) = (True, replacement)"
    "appendFrom api replacement 0 (dataSize api replacement) (freeData api p) = (True, p4)"
    "view (setDataPosition api 0 p4) = enc_reply fmt st visible"
proof -
  have "\<exists>q. replace_reply api st visible (newParcel api) = (True, q)"
    unfolding replace_reply_def by (intro wr_then_ok neverD records_written assms(3))
  then obtain q where q: "replace_reply api st visible (newParcel api) = (True, q)" by blast
  have "appends api view (replace_reply api st visible)
      ((enc_status fmt st @ enc_int32 fmt (int (length visible))) @ concat (map (enc_record fmt) visible))"
    unfolding replace_reply_def by (intro appends_then write_appends records_append assms(2))
  from appendsD [OF this _ q] have v: "view q = enc_reply fmt st visible"
    by (simp add: cursorD [OF assms(1)] enc_reply_def)
  obtain p4 where p4: "appendFrom api q 0 (dataSize api q) (freeData api p) = (True, p4)" using neverD(2) [OF assms(3)] by blast
  from appendFromD [OF assms(1) _ _ p4] have "view p4 = view q" by (simp add: cursorD [OF assms(1)])
  then show ?thesis using that [OF q p4] v by (simp add: cursorD [OF assms(1)])
qed

lemma small_word_zero:
  assumes "n < 2 ^ 64"
  shows "(of_nat n :: uint64) = 0 \<longleftrightarrow> n = 0"
proof
  assume "(of_nat n :: uint64) = 0"
  moreover have "unat (of_nat n :: uint64) = n" by (rule of_nat_inverse [OF refl]) (use assms in simp)
  ultimately show "n = 0" by simp
qed simp

lemma hidden_word: "hidden_count rs \<le> 1024 \<Longrightarrow> (of_nat (hidden_count rs) :: uint64) = 0 \<longleftrightarrow> hidden_count rs = 0"
  by (rule small_word_zero) simp

lemma no_hidden: "hidden_count rs = 0 \<Longrightarrow> visible_records rs = rs"
  unfolding hidden_count_def visible_records_def by (simp only: length_0_conv filter_empty_conv) (rule filter_True)

lemma visible_count: "length (visible_records rs) + hidden_count rs = length rs"
  unfolding visible_records_def hidden_count_def using sum_length_filter_compl [of "\<lambda>r. isInternalId (rec_cameraId r)" rs] by simp

lemma reply_dec_ok:
  assumes "dec_bind (dec_status fmt) (\<lambda>st. dec_bind (dec_check (statusIsOk api st))
      (\<lambda>_. dec_bind (dec_records fmt) (\<lambda>rs. dec_return (st, rs)))) xs = Some ((s, rs), n)"
  shows "statusIsOk api s" "list_all record_ok rs" "length rs \<le> 1024"
proof -
  obtain b c k m where p: "statusIsOk api s" "0 \<le> c" "c \<le> 1024" "dec_repeat (nat c) (dec_record fmt) b = Some (rs, k)"
    using assms unfolding dec_records_def dec_bind_Some dec_check_Some dec_return_Some kMaxCameraStatusCount_def
    by auto
  then show "statusIsOk api s" "list_all record_ok rs" "length rs \<le> 1024"
    using dec_repeat_ok [OF p(4)] by auto
qed

section \<open>The registry of wrappers\<close>

definition registry_inv :: "'b ListenerState \<Rightarrow> bool" where
  "registry_inv st \<longleftrightarrow> distinct (map fst (gListenerRegistry st)) \<and>
     list_all (\<lambda>(original, wrapper). wrapperTarget st wrapper = Some original) (gListenerRegistry st)"

lemma scan_subset: "set (snd (scanRegistry alive original es)) \<subseteq> set es"
  by (induction alive original es rule: scanRegistry.induct) (auto simp: case_prod_unfold)

lemma scan_distinct: "distinct (map fst es) \<Longrightarrow> distinct (map fst (snd (scanRegistry alive original es)))"
proof (induction alive original es rule: scanRegistry.induct)
  case (2 alive original candidate wrapper entries)
  have "candidate \<notin> fst ` set (snd (scanRegistry alive original entries))"
    using scan_subset [of alive original entries] 2(3) by auto
  with 2 show ?case by (auto simp: case_prod_unfold)
qed simp

lemma scan_missing:
  "fst (scanRegistry alive original es) = None \<Longrightarrow> original \<notin> fst ` set (snd (scanRegistry alive original es))"
  by (induction alive original es rule: scanRegistry.induct) (auto simp: case_prod_unfold split: if_splits)

lemma scan_found:
  "fst (scanRegistry alive original es) = Some w \<Longrightarrow> (original, w) \<in> set (snd (scanRegistry alive original es))"
  by (induction alive original es rule: scanRegistry.induct) (auto simp: case_prod_unfold split: if_splits)

lemma scan_finds:
  "distinct (map fst es) \<Longrightarrow> (original, w) \<in> set es \<Longrightarrow> alive original \<Longrightarrow> alive w \<Longrightarrow>
   fst (scanRegistry alive original es) = Some w"
proof (induction alive original es rule: scanRegistry.induct)
  case (2 alive original candidate wrapper entries)
  then show ?case by (force simp: case_prod_unfold)
qed simp

lemma wrapper_registered:
  assumes inv: "registry_inv st" and new: "wrapperTarget st newObject = None"
    and run: "listenerWrapperFor alive newObject original createIfMissing st = ((Some w, created), st')"
  shows "registry_inv st' \<and> (original, w) \<in> set (gListenerRegistry st')"
proof -
  obtain found es where scan: "scanRegistry alive original (gListenerRegistry st) = (found, es)"
    by (cases "scanRegistry alive original (gListenerRegistry st)")
  have d: "distinct (map fst es)" and sub: "set es \<subseteq> set (gListenerRegistry st)"
    using scan_distinct [of "gListenerRegistry st" alive original] scan_subset [of alive original "gListenerRegistry st"] inv scan
    by (simp_all add: registry_inv_def)
  have t: "\<And>x y. (x, y) \<in> set es \<Longrightarrow> wrapperTarget st y = Some x" using inv sub by (auto simp: registry_inv_def list_all_iff)
  show ?thesis
  proof (cases found)
    case None
    then have "original \<notin> fst ` set es" using scan_missing [of alive original "gListenerRegistry st"] scan by simp
    then show ?thesis
      using run scan None d t new by (auto simp: listenerWrapperFor_def Let_def registry_inv_def list_all_iff split: if_splits)
  next
    case (Some v)
    then have "(original, v) \<in> set es" using scan_found [of alive original "gListenerRegistry st" v] scan by simp
    then show ?thesis
      using run scan Some d t by (auto simp: listenerWrapperFor_def Let_def registry_inv_def list_all_iff)
  qed
qed

section \<open>Properties\<close>

text \<open>
  C27. The filter of the \<open>addListener\<close> reply: a reply that reports success and is well formed
  is answered with a reply that has the same status and exactly the records whose camera is
  not internal, in their order, and the counter grows by the number of hidden records; a
  reply without internal cameras is left as it is; any other reply is handed on with its data
  and its cursor unchanged.
\<close>
theorem reply_shows_visible_cameras:
  assumes "parcel_contract api fmt view" "never_fails api"
  shows "\<exists>status p' st'. filterAndroid14CameraStatusReply api (Some p) st = (status, Some p', st') \<and>
    (case reply_records api fmt (view p) of
       None \<Rightarrow> status \<in> {kMalformedReply, kServiceError} \<and> view p' = view p \<and> dataPosition api p' = dataPosition api p \<and> st' = st
     | Some (s, rs) \<Rightarrow>
         status = (if hidden_count rs = 0 then kUnchanged else kFiltered) \<and>
         reply_records api fmt (view p') = Some (s, visible_records rs) \<and>
         view p' = (if hidden_count rs = 0 then view p else enc_reply fmt s (visible_records rs)) \<and>
         dataPosition api p' = (if hidden_count rs = 0 then dataPosition api p else 0) \<and>
         st' = st\<lparr>gStatusRecordsFiltered := gStatusRecordsFiltered st + of_nat (hidden_count rs)\<rparr>)"
proof -
  have c: "cursor_contract api view" "read_contract api fmt view" "write_contract api fmt view"
    using assms(1) by (simp_all add: parcel_contract_def)
  note cur = cursorD [OF c(1)]
  let ?dec = "dec_bind (dec_status fmt) (\<lambda>st. dec_bind (dec_check (statusIsOk api st))
      (\<lambda>_. dec_bind (dec_records fmt) (\<lambda>rs. dec_return (st, rs))))"
  obtain r p3 where run: "rd_reply api (setDataPosition api 0 p) = (r, p3)" by (cases "rd_reply api (setDataPosition api 0 p)")
  note rd = readsD [OF reads_reply [OF c(2)] run, unfolded cur drop_0]
  note u = filter_reply_uniform [OF c(2) run, of st]
  show ?thesis
  proof (cases "?dec (view p)")
    case None
    then have "r = None" using rd(2) by blast
    with u None show ?thesis by (auto simp: reply_records_def cur)
  next
    case (Some a)
    then obtain s rs n where d: "?dec (view p) = Some ((s, rs), n)" by (metis prod.collapse)
    then have r: "r = Some (s, rs)" "dataPosition api p3 = n" using rd(3) by auto
    have view3: "view p3 = view p" using rd(1) by simp
    have rr: "reply_records api fmt (view p) = (if n = length (view p) then Some (s, rs) else None)"
      using d by (simp add: reply_records_def)
    note ok = reply_dec_ok [OF d]
    have small: "hidden_count rs \<le> 1024" "length (visible_records rs) \<le> 1024"
      using ok(3) visible_count [of rs] by simp_all
    have vok: "list_all record_ok (visible_records rs)" using ok(2) by (simp add: visible_records_def list_all_iff)
    obtain p4 q where w: "replace_reply api s (visible_records rs) (newParcel api) = (True, q)"
      "appendFrom api q 0 (dataSize api q) (freeData api p3) = (True, p4)"
      "view (setDataPosition api 0 p4) = enc_reply fmt s (visible_records rs)"
      by (rule replaced_reply [OF c(1,3) assms(2)])
    show ?thesis
      using u r rr view3 w hidden_word [OF small(1)] no_hidden [of rs]
        reply_decodes [OF c(3) ok(1) vok small(2)]
      by (simp add: cur)
  qed
qed


section \<open>Witnesses\<close>


definition exampleReply :: flat_parcel where
  "exampleReply = \<lparr>cells = [Stat 0, Int32 2, Int32 1, Str16 (Some (utf16 ''0'')), Int32 1, Strs [], Str16 (Some []),
     Int32 1, Str16 (Some (utf16 ''1000'')), Int32 1, Strs [], Str16 (Some [])], cursor = 0\<rparr>"

lemma example_reply_records:
  "reply_records flatApi flatFormat (cells exampleReply) = Some (0,
     [\<lparr>rec_cameraId = utf16 ''0'', rec_status = 1, unavailablePhysicalIds = [], clientPackage = []\<rparr>,
      \<lparr>rec_cameraId = utf16 ''1000'', rec_status = 1, unavailablePhysicalIds = [], clientPackage = []\<rparr>])"
  by code_simp

lemma example_internal: "isInternalId (utf16 ''1000'') \<and> \<not> isInternalId (utf16 ''0'')"
  by code_simp

theorem reply_shows_visible_cameras_witness:
  "\<exists>p' st'. filterAndroid14CameraStatusReply flatApi (Some exampleReply) initialListenerState = (kFiltered, Some p', st') \<and>
     reply_records flatApi flatFormat (cells p') =
       Some (0, [\<lparr>rec_cameraId = utf16 ''0'', rec_status = 1, unavailablePhysicalIds = [], clientPackage = []\<rparr>])"
  using reply_shows_visible_cameras [OF flat_contract flat_never_fails, of exampleReply initialListenerState]
  by (auto simp: example_reply_records hidden_count_def visible_records_def example_internal)

end
