(* ===== verification/Protocol_Evidence.thy ===== *)
theory Protocol_Evidence
  imports Parcel_Observer
begin

text \<open>
  The telemetry of the shadow mode: the role masks of \<open>src/runtime/Android14ProtocolEvidence.cpp\<close>
  and the counting observer of \<open>src/runtime/platform/Android14BinderShadowObserver.cpp\<close>.  The
  lemmas relate masks and counters to the history of observations.
\<close>

unbundle bit_operations_syntax

section \<open>Evidence\<close>

definition bitMask :: "nat \<Rightarrow> uint64" where
  "bitMask index = push_bit index 1"

definition android14ProtocolRoleBit :: "string \<Rightarrow> uint64" where
  "android14ProtocolRoleBit r =
     (if r = ''connect_api1'' then bitMask 0
      else if r = ''connect_device'' then bitMask 1
      else if r = ''add_listener'' then bitMask 2
      else if r = ''get_concurrent_camera_ids'' then bitMask 3
      else if r = ''concurrent_session_support'' then bitMask 4
      else if r = ''remove_listener'' then bitMask 5
      else if r = ''get_camera_characteristics'' then bitMask 6
      else if r = ''get_legacy_parameters'' then bitMask 7
      else if r = ''supports_camera_api'' then bitMask 8
      else if r = ''set_torch_mode'' then bitMask 9
      else if r = ''turn_on_torch_with_strength'' then bitMask 10
      else if r = ''get_torch_strength'' then bitMask 11
      else 0)"

definition kRequiredMask :: uint64 where
  "kRequiredMask = bitMask 0 OR bitMask 1 OR bitMask 2 OR bitMask 3 OR bitMask 5 OR bitMask 6 OR bitMask 8 OR
     bitMask 9 OR bitMask 10 OR bitMask 11"

definition android14ProtocolRequiredEvidenceMask :: uint64 where
  "android14ProtocolRequiredEvidenceMask = kRequiredMask"

datatype Android14ProtocolEvidenceVerdict = kPending | kRejected | kProbeCompatible

fun android14ProtocolEvidenceVerdictName :: "Android14ProtocolEvidenceVerdict \<Rightarrow> string" where
  "android14ProtocolEvidenceVerdictName kPending = ''pending''"
| "android14ProtocolEvidenceVerdictName kRejected = ''rejected''"
| "android14ProtocolEvidenceVerdictName kProbeCompatible = ''probe_compatible''"

record Android14ProtocolEvidenceSnapshot =
  requiredMask :: uint64
  snap_seenMask :: uint64
  snap_validMask :: uint64
  snap_invalidMask :: uint64
  snap_unsupportedMask :: uint64
  verdict :: Android14ProtocolEvidenceVerdict

record Android14ProtocolEvidence =
  seenMask :: uint64
  validMask :: uint64
  invalidMask :: uint64
  unsupportedMask :: uint64

definition newEvidence :: Android14ProtocolEvidence where
  "newEvidence = \<lparr>seenMask = 0, validMask = 0, invalidMask = 0, unsupportedMask = 0\<rparr>"

definition recordEvidence :: "ParcelObservation \<Rightarrow> Android14ProtocolEvidence \<Rightarrow> Android14ProtocolEvidence" where
  "recordEvidence observation e =
     (let roleBit = android14ProtocolRoleBit (role (transaction observation)) in
      if roleBit = 0 then e
      else let e = e\<lparr>seenMask := seenMask e OR roleBit\<rparr> in
        case status observation of
          kObserved \<Rightarrow> e\<lparr>validMask := validMask e OR roleBit\<rparr>
        | kUnsupportedPayload \<Rightarrow> e\<lparr>unsupportedMask := unsupportedMask e OR roleBit\<rparr>
        | kNullParcel \<Rightarrow> e\<lparr>invalidMask := invalidMask e OR roleBit\<rparr>
        | kMalformedHeader \<Rightarrow> e\<lparr>invalidMask := invalidMask e OR roleBit\<rparr>
        | ParcelObservationStatus.kWrongInterface \<Rightarrow> e\<lparr>invalidMask := invalidMask e OR roleBit\<rparr>
        | kMalformedPayload \<Rightarrow> e\<lparr>invalidMask := invalidMask e OR roleBit\<rparr>
        | kNotRoutedTransaction \<Rightarrow> e)"

definition snapshot :: "Android14ProtocolEvidence \<Rightarrow> Android14ProtocolEvidenceSnapshot" where
  "snapshot e =
     (let result = \<lparr>requiredMask = kRequiredMask, snap_seenMask = seenMask e, snap_validMask = validMask e,
            snap_invalidMask = invalidMask e, snap_unsupportedMask = unsupportedMask e, verdict = kPending\<rparr> in
      if snap_invalidMask result AND requiredMask result \<noteq> 0 \<or>
         snap_unsupportedMask result AND requiredMask result \<noteq> 0 then result\<lparr>verdict := kRejected\<rparr>
      else if snap_validMask result AND requiredMask result = requiredMask result then result\<lparr>verdict := kProbeCompatible\<rparr>
      else result)"

section \<open>The shadow observer\<close>

record Android14BinderShadowObserver =
  shadow_recipe :: AbiRecipe
  shadow_total :: uint64
  shadow_observed :: uint64
  shadow_ignored :: uint64
  shadow_rejected :: uint64
  shadow_unsupported :: uint64
  shadow_claimedPackage :: uint64
  shadow_uidOnly :: uint64
  shadow_identityUnavailable :: uint64
  shadow_evidence :: Android14ProtocolEvidence

definition newShadowObserver :: "AbiRecipe \<Rightarrow> Android14BinderShadowObserver" where
  "newShadowObserver abi = \<lparr>shadow_recipe = abi, shadow_total = 0, shadow_observed = 0, shadow_ignored = 0,
     shadow_rejected = 0, shadow_unsupported = 0, shadow_claimedPackage = 0, shadow_uidOnly = 0,
     shadow_identityUnavailable = 0, shadow_evidence = newEvidence\<rparr>"

definition countIdentity :: "ParcelObservation \<Rightarrow> Android14BinderShadowObserver \<Rightarrow> Android14BinderShadowObserver" where
  "countIdentity observation s =
     (case kind (classifyCameraCallerIdentity (cameraScoped (transaction observation))
             (carriesPackageName (transaction observation)) (callingUid observation) (callingPid observation)
             (packageName observation)) of
        kClaimedPackage \<Rightarrow> s\<lparr>shadow_claimedPackage := shadow_claimedPackage s + 1\<rparr>
      | kUidOnly \<Rightarrow> s\<lparr>shadow_uidOnly := shadow_uidOnly s + 1\<rparr>
      | kUnavailable \<Rightarrow> s\<lparr>shadow_identityUnavailable := shadow_identityUnavailable s + 1\<rparr>
      | kNotApplicable \<Rightarrow> s)"

text \<open>The part of \<open>observe\<close> after the parcel was decoded.\<close>

definition countObservation :: "ParcelObservation \<Rightarrow> Android14BinderShadowObserver \<Rightarrow> Android14BinderShadowObserver" where
  "countObservation observation s =
     (let s = s\<lparr>shadow_evidence := recordEvidence observation (shadow_evidence s)\<rparr> in
      case status observation of
        kObserved \<Rightarrow> countIdentity observation (s\<lparr>shadow_observed := shadow_observed s + 1\<rparr>)
      | kNotRoutedTransaction \<Rightarrow> s\<lparr>shadow_ignored := shadow_ignored s + 1\<rparr>
      | kUnsupportedPayload \<Rightarrow> s\<lparr>shadow_unsupported := shadow_unsupported s + 1\<rparr>
      | kNullParcel \<Rightarrow> s\<lparr>shadow_rejected := shadow_rejected s + 1\<rparr>
      | kMalformedHeader \<Rightarrow> s\<lparr>shadow_rejected := shadow_rejected s + 1\<rparr>
      | ParcelObservationStatus.kWrongInterface \<Rightarrow> s\<lparr>shadow_rejected := shadow_rejected s + 1\<rparr>
      | kMalformedPayload \<Rightarrow> s\<lparr>shadow_rejected := shadow_rejected s + 1\<rparr>)"

definition shadowObserve ::
  "('p, 'b, 's) ParcelApi \<Rightarrow> int \<Rightarrow> int \<Rightarrow> uint32 \<Rightarrow> 'p option \<Rightarrow> Android14BinderShadowObserver \<Rightarrow>
   ParcelObservation \<times> 'p option \<times> Android14BinderShadowObserver" where
  "shadowObserve api uid pid txnCode dataParcel s =
     (let s = s\<lparr>shadow_total := shadow_total s + 1\<rparr> in
      case observeAndroid14CameraServiceParcel api uid pid (shadow_recipe s) txnCode dataParcel of
        (observation, dataParcel) \<Rightarrow> (observation, dataParcel, countObservation observation s))"

record Android14ShadowObservationStats =
  stats_total :: uint64
  stats_observed :: uint64
  stats_ignored :: uint64
  stats_rejected :: uint64
  stats_unsupported :: uint64
  stats_claimedPackage :: uint64
  stats_uidOnly :: uint64
  stats_identityUnavailable :: uint64
  stats_protocolEvidence :: Android14ProtocolEvidenceSnapshot

definition shadowStats :: "Android14BinderShadowObserver \<Rightarrow> Android14ShadowObservationStats" where
  "shadowStats s = \<lparr>stats_total = shadow_total s, stats_observed = shadow_observed s, stats_ignored = shadow_ignored s,
     stats_rejected = shadow_rejected s, stats_unsupported = shadow_unsupported s,
     stats_claimedPackage = shadow_claimedPackage s, stats_uidOnly = shadow_uidOnly s,
     stats_identityUnavailable = shadow_identityUnavailable s, stats_protocolEvidence = snapshot (shadow_evidence s)\<rparr>"

text \<open>The callback the bridge calls; a null context is \<open>None\<close>.\<close>

definition bridgeCallback ::
  "('p, 'b, 's) ParcelApi \<Rightarrow> int \<Rightarrow> int \<Rightarrow> uint32 \<Rightarrow> 'p option \<Rightarrow> Android14BinderShadowObserver option \<Rightarrow>
   'p option \<times> Android14BinderShadowObserver option" where
  "bridgeCallback api uid pid txnCode dataParcel context =
     (case context of
        None \<Rightarrow> (dataParcel, None)
      | Some s \<Rightarrow> (case shadowObserve api uid pid txnCode dataParcel s of (_, p, s') \<Rightarrow> (p, Some s')))"

section \<open>Masks as sets of roles\<close>

definition roleNames :: "string list" where
  "roleNames = [''connect_api1'', ''connect_device'', ''add_listener'', ''get_concurrent_camera_ids'',
     ''concurrent_session_support'', ''remove_listener'', ''get_camera_characteristics'', ''get_legacy_parameters'',
     ''supports_camera_api'', ''set_torch_mode'', ''turn_on_torch_with_strength'', ''get_torch_strength'']"

text \<open>Every reviewed role but the legacy parameters and the concurrent-session query.\<close>

definition requiredRoles :: "string set" where
  "requiredRoles = set roleNames - {''concurrent_session_support'', ''get_legacy_parameters''}"

definition role_mask :: "string set \<Rightarrow> uint64 \<Rightarrow> bool" where
  "role_mask roles w \<longleftrightarrow> (\<forall>i. bit w i \<longleftrightarrow> i < length roleNames \<and> roleNames ! i \<in> roles)"

lemma bit_bitMask: "bit (bitMask i) j \<longleftrightarrow> i = j \<and> j < 64"
  by (auto simp: bitMask_def bit_simps)

lemma distinct_roles: "distinct roleNames"
  by (simp add: roleNames_def)

lemma length_roleNames: "length roleNames = 12"
  by (simp add: roleNames_def)

lemma role_bits: "map android14ProtocolRoleBit roleNames = map bitMask [0..<12]"
  by (simp add: roleNames_def android14ProtocolRoleBit_def upt_conv_Cons numeral_eq_Suc)

lemma role_bit_nth: "i < length roleNames \<Longrightarrow> android14ProtocolRoleBit (roleNames ! i) = bitMask i"
  using arg_cong [where f = "\<lambda>xs. xs ! i", OF role_bits] by (simp add: length_roleNames)

lemma role_bit_other: "r \<notin> set roleNames \<Longrightarrow> android14ProtocolRoleBit r = 0"
  by (simp add: roleNames_def android14ProtocolRoleBit_def)

lemma role_bit_mask: "role_mask {r} (android14ProtocolRoleBit r)"
proof (cases "r \<in> set roleNames")
  case True
  then obtain i where i: "i < length roleNames" "r = roleNames ! i" by (auto simp: in_set_conv_nth)
  have "bit (bitMask i) j \<longleftrightarrow> i = j" for j using i(1) by (auto simp: bit_bitMask length_roleNames)
  moreover have "j < length roleNames \<and> roleNames ! j = r \<longleftrightarrow> i = j" for j
    using i distinct_roles nth_eq_iff_index_eq by metis
  ultimately show ?thesis
    by (simp add: role_mask_def i(2) role_bit_nth [OF i(1)])
next
  case False
  then have "j < length roleNames \<Longrightarrow> roleNames ! j \<noteq> r" for j by (metis nth_mem)
  with False show ?thesis by (auto simp: role_mask_def role_bit_other [OF False])
qed

lemma role_bit_zero: "android14ProtocolRoleBit r = 0 \<longleftrightarrow> r \<notin> set roleNames"
proof
  show "r \<notin> set roleNames" if "android14ProtocolRoleBit r = 0"
    using role_bit_mask [of r] that by (auto simp: role_mask_def in_set_conv_nth)
qed (rule role_bit_other)

lemma role_mask_or: "role_mask A a \<Longrightarrow> role_mask B b \<Longrightarrow> role_mask (A \<union> B) (a OR b)"
  by (auto simp: role_mask_def bit_or_iff)

lemma role_mask_empty: "role_mask {} 0"
  by (simp add: role_mask_def)

lemma role_mask_and: "role_mask A a \<Longrightarrow> role_mask B b \<Longrightarrow> role_mask (A \<inter> B) (a AND b)"
  by (auto simp: role_mask_def bit_and_iff)

lemma role_mask_set:
  assumes "role_mask A a" "A \<subseteq> set roleNames"
  shows "A = (!) roleNames ` {i. bit a i}"
proof
  show "A \<subseteq> (!) roleNames ` {i. bit a i}"
  proof
    fix r assume r: "r \<in> A"
    then obtain i where "i < length roleNames" "roleNames ! i = r" using assms(2) by (metis in_set_conv_nth subsetD)
    with r assms(1) show "r \<in> (!) roleNames ` {i. bit a i}" by (auto simp: role_mask_def)
  qed
  show "(!) roleNames ` {i. bit a i} \<subseteq> A" using assms(1) by (auto simp: role_mask_def)
qed

lemma role_mask_eq:
  assumes "role_mask A a" "role_mask B b" "A \<subseteq> set roleNames" "B \<subseteq> set roleNames"
  shows "a = b \<longleftrightarrow> A = B"
proof
  show "A = B" if "a = b" using role_mask_set [OF assms(1,3)] role_mask_set [OF assms(2,4)] that by simp
  show "a = b" if "A = B" using assms(1,2) that by (simp add: role_mask_def bit_eq_iff)
qed

lemma role_mask_zero: "role_mask A a \<Longrightarrow> A \<subseteq> set roleNames \<Longrightarrow> a = 0 \<longleftrightarrow> A = {}"
  using role_mask_eq [OF _ role_mask_empty] by simp

lemma required_mask: "role_mask requiredRoles kRequiredMask"
proof -
  have "role_mask ({roleNames ! 0} \<union> ({roleNames ! 1} \<union> ({roleNames ! 2} \<union> ({roleNames ! 3} \<union> ({roleNames ! 5} \<union>
      ({roleNames ! 6} \<union> ({roleNames ! 8} \<union> ({roleNames ! 9} \<union> ({roleNames ! 10} \<union> {roleNames ! 11}))))))))) kRequiredMask"
    unfolding kRequiredMask_def
    by (intro role_mask_or) (subst role_bit_nth [symmetric], simp add: roleNames_def, rule role_bit_mask)+
  moreover have "requiredRoles = {roleNames ! 0} \<union> ({roleNames ! 1} \<union> ({roleNames ! 2} \<union> ({roleNames ! 3} \<union> ({roleNames ! 5} \<union>
      ({roleNames ! 6} \<union> ({roleNames ! 8} \<union> ({roleNames ! 9} \<union> ({roleNames ! 10} \<union> {roleNames ! 11}))))))))"
    by (auto simp: requiredRoles_def roleNames_def)
  ultimately show ?thesis by simp
qed

section \<open>The history of observations\<close>

definition invalid_status :: "ParcelObservationStatus \<Rightarrow> bool" where
  "invalid_status st \<longleftrightarrow> st \<in> {kNullParcel, kMalformedHeader, ParcelObservationStatus.kWrongInterface, kMalformedPayload}"

definition roles_with :: "(ParcelObservationStatus \<Rightarrow> bool) \<Rightarrow> ParcelObservation list \<Rightarrow> string set" where
  "roles_with P os = {role (transaction ob) | ob. ob \<in> set os \<and> P (status ob)} \<inter> set roleNames"

definition evidence_of :: "ParcelObservation list \<Rightarrow> Android14ProtocolEvidence \<Rightarrow> bool" where
  "evidence_of os e \<longleftrightarrow> role_mask (roles_with (\<lambda>_. True) os) (seenMask e) \<and>
     role_mask (roles_with (\<lambda>st. st = kObserved) os) (validMask e) \<and>
     role_mask (roles_with invalid_status os) (invalidMask e) \<and>
     role_mask (roles_with (\<lambda>st. st = kUnsupportedPayload) os) (unsupportedMask e)"

lemma roles_with_snoc:
  "roles_with P (os @ [ob]) = roles_with P os \<union>
     (if P (status ob) \<and> role (transaction ob) \<in> set roleNames then {role (transaction ob)} else {})"
  by (auto simp: roles_with_def)

lemma role_mask_insert: "role_mask A a \<Longrightarrow> role_mask (insert r A) (a OR android14ProtocolRoleBit r)"
  using role_mask_or [OF _ role_bit_mask, of A a r] by simp

lemma record_evidence: "evidence_of os e \<Longrightarrow> evidence_of (os @ [ob]) (recordEvidence ob e)"
  by (cases "status ob")
    (auto simp: evidence_of_def roles_with_snoc recordEvidence_def Let_def role_bit_zero invalid_status_def
      intro: role_mask_insert)

lemma evidence_history: "evidence_of os (fold recordEvidence os newEvidence)"
proof (induction os rule: rev_induct)
  case Nil
  then show ?case by (simp add: evidence_of_def newEvidence_def roles_with_def role_mask_empty)
next
  case (snoc ob os)
  then show ?case by (simp add: record_evidence)
qed

text \<open>The verdict a reader of the history would give.\<close>

definition history_verdict :: "ParcelObservation list \<Rightarrow> Android14ProtocolEvidenceVerdict" where
  "history_verdict os =
     (if requiredRoles \<inter> roles_with (\<lambda>st. invalid_status st \<or> st = kUnsupportedPayload) os \<noteq> {} then kRejected
      else if requiredRoles \<subseteq> roles_with (\<lambda>st. st = kObserved) os then kProbeCompatible
      else kPending)"

lemma roles_with_names: "roles_with P os \<subseteq> set roleNames" "requiredRoles \<subseteq> set roleNames"
  by (auto simp: roles_with_def requiredRoles_def)

lemma evidence_verdict:
  assumes "evidence_of os e"
  shows "verdict (snapshot e) = history_verdict os"
proof -
  let ?inv = "roles_with invalid_status os" and ?uns = "roles_with (\<lambda>st. st = kUnsupportedPayload) os"
    and ?val = "roles_with (\<lambda>st. st = kObserved) os"
  have m: "role_mask ?inv (invalidMask e)" "role_mask ?uns (unsupportedMask e)" "role_mask ?val (validMask e)"
    using assms by (simp_all add: evidence_of_def)
  have z: "invalidMask e AND kRequiredMask = 0 \<longleftrightarrow> ?inv \<inter> requiredRoles = {}"
    "unsupportedMask e AND kRequiredMask = 0 \<longleftrightarrow> ?uns \<inter> requiredRoles = {}"
    using role_mask_zero [OF role_mask_and [OF m(1) required_mask]] role_mask_zero [OF role_mask_and [OF m(2) required_mask]]
      roles_with_names(1) by blast+
  have v: "validMask e AND kRequiredMask = kRequiredMask \<longleftrightarrow> ?val \<inter> requiredRoles = requiredRoles"
    using role_mask_eq [OF role_mask_and [OF m(3) required_mask] required_mask] roles_with_names(2) by blast
  have "roles_with (\<lambda>st. invalid_status st \<or> st = kUnsupportedPayload) os = ?inv \<union> ?uns"
    by (auto simp: roles_with_def)
  then show ?thesis
    using z v by (simp add: snapshot_def Let_def history_verdict_def Int_Un_distrib inf.absorb_iff2 Int_commute)
qed

section \<open>The counters\<close>

text \<open>A sequence of calls of the observer: caller, code and parcel of each.\<close>

fun shadowRun ::
  "('p, 'b, 's) ParcelApi \<Rightarrow> (int \<times> int \<times> uint32 \<times> 'p option) list \<Rightarrow> Android14BinderShadowObserver \<Rightarrow>
   ParcelObservation list \<times> Android14BinderShadowObserver" where
  "shadowRun api [] s = ([], s)"
| "shadowRun api ((uid, pid, txnCode, p) # calls) s =
     (case shadowObserve api uid pid txnCode p s of (ob, _, s') \<Rightarrow>
      case shadowRun api calls s' of (obs, s'') \<Rightarrow> (ob # obs, s''))"

definition number :: "('a \<Rightarrow> bool) \<Rightarrow> 'a list \<Rightarrow> uint64" where
  "number P xs = of_nat (length (filter P xs))"

lemma number_simps [simp]:
  "number P [] = 0" "number P (x # xs) = (if P x then 1 else 0) + number P xs"
  by (simp_all add: number_def)

definition has_identity :: "CameraCallerIdentityKind \<Rightarrow> ParcelObservation \<Rightarrow> bool" where
  "has_identity k ob \<longleftrightarrow> status ob = kObserved \<and>
     kind (classifyCameraCallerIdentity (cameraScoped (transaction ob)) (carriesPackageName (transaction ob))
       (callingUid ob) (callingPid ob) (packageName ob)) = k"

definition counted :: "ParcelObservation list \<Rightarrow> Android14BinderShadowObserver \<Rightarrow> Android14BinderShadowObserver" where
  "counted obs s = s\<lparr>
     shadow_total := shadow_total s + of_nat (length obs),
     shadow_observed := shadow_observed s + number (\<lambda>ob. status ob = kObserved) obs,
     shadow_ignored := shadow_ignored s + number (\<lambda>ob. status ob = kNotRoutedTransaction) obs,
     shadow_rejected := shadow_rejected s + number (\<lambda>ob. invalid_status (status ob)) obs,
     shadow_unsupported := shadow_unsupported s + number (\<lambda>ob. status ob = kUnsupportedPayload) obs,
     shadow_claimedPackage := shadow_claimedPackage s + number (has_identity kClaimedPackage) obs,
     shadow_uidOnly := shadow_uidOnly s + number (has_identity kUidOnly) obs,
     shadow_identityUnavailable := shadow_identityUnavailable s + number (has_identity kUnavailable) obs,
     shadow_evidence := fold recordEvidence obs (shadow_evidence s)\<rparr>"

lemma count_one:
  "countObservation ob (s\<lparr>shadow_total := shadow_total s + 1\<rparr>) = counted [ob] s"
proof (cases "status ob")
  case kObserved
  then show ?thesis
    by (cases "kind (classifyCameraCallerIdentity (cameraScoped (transaction ob)) (carriesPackageName (transaction ob))
       (callingUid ob) (callingPid ob) (packageName ob))")
      (simp_all add: countObservation_def countIdentity_def counted_def has_identity_def invalid_status_def Let_def)
qed (simp_all add: countObservation_def counted_def has_identity_def invalid_status_def Let_def)

lemma counted_append: "counted obs (counted [ob] s) = counted (ob # obs) s"
  by (simp add: counted_def add.assoc)

lemma shadowObserve_counts:
  "shadowObserve api uid pid txnCode p s = (ob, p', s') \<Longrightarrow> s' = counted [ob] s"
  using count_one by (auto simp: shadowObserve_def Let_def split: prod.splits)

lemma shadowRun_counts: "shadowRun api calls s = (obs, s') \<Longrightarrow> s' = counted obs s \<and> length obs = length calls"
proof (induction api calls s arbitrary: obs s' rule: shadowRun.induct)
  case (1 api s)
  then show ?case by (simp add: counted_def)
next
  case (2 api uid pid txnCode p calls s)
  obtain ob p1 s1 where 1: "shadowObserve api uid pid txnCode p s = (ob, p1, s1)"
    by (cases "shadowObserve api uid pid txnCode p s")
  obtain obs2 s2 where 2: "shadowRun api calls s1 = (obs2, s2)" by (cases "shadowRun api calls s1")
  show ?case
    using "2.IH" [OF 1 [symmetric] refl] "2.prems" 1 2 shadowObserve_counts [OF 1] counted_append by auto
qed

lemma status_partition:
  "number (\<lambda>ob. status ob = kObserved) obs + number (\<lambda>ob. status ob = kNotRoutedTransaction) obs +
   number (\<lambda>ob. invalid_status (status ob)) obs + number (\<lambda>ob. status ob = kUnsupportedPayload) obs = of_nat (length obs)"
proof (induction obs)
  case (Cons ob obs)
  then show ?case by (cases "status ob") (simp_all add: invalid_status_def ac_simps)
qed simp

section \<open>Properties\<close>

text \<open>
  C29. The verdict that the masks give after any sequence of observations is the one the
  history itself gives: rejected if some reviewed required role was ever seen with an invalid
  or an unsupported payload, otherwise probe-compatible if every required role was seen with
  a valid payload, otherwise pending.
\<close>
theorem verdict_is_history_verdict:
  "verdict (snapshot (fold recordEvidence os newEvidence)) = history_verdict os"
  by (rule evidence_verdict [OF evidence_history])


end
