(* ===== verification/Camera_Routes.thy ===== *)
theory Camera_Routes
  imports C_Strings
begin

text \<open>
  The routing tables: \<open>src/hal/src/RouteResolver.cpp\<close> chooses the provider of a package for a
  camera slot and \<open>src/hal/src/ScopedCameraRouter.cpp\<close> maps visible camera ids to slots and
  back.  \<open>files\<close> gives the contents of the files that can be opened.
\<close>

section \<open>Definitions\<close>

type_synonym file_contents = "string \<Rightarrow> string option"

datatype RouteMatchKind = NoMatch | Package | Global

record ProviderSelection =
  sel_providerId :: string
  sel_configured :: bool
  sel_available :: bool
  sel_match :: RouteMatchKind

definition selection :: "string \<Rightarrow> bool \<Rightarrow> bool \<Rightarrow> RouteMatchKind \<Rightarrow> ProviderSelection" where
  "selection provider configured available m =
     \<lparr>sel_providerId = provider, sel_configured = configured, sel_available = available, sel_match = m\<rparr>"

definition validProviderId :: "string \<Rightarrow> bool" where
  "validProviderId v \<longleftrightarrow> \<not> (v = [] \<or> length v > 64) \<and>
     list_all (\<lambda>c. (97 \<le> code c \<and> code c \<le> 122) \<or> (65 \<le> code c \<and> code c \<le> 90) \<or> (48 \<le> code c \<and> code c \<le> 57) \<or>
       c = CHR ''.'' \<or> c = CHR ''_'' \<or> c = CHR ''-'') v"

text \<open>\<open>std::to_string(int)\<close>.\<close>

definition intToString :: "int \<Rightarrow> string" where
  "intToString i = (if i < 0 then CHR ''-'' # toString (nat (- i)) else toString (nat i))"

definition defaultPhysicalProvider :: "int \<Rightarrow> string" where
  "defaultPhysicalProvider cameraId = ''physical-'' @ intToString cameraId"

definition physicalIdFromProvider :: "string \<Rightarrow> int" where
  "physicalIdFromProvider provider =
     (let prefix = ''physical-'' in
      if take (length prefix) provider \<noteq> prefix then - 1
      else case strto 10 (cstr (drop (length prefix) provider)) of
        None \<Rightarrow> - 1
      | Some (parsed, rest) \<Rightarrow> if rest = [] \<and> parsed \<ge> 0 \<and> parsed \<le> 1 then parsed else - 1)"

definition selectionForProvider :: "file_contents \<Rightarrow> string \<Rightarrow> string \<Rightarrow> RouteMatchKind \<Rightarrow> ProviderSelection" where
  "selectionForProvider files providersPath provider m =
     (if \<not> validProviderId provider then selection provider True False m
      else if physicalIdFromProvider provider \<ge> 0 then selection provider True True m
      else selection provider True (files (providersPath @ ''/'' @ provider @ ''/enabled'') \<noteq> None) m)"

text \<open>The loop over the lines: a provider of the package, or the global provider at the end.\<close>

fun routeLoop :: "string \<Rightarrow> int \<Rightarrow> string list \<Rightarrow> string \<Rightarrow> string + string" where
  "routeLoop packageName cameraId [] globalProvider = Inr globalProvider"
| "routeLoop packageName cameraId (l # ls) globalProvider =
     (let line = trimCarriageReturn l in
      case splitAt tab line of
        None \<Rightarrow> routeLoop packageName cameraId ls globalProvider
      | Some (routePackage, rest) \<Rightarrow>
          (case splitAt tab rest of
             None \<Rightarrow> routeLoop packageName cameraId ls globalProvider
           | Some (slot, provider) \<Rightarrow>
               (if slot \<noteq> intToString cameraId then routeLoop packageName cameraId ls globalProvider
                else if packageName \<noteq> [] \<and> routePackage = packageName then Inl provider
                else routeLoop packageName cameraId ls
                  (if routePackage = ''*'' \<and> globalProvider = [] then provider else globalProvider))))"

definition resolveProviderForPackage ::
  "file_contents \<Rightarrow> string \<Rightarrow> int \<Rightarrow> string \<Rightarrow> string \<Rightarrow> ProviderSelection" where
  "resolveProviderForPackage files packageName cameraId routesPath providersPath =
     (let fallback = defaultPhysicalProvider cameraId in
      if files (routesPath @ ''.disabled'') \<noteq> None then selection fallback False True NoMatch
      else case files routesPath of
        None \<Rightarrow> selection fallback False True NoMatch
      | Some text \<Rightarrow>
          (case routeLoop packageName cameraId (getlines text) [] of
             Inl provider \<Rightarrow> selectionForProvider files providersPath provider Package
           | Inr globalProvider \<Rightarrow>
               if globalProvider \<noteq> [] then selectionForProvider files providersPath globalProvider Global
               else selection fallback False True NoMatch))"

definition providerForPackage :: "file_contents \<Rightarrow> string \<Rightarrow> int \<Rightarrow> string \<Rightarrow> string \<Rightarrow> string" where
  "providerForPackage files packageName cameraId routesPath providersPath =
     (let s = resolveProviderForPackage files packageName cameraId routesPath providersPath in
      if sel_available s then sel_providerId s else defaultPhysicalProvider cameraId)"

definition framePath :: "string \<Rightarrow> string \<Rightarrow> string" where
  "framePath provider providersPath = providersPath @ ''/'' @ provider @ ''/frame.rgb''"

section \<open>Scoped routes\<close>

record ScopedCameraRoute =
  requestedCameraId :: string
  effectiveCameraId :: string
  route_providerId :: string
  configured :: bool
  available :: bool
  redirected :: bool
  match :: RouteMatchKind

definition kBackVirtualCameraId :: string where "kBackVirtualCameraId = ''1000''"
definition kFrontVirtualCameraId :: string where "kFrontVirtualCameraId = ''1001''"

definition legacyTargetSlot :: "string \<Rightarrow> int" where
  "legacyTargetSlot cam = (if cam = ''0'' then 0 else if cam = ''1'' then 1 else - 1)"

definition parseTargetMapLine :: "string \<Rightarrow> (string \<times> int) option" where
  "parseTargetMapLine line =
     (case splitAt tab line of
        None \<Rightarrow> None
      | Some (visibleId, slot) \<Rightarrow>
          if visibleId = [] \<or> tab \<in> set slot then None
          else if slot \<noteq> ''0'' \<and> slot \<noteq> ''1'' then None
          else Some (visibleId, int (code (hd slot)) - 48))"

fun targetSlotLoop :: "string \<Rightarrow> string list \<Rightarrow> int" where
  "targetSlotLoop cam [] = - 1"
| "targetSlotLoop cam (l # ls) =
     (case parseTargetMapLine (trimCarriageReturn l) of
        None \<Rightarrow> targetSlotLoop cam ls
      | Some (visibleId, slot) \<Rightarrow> if visibleId = cam then slot else targetSlotLoop cam ls)"

definition targetSlot :: "file_contents \<Rightarrow> string \<Rightarrow> string \<Rightarrow> int" where
  "targetSlot files cam targetMapPath =
     (case files targetMapPath of None \<Rightarrow> legacyTargetSlot cam | Some text \<Rightarrow> targetSlotLoop cam (getlines text))"

fun visibleIdLoop :: "int \<Rightarrow> string list \<Rightarrow> string" where
  "visibleIdLoop wantedSlot [] = []"
| "visibleIdLoop wantedSlot (l # ls) =
     (case parseTargetMapLine (trimCarriageReturn l) of
        None \<Rightarrow> visibleIdLoop wantedSlot ls
      | Some (visibleId, slot) \<Rightarrow> if slot = wantedSlot then visibleId else visibleIdLoop wantedSlot ls)"

definition visibleIdForSlot :: "file_contents \<Rightarrow> int \<Rightarrow> string \<Rightarrow> string" where
  "visibleIdForSlot files wantedSlot targetMapPath =
     (case files targetMapPath of
        None \<Rightarrow> if wantedSlot = 0 then ''0'' else ''1''
      | Some text \<Rightarrow> visibleIdLoop wantedSlot (getlines text))"

definition isNonNegativeInteger :: "string \<Rightarrow> bool" where
  "isNonNegativeInteger v \<longleftrightarrow> v \<noteq> [] \<and> list_all (\<lambda>c. 48 \<le> code c \<and> code c \<le> 57) v"

definition resolve :: "file_contents \<Rightarrow> string \<Rightarrow> string \<Rightarrow> string \<Rightarrow> string \<Rightarrow> string \<Rightarrow> ScopedCameraRoute" where
  "resolve files packageName requested routesPath providersPath targetMapPath =
     (let route = \<lparr>requestedCameraId = requested, effectiveCameraId = requested, route_providerId = [], configured = False,
            available = True, redirected = False, match = NoMatch\<rparr>;
          target = targetSlot files requested targetMapPath in
      if target < 0 then route
      else let s = resolveProviderForPackage files packageName target routesPath providersPath;
               route = route\<lparr>route_providerId := sel_providerId s, configured := sel_configured s,
                 available := sel_available s, match := sel_match s\<rparr> in
        if physicalIdFromProvider (route_providerId route) \<ge> 0 then route
        else route\<lparr>effectiveCameraId := if target = 0 then kBackVirtualCameraId else kFrontVirtualCameraId,
               redirected := available route\<rparr>)"

definition isInternalCameraId :: "string \<Rightarrow> bool" where
  "isInternalCameraId cam \<longleftrightarrow> cam = kBackVirtualCameraId \<or> cam = kFrontVirtualCameraId"

definition visibleCameraId :: "file_contents \<Rightarrow> string \<Rightarrow> string \<Rightarrow> string" where
  "visibleCameraId files cam targetMapPath =
     (if cam = kBackVirtualCameraId then visibleIdForSlot files 0 targetMapPath
      else if cam = kFrontVirtualCameraId then visibleIdForSlot files 1 targetMapPath
      else cam)"

definition physicalCameraIdForProvider :: "file_contents \<Rightarrow> string \<Rightarrow> string \<Rightarrow> string" where
  "physicalCameraIdForProvider files providerId targetMapPath =
     (let physicalSlot = physicalIdFromProvider providerId in
      if physicalSlot < 0 then [] else visibleIdForSlot files physicalSlot targetMapPath)"

fun camera1Loop :: "string \<Rightarrow> string list \<Rightarrow> string" where
  "camera1Loop cam [] = []"
| "camera1Loop cam (l # ls) =
     (case splitAt tab (trimCarriageReturn l) of
        None \<Rightarrow> camera1Loop cam ls
      | Some (mappedId, index) \<Rightarrow>
          if mappedId = [] \<or> tab \<in> set index then camera1Loop cam ls
          else if mappedId = cam \<and> isNonNegativeInteger index then index
          else camera1Loop cam ls)"

definition camera1IndexForId :: "file_contents \<Rightarrow> string \<Rightarrow> string \<Rightarrow> string" where
  "camera1IndexForId files cam camera1MapPath =
     (case files camera1MapPath of None \<Rightarrow> [] | Some text \<Rightarrow> camera1Loop cam (getlines text))"

section \<open>A table of routes\<close>

text \<open>The entries of a routing file: package, slot and provider of each well-formed line.\<close>

definition parse_route :: "string \<Rightarrow> (string \<times> string \<times> string) option" where
  "parse_route l = (case splitAt tab (trimCarriageReturn l) of None \<Rightarrow> None
     | Some (p, rest) \<Rightarrow> (case splitAt tab rest of None \<Rightarrow> None | Some (slot, provider) \<Rightarrow> Some (p, slot, provider)))"

definition routes_for :: "int \<Rightarrow> string list \<Rightarrow> (string \<times> string) list" where
  "routes_for cameraId ls = map (\<lambda>(p, _, provider). (p, provider))
     (filter (\<lambda>(_, slot, _). slot = intToString cameraId) (List.map_filter parse_route ls))"

definition package_route :: "string \<Rightarrow> (string \<times> string) list \<Rightarrow> string option" where
  "package_route packageName es = (if packageName = [] then None else map_of es packageName)"

definition global_route :: "(string \<times> string) list \<Rightarrow> string option" where
  "global_route es = map_of (filter (\<lambda>e. snd e \<noteq> []) es) ''*''"

lemma routes_for_Cons:
  "routes_for cameraId (l # ls) =
     (case parse_route l of None \<Rightarrow> [] | Some (p, slot, provider) \<Rightarrow> if slot = intToString cameraId then [(p, provider)] else []) @
     routes_for cameraId ls"
  by (auto simp: routes_for_def map_filter_simps split: option.split)

lemma routeLoop_Cons:
  "routeLoop packageName cameraId (l # ls) g =
     (case parse_route l of
        None \<Rightarrow> routeLoop packageName cameraId ls g
      | Some (p, slot, provider) \<Rightarrow>
          if slot \<noteq> intToString cameraId then routeLoop packageName cameraId ls g
          else if packageName \<noteq> [] \<and> p = packageName then Inl provider
          else routeLoop packageName cameraId ls (if p = ''*'' \<and> g = [] then provider else g))"
  by (auto simp: parse_route_def Let_def split: option.split prod.split)

declare routeLoop.simps(2) [simp del]

lemma routeLoop_table:
  "routeLoop packageName cameraId ls g =
     (case package_route packageName (routes_for cameraId ls) of
        Some provider \<Rightarrow> Inl provider
      | None \<Rightarrow> Inr (if g \<noteq> [] then g else case global_route (routes_for cameraId ls) of None \<Rightarrow> [] | Some p \<Rightarrow> p))"
proof (induction ls arbitrary: g)
  case Nil
  then show ?case by (simp add: routes_for_def package_route_def global_route_def)
next
  case (Cons l ls)
  show ?case
    unfolding routeLoop_Cons Cons.IH routes_for_Cons
    by (auto simp: package_route_def global_route_def split: option.split)
qed

lemma global_route_nonempty: "global_route es = Some p \<Longrightarrow> p \<noteq> []"
  by (auto simp: global_route_def dest: map_of_SomeD)

definition table_selection :: "file_contents \<Rightarrow> string \<Rightarrow> int \<Rightarrow> (string \<times> string) list \<Rightarrow> string \<Rightarrow> ProviderSelection" where
  "table_selection files packageName cameraId es providersPath =
     (case package_route packageName es of
        Some provider \<Rightarrow> selectionForProvider files providersPath provider Package
      | None \<Rightarrow> (case global_route es of
          Some provider \<Rightarrow> selectionForProvider files providersPath provider Global
        | None \<Rightarrow> selection (defaultPhysicalProvider cameraId) False True NoMatch))"

definition active_routes :: "file_contents \<Rightarrow> int \<Rightarrow> string \<Rightarrow> (string \<times> string) list" where
  "active_routes files cameraId routesPath =
     (if files (routesPath @ ''.disabled'') \<noteq> None then []
      else case files routesPath of None \<Rightarrow> [] | Some text \<Rightarrow> routes_for cameraId (getlines text))"

lemma no_routes: "table_selection files packageName cameraId [] providersPath = selection (defaultPhysicalProvider cameraId) False True NoMatch"
  by (simp add: table_selection_def package_route_def global_route_def)

lemma resolve_table:
  "resolveProviderForPackage files packageName cameraId routesPath providersPath =
     table_selection files packageName cameraId (active_routes files cameraId routesPath) providersPath"
proof (cases "files (routesPath @ ''.disabled'') \<noteq> None \<or> files routesPath = None")
  case True
  then show ?thesis by (auto simp: resolveProviderForPackage_def active_routes_def no_routes split: option.split)
next
  case False
  then show ?thesis
    by (auto simp: resolveProviderForPackage_def active_routes_def table_selection_def routeLoop_table
        dest: global_route_nonempty split: option.split)
qed

subsection \<open>The map of visible ids\<close>

definition map_entries :: "string list \<Rightarrow> (string \<times> int) list" where
  "map_entries ls = List.map_filter (\<lambda>l. parseTargetMapLine (trimCarriageReturn l)) ls"

lemma map_entries_Cons:
  "map_entries (l # ls) = (case parseTargetMapLine (trimCarriageReturn l) of None \<Rightarrow> [] | Some e \<Rightarrow> [e]) @ map_entries ls"
  by (auto simp: map_entries_def map_filter_simps split: option.split)

lemma parsed_slot: "parseTargetMapLine l = Some (v, s) \<Longrightarrow> s = 0 \<or> s = 1"
  by (auto simp: parseTargetMapLine_def split: option.splits if_splits)

lemma entry_slot: "(v, s) \<in> set (map_entries ls) \<Longrightarrow> s = 0 \<or> s = 1"
  by (induction ls) (auto simp: map_entries_Cons map_entries_def map_filter_simps(2) split: option.splits dest: parsed_slot)

lemma targetSlotLoop_entries: "targetSlotLoop cam ls = (case map_of (map_entries ls) cam of None \<Rightarrow> - 1 | Some s \<Rightarrow> s)"
  by (induction ls) (auto simp: map_entries_Cons map_entries_def [of "[]"] map_filter_simps(2) split: option.split)

lemma visibleIdLoop_entries:
  "visibleIdLoop s ls = (case map_of (map (\<lambda>(v, t). (t, v)) (map_entries ls)) s of None \<Rightarrow> [] | Some v \<Rightarrow> v)"
  by (induction ls) (auto simp: map_entries_Cons map_entries_def [of "[]"] map_filter_simps(2) split: option.split)

text \<open>A target map that gives each slot to one id.\<close>

definition one_id_per_slot :: "file_contents \<Rightarrow> string \<Rightarrow> bool" where
  "one_id_per_slot files targetMapPath \<longleftrightarrow>
     (case files targetMapPath of None \<Rightarrow> True | Some text \<Rightarrow> distinct (map snd (map_entries (getlines text))))"

lemma targetSlot_range: "targetSlot files cam path < 0 \<or> targetSlot files cam path = 0 \<or> targetSlot files cam path = 1"
  by (auto simp: targetSlot_def legacyTargetSlot_def targetSlotLoop_entries split: option.split dest: map_of_SomeD entry_slot)

lemma visible_of_target:
  assumes "one_id_per_slot files path" "targetSlot files cam path = s" "0 \<le> s"
  shows "visibleIdForSlot files s path = cam"
proof (cases "files path")
  case None
  then show ?thesis using assms by (auto simp: targetSlot_def legacyTargetSlot_def visibleIdForSlot_def split: if_splits)
next
  case (Some t)
  let ?es = "map_entries (getlines t)"
  have "(cam, s) \<in> set ?es"
    using assms(2,3) Some by (auto simp: targetSlot_def targetSlotLoop_entries split: option.splits dest: map_of_SomeD)
  moreover have "distinct (map fst (map (\<lambda>(v, t). (t, v)) ?es))"
    using assms(1) Some by (simp add: one_id_per_slot_def comp_def case_prod_unfold)
  ultimately have "map_of (map (\<lambda>(v, t). (t, v)) ?es) s = Some cam"
    by (intro map_of_is_SomeI) (auto intro!: rev_image_eqI)
  then show ?thesis using Some by (simp add: visibleIdForSlot_def visibleIdLoop_entries)
qed

lemma default_is_physical: "s = 0 \<or> s = 1 \<Longrightarrow> physicalIdFromProvider (defaultPhysicalProvider s) = s"
  by (elim disjE) (simp_all, code_simp+)

lemma virtual_selection:
  assumes "physicalIdFromProvider (sel_providerId (table_selection files packageName s es providersPath)) < 0" "s = 0 \<or> s = 1"
    "sel_available (table_selection files packageName s es providersPath)"
  shows "sel_configured (table_selection files packageName s es providersPath) \<and>
    validProviderId (sel_providerId (table_selection files packageName s es providersPath)) \<and>
    files (providersPath @ ''/'' @ sel_providerId (table_selection files packageName s es providersPath) @ ''/enabled'') \<noteq> None"
  using assms default_is_physical [of s]
  by (auto simp: table_selection_def selectionForProvider_def selection_def split: option.splits if_splits)

section \<open>Properties\<close>

text \<open>
  C35. The provider of a package and slot is the one of the routing table: the first entry of
  the package (only for a named package), else the first entry with a provider of the wildcard
  package, else the physical camera of the slot; a missing or disabled table has no entries.
\<close>
theorem provider_follows_route_table:
  "resolveProviderForPackage files packageName cameraId routesPath providersPath =
     table_selection files packageName cameraId (active_routes files cameraId routesPath) providersPath"
  by (rule resolve_table)

text \<open>
  C34. A request that is redirected goes to an internal camera, by a configured route whose
  provider id is well formed, not physical, and enabled on disk; with a target map that gives
  each slot to one id, the visible id of that internal camera is the id the client asked for.
  A request without an available virtual provider is not redirected.
\<close>
theorem redirected_route_round_trip:
  assumes "route = resolve files packageName requested routesPath providersPath targetMapPath"
    and "one_id_per_slot files targetMapPath"
  shows "requestedCameraId route = requested \<and>
    (redirected route \<longrightarrow>
       isInternalCameraId (effectiveCameraId route) \<and> configured route \<and> available route \<and>
       validProviderId (route_providerId route) \<and> physicalIdFromProvider (route_providerId route) < 0 \<and>
       files (providersPath @ ''/'' @ route_providerId route @ ''/enabled'') \<noteq> None \<and>
       visibleCameraId files (effectiveCameraId route) targetMapPath = requested) \<and>
    (\<not> redirected route \<and> available route \<longrightarrow> effectiveCameraId route = requested)"
proof (cases "targetSlot files requested targetMapPath < 0")
  case True
  then show ?thesis using assms(1) by (simp add: resolve_def)
next
  case False
  define s where "s = targetSlot files requested targetMapPath"
  define sel where "sel = table_selection files packageName s (active_routes files s routesPath) providersPath"
  have s: "s = 0 \<or> s = 1" using targetSlot_range [of files requested targetMapPath] False by (simp add: s_def)
  have vis: "visibleIdForSlot files s targetMapPath = requested"
    using visible_of_target [OF assms(2) s_def [symmetric]] s by auto
  have route: "route = (let r = \<lparr>requestedCameraId = requested, effectiveCameraId = requested, route_providerId = sel_providerId sel,
        configured = sel_configured sel, available = sel_available sel, redirected = False, match = sel_match sel\<rparr> in
      if physicalIdFromProvider (sel_providerId sel) \<ge> 0 then r
      else r\<lparr>effectiveCameraId := if s = 0 then kBackVirtualCameraId else kFrontVirtualCameraId, redirected := sel_available sel\<rparr>)"
    using False by (simp add: assms(1) resolve_def Let_def resolve_table s_def [symmetric] sel_def [symmetric])
  show ?thesis
    using s vis virtual_selection [of files packageName s "active_routes files s routesPath" providersPath, folded sel_def]
    by (auto simp: route Let_def isInternalCameraId_def visibleCameraId_def kBackVirtualCameraId_def kFrontVirtualCameraId_def)
qed

definition exampleFiles :: file_contents where
  "exampleFiles = [''routes'' \<mapsto> ''*'' @ [tab] @ ''0'' @ [tab] @ ''video'' @ [newline], ''p/video/enabled'' \<mapsto> []]"

theorem redirected_route_round_trip_witness:
  "let route = resolve exampleFiles ''app'' ''0'' ''routes'' ''p'' ''targets'' in
   redirected route \<and> effectiveCameraId route = ''1000'' \<and> visibleCameraId exampleFiles (effectiveCameraId route) ''targets'' = ''0''"
proof -
  have "redirected (resolve exampleFiles ''app'' ''0'' ''routes'' ''p'' ''targets'')"
    "effectiveCameraId (resolve exampleFiles ''app'' ''0'' ''routes'' ''p'' ''targets'') = ''1000''"
    "one_id_per_slot exampleFiles ''targets''"
    by code_simp+
  then show ?thesis using redirected_route_round_trip [OF refl, of exampleFiles "''targets''" "''app''" "''0''" "''routes''" "''p''"]
    by (simp add: Let_def)
qed

end
