(* ===== verification/Camera_Service_Router.thy ===== *)
theory Camera_Service_Router
  imports Device_User_Router Parcel_Rewriter Listener_Filter Protocol_Evidence Camera_Routes
begin

text \<open>
  The router in front of the camera service,
  \<open>src/runtime/platform/AndroidCameraServiceRouter.cpp\<close>: the transaction handler, which composes
  the observer, the routing tables, the rewriter, the listener filter and the device delegator,
  and the monitor that registers it in place of the original service.  The original service,
  the package manager, the service manager and the file system are parameters.
\<close>

section \<open>The transaction handler\<close>

text \<open>
  What the platform provides: parcels, the original service (\<open>target_\<close>), the packages of a uid,
  the conversion of \<open>String8\<close>, the status of a rejection, the error of a failed write, and the
  identity of the next listener wrapper and device delegator.
\<close>

record ('p, 'b, 's, 'e) RouterPlatform =
  parcels :: "('p, 'b, 's) ParcelApi"
  target :: "uint32 \<Rightarrow> 'p \<Rightarrow> 'p option \<Rightarrow> uint32 \<Rightarrow> 'e \<Rightarrow> int \<times> 'p option \<times> 'e"
  packagesForUid :: "int \<Rightarrow> uint16s list"
  string8 :: "uint16s \<Rightarrow> string"
  illegalArgument :: "string \<Rightarrow> 's"
  writeError :: int
  aliveBinder :: "'b \<Rightarrow> bool"
  newListener :: 'b
  newDevice :: 'b

text \<open>The file system as one transaction sees it: \<open>access\<close>, \<open>stat\<close> and the contents of the files.\<close>

record RouterFiles =
  pathExists :: "string \<Rightarrow> bool"
  pathSize :: "string \<Rightarrow> nat option"
  pathReadable :: "string \<Rightarrow> bool"
  fileContents :: file_contents

record 'b RouterState =
  shadowObserver :: Android14BinderShadowObserver
  listenerState :: "'b ListenerState"
  deviceState :: "'b DeviceUserState"
  gVerifiedPackageClaims :: uint64
  gRejectedPackageClaims :: uint64
  gUnavailablePackageLookups :: uint64
  gUniqueUidPackageResolutions :: uint64
  gAmbiguousUidPackageResolutions :: uint64
  gUnavailableUidPackageResolutions :: uint64
  gPackageRouteCandidates :: uint64
  gGlobalRouteCandidates :: uint64
  gPhysicalRouteDecisions :: uint64
  gUnavailableRouteProviders :: uint64
  gPhysicalRewriteAttempts :: uint64
  gPhysicalRewriteSuccesses :: uint64
  gPhysicalRewriteFailures :: uint64
  gInternalCameraRequestsRejected :: uint64

type_synonym ('p, 'b, 'e) routed = "int \<times> 'p option \<times> 'b RouterState \<times> 'e"

definition kRuntimeRoutesPath :: string where
  "kRuntimeRoutesPath = ''/data/vendor/camera/vcam/routes.tsv''"
definition kRuntimeRoutesDisabledPath :: string where
  "kRuntimeRoutesDisabledPath = ''/data/vendor/camera/vcam/routes.tsv.disabled''"
definition kRuntimeProvidersPath :: string where
  "kRuntimeProvidersPath = ''/data/vendor/camera/vcam/providers''"
definition kRuntimeTopologyPath :: string where
  "kRuntimeTopologyPath = ''/data/vendor/camera/vcam/topology.conf''"
definition kDefaultTargetMapPath :: string where
  "kDefaultTargetMapPath = ''/data/vendor/camera/vcam/targets.tsv''"
definition kDefaultCamera1TargetMapPath :: string where
  "kDefaultCamera1TargetMapPath = ''/data/vendor/camera/vcam/camera1-targets.tsv''"
definition kDefaultCamera1MapPath :: string where
  "kDefaultCamera1MapPath = ''/data/vendor/camera/vcam/camera1-map.tsv''"

text \<open>\<open>OK\<close> and \<open>BAD_VALUE\<close>.\<close>

definition statusOk :: int where "statusOk = 0"
definition badValue :: int where "badValue = - 22"

definition rejectCameraRequest :: "('p, 'b, 's, 'e) RouterPlatform \<Rightarrow> 'p option \<Rightarrow> string \<Rightarrow> int \<times> 'p option" where
  "rejectCameraRequest plat reply message =
     (case reply of
        None \<Rightarrow> (badValue, None)
      | Some r \<Rightarrow>
          (case writeStatus (parcels plat) (illegalArgument plat message) (freeData (parcels plat) r) of
             (ok, r') \<Rightarrow> (if ok then statusOk else writeError plat, Some r')))"

definition routingPolicyActive :: "RouterFiles \<Rightarrow> bool" where
  "routingPolicyActive fs \<longleftrightarrow> \<not> pathExists fs kRuntimeRoutesDisabledPath \<and>
     (case pathSize fs kRuntimeRoutesPath of None \<Rightarrow> False | Some n \<Rightarrow> n > 0)"

definition routingMapsReady :: "RouterFiles \<Rightarrow> bool" where
  "routingMapsReady fs \<longleftrightarrow> pathReadable fs kDefaultTargetMapPath \<and> pathReadable fs kDefaultCamera1TargetMapPath \<and>
     pathReadable fs kDefaultCamera1MapPath \<and> pathReadable fs kRuntimeTopologyPath"

text \<open>A listener transaction: the routed result, or the parcel and state with which the handler goes on.\<close>

definition routeListener ::
  "('p, 'b, 's, 'e) RouterPlatform \<Rightarrow> uint32 \<Rightarrow> 'p \<Rightarrow> 'p option \<Rightarrow> uint32 \<Rightarrow> ParcelObservation \<Rightarrow> 'b RouterState \<Rightarrow> 'e \<Rightarrow>
   ('p, 'b, 'e) routed + ('p \<times> 'b RouterState)" where
  "routeListener plat txnCode data reply flags observation st e =
     (let api = parcels plat; addingListener = (payloadShape (transaction observation) = kListener) in
      case (if addingListener
            then wrapAndroid14CameraListenerRequest api (aliveBinder plat) (newListener plat) data (Separate (newParcel api)) (listenerState st)
            else wrapAndroid14CameraListenerRemovalRequest api (aliveBinder plat) (newListener plat) data (Separate (newParcel api)) (listenerState st)) of
        (requestStatus, data, rewritten, ls) \<Rightarrow>
          let st = st\<lparr>listenerState := ls\<rparr> in
          case rewritten of
            Separate rewrittenListenerRequest \<Rightarrow>
              (if requestStatus = CameraListenerRequestRouteStatus.kWrapped then
                 (case target plat txnCode rewrittenListenerRequest reply flags e of (forwardStatus, reply, e) \<Rightarrow>
                    if addingListener \<and> forwardStatus = statusOk then
                      (case filterAndroid14CameraStatusReply api reply ls of (_, reply, ls) \<Rightarrow>
                         Inl (forwardStatus, reply, st\<lparr>listenerState := ls\<rparr>, e))
                    else Inl (forwardStatus, reply, st, e))
               else Inr (data, st))
          | _ \<Rightarrow> Inr (data, st))"

text \<open>The package of the caller: a claim the uid owns, or the only package of the uid.\<close>

definition verifiedPackageOf ::
  "('p, 'b, 's, 'e) RouterPlatform \<Rightarrow> bool \<Rightarrow> ParcelObservation \<Rightarrow> 'b RouterState \<Rightarrow> string \<times> 'b RouterState" where
  "verifiedPackageOf plat routesConfigured observation st =
     (let identity = classifyCameraCallerIdentity (cameraScoped (transaction observation)) (carriesPackageName (transaction observation))
            (callingUid observation) (callingPid observation) (packageName observation);
          packages = packagesForUid plat (callingUid observation) in
      if status observation = kObserved \<and> kind identity = kClaimedPackage then
        (if packages = [] then ([], st\<lparr>gUnavailablePackageLookups := gUnavailablePackageLookups st + 1\<rparr>)
         else if utf16 (cstr (packageName observation)) \<in> set packages then
           (packageName observation, st\<lparr>gVerifiedPackageClaims := gVerifiedPackageClaims st + 1\<rparr>)
         else ([], st\<lparr>gRejectedPackageClaims := gRejectedPackageClaims st + 1\<rparr>))
      else if routesConfigured \<and> status observation = kObserved \<and> kind identity = kUidOnly then
        (if packages = [] then ([], st\<lparr>gUnavailableUidPackageResolutions := gUnavailableUidPackageResolutions st + 1\<rparr>)
         else if length packages = 1 then
           (cstr (string8 plat (packages ! 0)), st\<lparr>gUniqueUidPackageResolutions := gUniqueUidPackageResolutions st + 1\<rparr>)
         else ([], st\<lparr>gAmbiguousUidPackageResolutions := gAmbiguousUidPackageResolutions st + 1\<rparr>))
      else ([], st))"

definition integerCameraId :: "ParcelObservation \<Rightarrow> bool" where
  "integerCameraId observation \<longleftrightarrow>
     payloadShape (transaction observation) = kConnectApi1 \<or> payloadShape (transaction observation) = kIntegerCameraId"

text \<open>The camera id that replaces the requested one, empty for none; \<open>Inl\<close> is the message of a rejection.\<close>

definition chooseReplacement ::
  "RouterFiles \<Rightarrow> ParcelObservation \<Rightarrow> string \<Rightarrow> 'b RouterState \<Rightarrow> (string + string) \<times> 'b RouterState" where
  "chooseReplacement fs observation verifiedPackage st =
     (let route = resolve (fileContents fs) verifiedPackage (cameraId observation) kRuntimeRoutesPath kRuntimeProvidersPath
            (if integerCameraId observation then kDefaultCamera1TargetMapPath else kDefaultTargetMapPath) in
      if configured route \<and> \<not> available route then
        (Inr [], st\<lparr>gUnavailableRouteProviders := gUnavailableRouteProviders st + 1\<rparr>)
      else if redirected route then
        (Inr (effectiveCameraId route),
         if match route = Package then st\<lparr>gPackageRouteCandidates := gPackageRouteCandidates st + 1\<rparr>
         else st\<lparr>gGlobalRouteCandidates := gGlobalRouteCandidates st + 1\<rparr>)
      else let st = st\<lparr>gPhysicalRouteDecisions := gPhysicalRouteDecisions st + 1\<rparr> in
        if configured route \<and> physicalIdFromProvider (route_providerId route) \<ge> 0 then
          (let physicalCameraId = physicalCameraIdForProvider (fileContents fs) (route_providerId route) kDefaultTargetMapPath in
           if physicalCameraId = [] then
             (Inl ''Physical camera source unavailable'', st\<lparr>gPhysicalRewriteFailures := gPhysicalRewriteFailures st + 1\<rparr>)
           else if physicalCameraId \<noteq> cameraId observation then (Inr physicalCameraId, st)
           else (Inr [], st))
        else (Inr [], st))"

text \<open>The rewritten request: the routed result, or the state with which the original request is forwarded.\<close>

definition forwardRewritten ::
  "('p, 'b, 's, 'e) RouterPlatform \<Rightarrow> RouterFiles \<Rightarrow> uint32 \<Rightarrow> 'p \<Rightarrow> 'p option \<Rightarrow> uint32 \<Rightarrow> ParcelObservation \<Rightarrow> string \<Rightarrow>
   'b RouterState \<Rightarrow> 'e \<Rightarrow> ('p, 'b, 'e) routed + 'b RouterState" where
  "forwardRewritten plat fs txnCode data reply flags observation replacement st e =
     (let api = parcels plat;
          st = st\<lparr>gPhysicalRewriteAttempts := gPhysicalRewriteAttempts st + 1\<rparr>;
          replacementCameraId = (if integerCameraId observation
            then camera1IndexForId (fileContents fs) replacement kDefaultCamera1MapPath else replacement) in
      if integerCameraId observation \<and> replacementCameraId = [] then
        (case rejectCameraRequest plat reply ''Camera1 routing map unavailable'' of (r, reply) \<Rightarrow>
           Inl (r, reply, st\<lparr>gPhysicalRewriteFailures := gPhysicalRewriteFailures st + 1\<rparr>, e))
      else case rewriteAndroid14CameraId api observation replacementCameraId data (Separate (newParcel api)) of
        (rewriteStatus, output) \<Rightarrow>
          (case output of
             Separate rewritten \<Rightarrow>
               (if rewriteStatus = kRewritten then
                  let st = st\<lparr>gPhysicalRewriteSuccesses := gPhysicalRewriteSuccesses st + 1\<rparr> in
                  case target plat txnCode rewritten reply flags e of (forwardStatus, reply, e) \<Rightarrow>
                    if forwardStatus = statusOk \<and> payloadShape (transaction observation) = kConnectDevice then
                      (case wrapAndroid14CameraDeviceUserReply api (newDevice plat) reply (cameraId observation) replacementCameraId (deviceState st) of
                         (_, reply, ds) \<Rightarrow> Inl (forwardStatus, reply, st\<lparr>deviceState := ds\<rparr>, e))
                    else Inl (forwardStatus, reply, st, e)
                else Inr (st\<lparr>gPhysicalRewriteFailures := gPhysicalRewriteFailures st + 1\<rparr>))
           | _ \<Rightarrow> Inr (st\<lparr>gPhysicalRewriteFailures := gPhysicalRewriteFailures st + 1\<rparr>)))"

definition forwardUnchanged ::
  "('p, 'b, 's, 'e) RouterPlatform \<Rightarrow> uint32 \<Rightarrow> 'p \<Rightarrow> 'p option \<Rightarrow> uint32 \<Rightarrow> 'b RouterState \<Rightarrow> 'e \<Rightarrow> ('p, 'b, 'e) routed" where
  "forwardUnchanged plat txnCode data reply flags st e =
     (case target plat txnCode data reply flags e of (r, reply, e) \<Rightarrow> (r, reply, st, e))"

text \<open>The handler from the routing policy on.\<close>

definition routeCameraRequest ::
  "('p, 'b, 's, 'e) RouterPlatform \<Rightarrow> RouterFiles \<Rightarrow> uint32 \<Rightarrow> 'p \<Rightarrow> 'p option \<Rightarrow> uint32 \<Rightarrow> ParcelObservation \<Rightarrow>
   'b RouterState \<Rightarrow> 'e \<Rightarrow> ('p, 'b, 'e) routed" where
  "routeCameraRequest plat fs txnCode data reply flags observation st e =
     (let routesConfigured = routingPolicyActive fs;
          scoped = (status observation = kObserved \<and> cameraScoped (transaction observation)) in
      if routesConfigured \<and> scoped \<and> \<not> routingMapsReady fs then
        (case rejectCameraRequest plat reply ''Camera routing topology unavailable'' of (r, reply) \<Rightarrow>
           (r, reply, st\<lparr>gUnavailableRouteProviders := gUnavailableRouteProviders st + 1\<rparr>, e))
      else case verifiedPackageOf plat routesConfigured observation st of (verifiedPackage, st) \<Rightarrow>
        case (if routesConfigured \<and> scoped \<and> cameraId observation \<noteq> [] then chooseReplacement fs observation verifiedPackage st
              else (Inr [], st)) of
          (Inl message, st) \<Rightarrow> (case rejectCameraRequest plat reply message of (r, reply) \<Rightarrow> (r, reply, st, e))
        | (Inr replacement, st) \<Rightarrow>
            if replacement = [] then forwardUnchanged plat txnCode data reply flags st e
            else case forwardRewritten plat fs txnCode data reply flags observation replacement st e of
              Inl result \<Rightarrow> result
            | Inr st \<Rightarrow> forwardUnchanged plat txnCode data reply flags st e)"

text \<open>\<open>CameraServicePassThrough::onTransact\<close>.\<close>

definition onTransact ::
  "('p, 'b, 's, 'e) RouterPlatform \<Rightarrow> RouterFiles \<Rightarrow> int \<Rightarrow> int \<Rightarrow> bool \<Rightarrow> uint32 \<Rightarrow> 'p \<Rightarrow> 'p option \<Rightarrow> uint32 \<Rightarrow>
   'b RouterState \<Rightarrow> 'e \<Rightarrow> ('p, 'b, 'e) routed" where
  "onTransact plat fs uid pid physicalRoutingEnabled txnCode data reply flags st e =
     (case shadowObserve (parcels plat) uid pid txnCode (Some data) (shadowObserver st) of (observation, observed, ob) \<Rightarrow>
      let data = (case observed of None \<Rightarrow> data | Some d \<Rightarrow> d);
          st = st\<lparr>shadowObserver := ob\<rparr>;
          shape = payloadShape (transaction observation) in
      case (if physicalRoutingEnabled \<and> status observation = kObserved \<and> (shape = kListener \<or> shape = kListenerRemoval)
            then routeListener plat txnCode data reply flags observation st e else Inr (data, st)) of
        Inl result \<Rightarrow> result
      | Inr (data, st) \<Rightarrow>
          if physicalRoutingEnabled \<and> status observation = kObserved \<and> cameraScoped (transaction observation) \<and>
             isInternalCameraId (cameraId observation) then
            (case rejectCameraRequest plat reply ''Unknown camera ID'' of (written, reply) \<Rightarrow>
               (written, reply,
                if written = statusOk then st\<lparr>gInternalCameraRequestsRejected := gInternalCameraRequestsRejected st + 1\<rparr> else st, e))
          else if \<not> physicalRoutingEnabled then forwardUnchanged plat txnCode data reply flags st e
          else routeCameraRequest plat fs txnCode data reply flags observation st e)"

section \<open>The monitor\<close>

datatype AndroidCameraServiceRouterState = kNotStarted | kWaitingForService | kPreflightReady | kPassThroughReady
  | kPhysicalRouteReady | kProtocolUnqualified | kDisabled | kInvalidMode | kThreadStartFailed | kServiceManagerUnavailable
  | kServiceTimeout | kOriginalServiceNotLocal | kWrongInterface | kRegistrationFailed | kRegistrationVerificationFailed

text \<open>The service manager and the file system, as operations on an outside world.\<close>

record ('b, 'w) ServiceManager =
  managerAvailable :: "'w \<Rightarrow> bool"
  checkService :: "'w \<Rightarrow> 'b option \<times> 'w"
  usleep :: "'w \<Rightarrow> 'w"
  isLocal :: "'b \<Rightarrow> bool"
  descriptorOf :: "'b \<Rightarrow> uint16s"
  makeRouter :: "'b \<Rightarrow> AbiRecipe \<Rightarrow> bool \<Rightarrow> 'b"
  addService :: "'b \<Rightarrow> 'w \<Rightarrow> int \<times> 'w"
  unlinkPending :: "'w \<Rightarrow> 'w"

record 'b MonitorState =
  gState :: AndroidCameraServiceRouterState
  gOriginalService :: "'b option"
  gRouterService :: "'b option"
  gShadowObserver :: "Android14BinderShadowObserver option"
  gObserverProfile :: string

definition newMonitor :: "'b MonitorState" where
  "newMonitor = \<lparr>gState = kNotStarted, gOriginalService = None, gRouterService = None, gShadowObserver = None,
     gObserverProfile = ''none''\<rparr>"

definition kServiceWaitAttempts :: nat where "kServiceWaitAttempts = 3000"

text \<open>The value of \<open>ro.build.version.sdk\<close>.\<close>

definition buildSdk :: "string \<Rightarrow> int" where
  "buildSdk v =
     (if v = [] then - 1
      else case strto 10 (cstr v) of
        None \<Rightarrow> - 1
      | Some (parsed, rest) \<Rightarrow> if rest = [] \<and> parsed \<ge> 0 \<and> parsed \<le> 1000 then parsed else - 1)"

definition setTerminalState ::
  "('b, 'w) ServiceManager \<Rightarrow> AndroidCameraServiceRouterState \<Rightarrow> 'b MonitorState \<Rightarrow> 'w \<Rightarrow> 'b MonitorState \<times> 'w" where
  "setTerminalState mgr state ms w =
     (ms\<lparr>gState := state\<rparr>,
      if state = kPreflightReady \<or> state = kPassThroughReady \<or> state = kPhysicalRouteReady then unlinkPending mgr w else w)"

fun waitForService :: "('b, 'w) ServiceManager \<Rightarrow> nat \<Rightarrow> 'w \<Rightarrow> 'b option \<times> 'w" where
  "waitForService mgr 0 w = (None, w)"
| "waitForService mgr (Suc n) w =
     (case checkService mgr w of
        (Some original, w) \<Rightarrow> (Some original, w)
      | (None, w) \<Rightarrow> waitForService mgr n (usleep mgr w))"

text \<open>From the verified original service on.\<close>

definition registerRouter ::
  "('b, 'w) ServiceManager \<Rightarrow> CameraServiceRouterMode \<Rightarrow> int \<Rightarrow> string \<Rightarrow> 'b \<Rightarrow> 'b MonitorState \<Rightarrow> 'w \<Rightarrow> 'b MonitorState \<times> 'w" where
  "registerRouter mgr mode sdk fingerprint original ms w =
     (let protocol = selectAndroid14CameraServiceProtocol sdk fingerprint in
      if mode = CameraServiceRouterMode.kPhysicalRoute \<and> \<not> routingAllowed protocol then setTerminalState mgr kProtocolUnqualified ms w
      else let ms = (if observationAllowed protocol then ms\<lparr>gObserverProfile := profileName protocol\<rparr> else ms);
               router = makeRouter mgr original (recipe protocol) (mode = CameraServiceRouterMode.kPhysicalRoute);
               ms = ms\<lparr>gShadowObserver := Some (newShadowObserver (recipe protocol))\<rparr> in
        case addService mgr router w of (registration, w) \<Rightarrow>
          if registration \<noteq> statusOk then setTerminalState mgr kRegistrationFailed ms w
          else case checkService mgr w of (observed, w) \<Rightarrow>
            if observed \<noteq> Some router then setTerminalState mgr kRegistrationVerificationFailed ms w
            else setTerminalState mgr
              (if mode = CameraServiceRouterMode.kPhysicalRoute then kPhysicalRouteReady else kPassThroughReady)
              (ms\<lparr>gRouterService := Some router\<rparr>) w)"

definition routerMonitor ::
  "('b, 'w) ServiceManager \<Rightarrow> string option \<Rightarrow> string \<Rightarrow> string \<Rightarrow> 'b MonitorState \<Rightarrow> 'w \<Rightarrow> 'b MonitorState \<times> 'w" where
  "routerMonitor mgr modeText sdkText fingerprint ms w =
     (let mode = parseCameraServiceRouterMode modeText in
      if mode = CameraServiceRouterMode.kDisabled then setTerminalState mgr kDisabled ms w
      else if mode = CameraServiceRouterMode.kInvalid then setTerminalState mgr kInvalidMode ms w
      else let ms = ms\<lparr>gState := kWaitingForService\<rparr> in
        if \<not> managerAvailable mgr w then setTerminalState mgr kServiceManagerUnavailable ms w
        else case waitForService mgr kServiceWaitAttempts w of
          (None, w) \<Rightarrow> setTerminalState mgr kServiceTimeout ms w
        | (Some original, w) \<Rightarrow>
            if \<not> isLocal mgr original then setTerminalState mgr kOriginalServiceNotLocal ms w
            else if descriptorOf mgr original \<noteq> kCameraServiceDescriptor then setTerminalState mgr kWrongInterface ms w
            else let ms = ms\<lparr>gOriginalService := Some original\<rparr> in
              if mode = CameraServiceRouterMode.kPreflight then setTerminalState mgr kPreflightReady ms w
              else registerRouter mgr mode (buildSdk sdkText) fingerprint original ms w)"

definition startRouterMonitor ::
  "('b, 'w) ServiceManager \<Rightarrow> bool \<Rightarrow> string option \<Rightarrow> string \<Rightarrow> string \<Rightarrow> 'b MonitorState \<Rightarrow> 'w \<Rightarrow> 'b MonitorState \<times> 'w" where
  "startRouterMonitor mgr threadStarted modeText sdkText fingerprint ms w =
     (if \<not> threadStarted then setTerminalState mgr kThreadStartFailed ms w
      else routerMonitor mgr modeText sdkText fingerprint ms w)"

fun androidCameraServiceRouterStateName :: "AndroidCameraServiceRouterState \<Rightarrow> string" where
  "androidCameraServiceRouterStateName kNotStarted = ''not_started''"
| "androidCameraServiceRouterStateName kWaitingForService = ''waiting_for_service''"
| "androidCameraServiceRouterStateName kPreflightReady = ''preflight_ready''"
| "androidCameraServiceRouterStateName kPassThroughReady = ''passthrough_ready''"
| "androidCameraServiceRouterStateName kPhysicalRouteReady = ''physical_route_ready''"
| "androidCameraServiceRouterStateName kProtocolUnqualified = ''protocol_unqualified''"
| "androidCameraServiceRouterStateName kDisabled = ''disabled''"
| "androidCameraServiceRouterStateName kInvalidMode = ''invalid_mode''"
| "androidCameraServiceRouterStateName kThreadStartFailed = ''thread_start_failed''"
| "androidCameraServiceRouterStateName kServiceManagerUnavailable = ''service_manager_unavailable''"
| "androidCameraServiceRouterStateName kServiceTimeout = ''service_timeout''"
| "androidCameraServiceRouterStateName kOriginalServiceNotLocal = ''original_service_not_local''"
| "androidCameraServiceRouterStateName kWrongInterface = ''wrong_interface''"
| "androidCameraServiceRouterStateName kRegistrationFailed = ''registration_failed''"
| "androidCameraServiceRouterStateName kRegistrationVerificationFailed = ''registration_verification_failed''"

text \<open>
  One round of the statistics publisher: the text that replaces the statistics file, or
  \<open>None\<close> when it does not fit the buffer.
\<close>

definition hex16 :: "uint64 \<Rightarrow> string" where
  "hex16 v = (let h = toHexString (unat v) in ''0x'' @ replicate (16 - length h) (CHR ''0'') @ h)"

definition noStats :: Android14ShadowObservationStats where
  "noStats = \<lparr>stats_total = 0, stats_observed = 0, stats_ignored = 0, stats_rejected = 0, stats_unsupported = 0,
     stats_claimedPackage = 0, stats_uidOnly = 0, stats_identityUnavailable = 0,
     stats_protocolEvidence = \<lparr>requiredMask = 0, snap_seenMask = 0, snap_validMask = 0, snap_invalidMask = 0,
       snap_unsupportedMask = 0, verdict = kPending\<rparr>\<rparr>"

definition observerStats :: "'b MonitorState \<Rightarrow> 'b RouterState \<Rightarrow> Android14ShadowObservationStats" where
  "observerStats ms st = (case gShadowObserver ms of None \<Rightarrow> noStats | Some _ \<Rightarrow> shadowStats (shadowObserver st))"

definition statsFields :: "'b MonitorState \<Rightarrow> 'b RouterState \<Rightarrow> (string \<times> string) list" where
  "statsFields ms st =
     (let stats = observerStats ms st; evidence = stats_protocolEvidence stats; n = (\<lambda>v :: uint64. toString (unat v)) in
      [(''schema'', ''2''),
       (''state'', androidCameraServiceRouterStateName (gState ms)),
       (''profile'', gObserverProfile ms),
       (''protocol_verdict'', android14ProtocolEvidenceVerdictName (verdict evidence)),
       (''protocol_required_mask'', hex16 (requiredMask evidence)),
       (''protocol_seen_mask'', hex16 (snap_seenMask evidence)),
       (''protocol_valid_mask'', hex16 (snap_validMask evidence)),
       (''protocol_invalid_mask'', hex16 (snap_invalidMask evidence)),
       (''protocol_unsupported_mask'', hex16 (snap_unsupportedMask evidence)),
       (''transactions_total'', n (stats_total stats)),
       (''transactions_observed'', n (stats_observed stats)),
       (''transactions_ignored'', n (stats_ignored stats)),
       (''transactions_rejected'', n (stats_rejected stats)),
       (''transactions_unsupported'', n (stats_unsupported stats)),
       (''identity_claimed_package'', n (stats_claimedPackage stats)),
       (''identity_uid_only'', n (stats_uidOnly stats)),
       (''identity_unavailable'', n (stats_identityUnavailable stats)),
       (''package_claims_verified'', n (gVerifiedPackageClaims st)),
       (''package_claims_rejected'', n (gRejectedPackageClaims st)),
       (''package_lookups_unavailable'', n (gUnavailablePackageLookups st)),
       (''uid_packages_unique'', n (gUniqueUidPackageResolutions st)),
       (''uid_packages_ambiguous'', n (gAmbiguousUidPackageResolutions st)),
       (''uid_packages_unavailable'', n (gUnavailableUidPackageResolutions st)),
       (''route_candidates_package'', n (gPackageRouteCandidates st)),
       (''route_candidates_global'', n (gGlobalRouteCandidates st)),
       (''route_decisions_physical'', n (gPhysicalRouteDecisions st)),
       (''route_providers_unavailable'', n (gUnavailableRouteProviders st)),
       (''physical_rewrite_attempts'', n (gPhysicalRewriteAttempts st)),
       (''physical_rewrite_successes'', n (gPhysicalRewriteSuccesses st)),
       (''physical_rewrite_failures'', n (gPhysicalRewriteFailures st)),
       (''device_user_wrappers'', n (gDeviceUserWrappers (deviceState st))),
       (''request_batches_rewritten'', n (gRequestBatchesRewritten (deviceState st))),
       (''requests_rewritten'', n (gRequestsRewritten (deviceState st))),
       (''request_batches_skipped'', n (gRequestBatchesSkipped (deviceState st))),
       (''listener_wrappers'', n (gListenerWrappers (listenerState st))),
       (''listener_callbacks_filtered'', n (gListenerCallbacksFiltered (listenerState st))),
       (''listener_status_records_filtered'', n (gStatusRecordsFiltered (listenerState st))),
       (''internal_camera_requests_rejected'', n (gInternalCameraRequestsRejected st))])"

definition statsPublisher :: "'b MonitorState \<Rightarrow> 'b RouterState \<Rightarrow> string option" where
  "statsPublisher ms st =
     (let payload = concat (map (\<lambda>(key, v). key @ ''='' @ v @ [newline]) (statsFields ms st)) in
      if 0 < length payload \<and> length payload < 1536 then Some payload else None)"

section \<open>Routed requests\<close>

text \<open>A package the caller's uid owns, or none.\<close>

definition owned_package :: "('p, 'b, 's, 'e) RouterPlatform \<Rightarrow> ParcelObservation \<Rightarrow> string \<Rightarrow> bool" where
  "owned_package plat ob pkg \<longleftrightarrow> pkg = [] \<or>
     (\<exists>p \<in> set (packagesForUid plat (callingUid ob)). p = utf16 (cstr pkg) \<or> pkg = cstr (string8 plat p))"

text \<open>The camera ids that an active routing policy gives a request of a package.\<close>

definition policy_route :: "RouterFiles \<Rightarrow> ParcelObservation \<Rightarrow> string \<Rightarrow> ScopedCameraRoute" where
  "policy_route fs ob pkg = resolve (fileContents fs) pkg (cameraId ob) kRuntimeRoutesPath kRuntimeProvidersPath
     (if integerCameraId ob then kDefaultCamera1TargetMapPath else kDefaultTargetMapPath)"

definition policy_id :: "RouterFiles \<Rightarrow> ParcelObservation \<Rightarrow> string \<Rightarrow> string \<Rightarrow> bool" where
  "policy_id fs ob pkg cam \<longleftrightarrow> routingPolicyActive fs \<and> routingMapsReady fs \<and>
     (let route = policy_route fs ob pkg in
      redirected route \<and> available route \<and> cam = effectiveCameraId route \<or>
      configured route \<and> available route \<and> \<not> redirected route \<and>
        cam = physicalCameraIdForProvider (fileContents fs) (route_providerId route) kDefaultTargetMapPath)"

definition forwarded_id :: "RouterFiles \<Rightarrow> ParcelObservation \<Rightarrow> string \<Rightarrow> string" where
  "forwarded_id fs ob cam =
     (if integerCameraId ob then camera1IndexForId (fileContents fs) cam kDefaultCamera1MapPath else cam)"

lemma verified_owned: "owned_package plat ob (fst (verifiedPackageOf plat active ob st))"
  by (auto simp: verifiedPackageOf_def owned_package_def Let_def length_Suc_conv)

lemma redirected_available: "redirected (resolve files pkg cam r p t) \<Longrightarrow> available (resolve files pkg cam r p t)"
  by (auto simp: resolve_def Let_def split: if_splits)

lemma chosen_is_policy:
  assumes "chooseReplacement fs ob pkg st = (Inr cam, st')" "cam \<noteq> []" "routingPolicyActive fs" "routingMapsReady fs"
  shows "policy_id fs ob pkg cam"
  using assms redirected_available
  by (auto simp: chooseReplacement_def policy_id_def policy_route_def Let_def split: if_splits)

text \<open>The state parts that the routing decision leaves alone.\<close>

lemma keeps_devices:
  "deviceState (snd (verifiedPackageOf plat active ob st)) = deviceState st"
  "listenerState (snd (verifiedPackageOf plat active ob st)) = listenerState st"
  "deviceState (snd (chooseReplacement fs ob pkg st)) = deviceState st"
  by (simp_all add: verifiedPackageOf_def chooseReplacement_def Let_def)

text \<open>A rewritten request on its way: what is forwarded, and the delegator that is registered for it.\<close>

definition rewritten_forward ::
  "('p, 'b, 's, 'e) RouterPlatform \<Rightarrow> RouterFiles \<Rightarrow> uint32 \<Rightarrow> 'p \<Rightarrow> 'p option \<Rightarrow> uint32 \<Rightarrow> ParcelObservation \<Rightarrow> string \<Rightarrow>
   'b DeviceUserState \<Rightarrow> 'e \<Rightarrow> int \<Rightarrow> 'b DeviceUserState \<Rightarrow> 'e \<Rightarrow> bool" where
  "rewritten_forward plat fs txnCode data reply flags ob cam ds e r ds' e' \<longleftrightarrow>
     (\<exists>out reply1. rewriteAndroid14CameraId (parcels plat) ob (forwarded_id fs ob cam) data (Separate (newParcel (parcels plat))) =
         (kRewritten, Separate out) \<and>
       target plat txnCode out reply flags e = (r, reply1, e') \<and>
       (ds' = ds \<or> r = statusOk \<and> payloadShape (transaction ob) = kConnectDevice \<and>
         (\<exists>result reply2. wrapAndroid14CameraDeviceUserReply (parcels plat) (newDevice plat) reply1 (cameraId ob) (forwarded_id fs ob cam) ds =
           (result, reply2, ds'))))"

lemma forwardRewritten_cases:
  assumes "forwardRewritten plat fs txnCode data reply flags ob cam st e = x"
  shows "case x of
      Inr st' \<Rightarrow> deviceState st' = deviceState st
    | Inl (r, reply', st', e') \<Rightarrow> e' = e \<and> deviceState st' = deviceState st \<or>
        rewritten_forward plat fs txnCode data reply flags ob cam (deviceState st) e r (deviceState st') e'"
proof -
  obtain rs out where rw: "rewriteAndroid14CameraId (parcels plat) ob (forwarded_id fs ob cam) data (Separate (newParcel (parcels plat))) = (rs, out)"
    by (cases "rewriteAndroid14CameraId (parcels plat) ob (forwarded_id fs ob cam) data (Separate (newParcel (parcels plat)))")
  note x = assms [symmetric, unfolded forwardRewritten_def Let_def forwarded_id_def [symmetric] rw prod.case]
  show ?thesis
  proof (cases "integerCameraId ob \<and> forwarded_id fs ob cam = []")
    case True
    then show ?thesis by (simp add: x split: prod.split)
  next
    case False
    show ?thesis
    proof (cases "rs = kRewritten \<and> (\<exists>o1. out = Separate o1)")
      case True
      then obtain o1 where o1: "rs = kRewritten" "out = Separate o1" by blast
      obtain f reply1 e1 where t: "target plat txnCode o1 reply flags e = (f, reply1, e1)" by (cases "target plat txnCode o1 reply flags e")
      obtain res reply2 ds where w: "wrapAndroid14CameraDeviceUserReply (parcels plat) (newDevice plat) reply1 (cameraId ob)
          (forwarded_id fs ob cam) (deviceState st) = (res, reply2, ds)"
        by (cases "wrapAndroid14CameraDeviceUserReply (parcels plat) (newDevice plat) reply1 (cameraId ob) (forwarded_id fs ob cam) (deviceState st)")
      show ?thesis
        using False by (auto simp: x o1 t w rewritten_forward_def rw)
    next
      case no: False
      then have "x = Inr (st\<lparr>gPhysicalRewriteAttempts := gPhysicalRewriteAttempts st + 1, gPhysicalRewriteFailures := gPhysicalRewriteFailures st + 1\<rparr>)"
        using False by (cases out) (auto simp: x)
      then show ?thesis by simp
    qed
  qed
qed

lemma routeCameraRequest_cases:
  assumes "routeCameraRequest plat fs txnCode data reply flags ob st e = (r, reply', st', e')"
  shows "routingPolicyActive fs \<and> e' = e \<and> deviceState st' = deviceState st \<or>
    target plat txnCode data reply flags e = (r, reply', e') \<and> deviceState st' = deviceState st \<or>
    (\<exists>pkg cam. owned_package plat ob pkg \<and> policy_id fs ob pkg cam \<and>
       rewritten_forward plat fs txnCode data reply flags ob cam (deviceState st) e r (deviceState st') e')"
proof -
  define scoped where "scoped \<longleftrightarrow> status ob = kObserved \<and> cameraScoped (transaction ob)"
  obtain pkg st1 where v: "verifiedPackageOf plat (routingPolicyActive fs) ob st = (pkg, st1)"
    by (cases "verifiedPackageOf plat (routingPolicyActive fs) ob st")
  define decision where "decision = (if routingPolicyActive fs \<and> scoped \<and> cameraId ob \<noteq> [] then chooseReplacement fs ob pkg st1 else (Inr [], st1))"
  obtain choice st2 where d: "decision = (choice, st2)" by (cases decision)
  have own: "owned_package plat ob pkg" and keep: "deviceState st2 = deviceState st"
    using verified_owned [of plat ob "routingPolicyActive fs" st] keeps_devices(1) [where plat = plat and active = "routingPolicyActive fs" and ob = ob and st = st]
      keeps_devices(3) [where fs = fs and ob = ob and pkg = pkg and st = st1] v d by (auto simp: decision_def split: if_splits)
  note run = assms [unfolded routeCameraRequest_def Let_def, folded scoped_def, unfolded v prod.case, folded decision_def, unfolded d prod.case]
  show ?thesis
  proof (cases "routingPolicyActive fs \<and> scoped \<and> \<not> routingMapsReady fs")
    case True
    then show ?thesis using run by (auto split: prod.splits)
  next
    case maps: False
    show ?thesis
    proof (cases choice)
      case (Inl message)
      then have "routingPolicyActive fs" using d by (auto simp: decision_def split: if_splits)
      then show ?thesis using Inl run maps keep by (auto split: prod.splits)
    next
      case (Inr cam)
      show ?thesis
      proof (cases "cam = []")
        case True
        then show ?thesis using run maps Inr keep by (auto simp: forwardUnchanged_def split: prod.splits)
      next
        case False
        then have "chooseReplacement fs ob pkg st1 = (Inr cam, st2)" "routingPolicyActive fs" "routingMapsReady fs"
          using d Inr maps by (auto simp: decision_def split: if_splits)
        then have pol: "policy_id fs ob pkg cam" "routingPolicyActive fs" using chosen_is_policy False by metis+
        show ?thesis
          using forwardRewritten_cases [OF refl, where plat = plat and fs = fs and txnCode = txnCode and data = data and reply = reply
              and flags = flags and ob = ob and cam = cam and st = st2 and e = e] run maps Inr False keep own pol
          by (auto simp: forwardUnchanged_def split: sum.splits prod.splits)
      qed
    qed
  qed
qed

text \<open>The observation of a camera request does not depend on the parcel object, only on its data and cursor.\<close>

definition camera_request :: "AbiRecipe \<Rightarrow> uint32 \<Rightarrow> bool" where
  "camera_request abi txnCode \<longleftrightarrow> string_id (payloadShape (classifyBinderTransaction abi txnCode)) \<or>
     integer_id (payloadShape (classifyBinderTransaction abi txnCode))"

lemma observe_cong:
  assumes "parcel_contract api fmt view" "camera_request abi txnCode"
    and "observeAndroid14CameraServiceParcel api uid pid abi txnCode (Some p) = (ob, d)" "status ob = kObserved"
    and "view q = view p" "dataPosition api q = dataPosition api p"
  shows "fst (observeAndroid14CameraServiceParcel api uid pid abi txnCode (Some q)) = ob"
proof -
  have c: "cursor_contract api view" "read_contract api fmt view" using assms(1) by (simp_all add: parcel_contract_def)
  note shape = assms(2) [unfolded camera_request_def]
  obtain i s l k where f: "request_layout fmt (payloadShape (classifyBinderTransaction abi txnCode)) (view p) = Some (i, s, l, k)"
    "ob = observed_as uid pid (classifyBinderTransaction abi txnCode) (dataPosition api p) (i, s, l, k)"
    by (rule observed_layout [OF c assms(3) shape assms(4)])
  obtain ob2 d2 where r2: "observeAndroid14CameraServiceParcel api uid pid abi txnCode (Some q) = (ob2, d2)"
    by (cases "observeAndroid14CameraServiceParcel api uid pid abi txnCode (Some q)")
  show ?thesis using observe_layout [OF c shape r2] f r2 assms(5,6) by simp
qed

lemma rewritten_observed:
  assumes "parcel_contract api fmt view" "camera_request abi txnCode"
    and "observeAndroid14CameraServiceParcel api uid pid abi txnCode (Some p) = (ob, d)" "status ob = kObserved" "view q = view p"
    and "rewriteAndroid14CameraId api ob v q (Separate out0) = (kRewritten, Separate out)"
  shows "fst (observeAndroid14CameraServiceParcel api uid pid abi txnCode (Some out)) =
      ob\<lparr>cameraId := shown_id (payloadShape (transaction ob)) v,
         cameraIdEnd := cameraIdStart ob + length (encoded_id fmt (payloadShape (transaction ob)) v),
         initialDataPosition := dataPosition api out, finalDataPosition := dataPosition api out\<rparr>"
proof -
  have c: "cursor_contract api view" "read_contract api fmt view" using assms(1) by (simp_all add: parcel_contract_def)
  note shape = assms(2) [unfolded camera_request_def]
  obtain i s l k where f: "request_layout fmt (payloadShape (classifyBinderTransaction abi txnCode)) (view q) = Some (i, s, l, k)"
    "ob = observed_as uid pid (classifyBinderTransaction abi txnCode) (dataPosition api p) (i, s, l, k)"
    using observed_layout [OF c assms(3) shape assms(4)] assms(5) by metis
  show ?thesis using rewrite_reobserved [OF assms(1) shape f(1,2) assms(6)] by simp
qed

lemma onTransact_camera:
  assumes "parcel_contract (parcels plat) fmt view" "camera_request (shadow_recipe (shadowObserver st)) txnCode"
    and ob: "observeAndroid14CameraServiceParcel (parcels plat) uid pid (shadow_recipe (shadowObserver st)) txnCode (Some data) = (ob, d)"
    and "status ob = kObserved"
    and run: "onTransact plat fs uid pid True txnCode data reply flags st e = (r, reply', st', e')"
  shows "\<exists>q st1. view q = view data \<and> dataPosition (parcels plat) q = dataPosition (parcels plat) data \<and> deviceState st1 = deviceState st \<and>
    (if isInternalCameraId (cameraId ob) then e' = e \<and> deviceState st' = deviceState st
     else routeCameraRequest plat fs txnCode q reply flags ob st1 e = (r, reply', st', e'))"
proof -
  have c: "cursor_contract (parcels plat) view" "read_contract (parcels plat) fmt view" using assms(1) by (simp_all add: parcel_contract_def)
  obtain q where q: "d = Some q" "view q = view data" "dataPosition (parcels plat) q = dataPosition (parcels plat) data"
    using observe_restores [OF c ob] by blast
  have t: "transaction ob = classifyBinderTransaction (shadow_recipe (shadowObserver st)) txnCode"
    using observed_transaction [of "parcels plat" uid pid "shadow_recipe (shadowObserver st)" txnCode data] ob by simp
  have shape: "payloadShape (transaction ob) \<noteq> kListener" "payloadShape (transaction ob) \<noteq> kListenerRemoval" "cameraScoped (transaction ob)"
    using assms(2) camera_id_scoped [of "shadow_recipe (shadowObserver st)" txnCode] by (auto simp: camera_request_def t string_id_def integer_id_def)
  have s: "shadowObserve (parcels plat) uid pid txnCode (Some data) (shadowObserver st) =
      (ob, Some q, countObservation ob (shadowObserver st\<lparr>shadow_total := shadow_total (shadowObserver st) + 1\<rparr>))"
    using ob q by (simp add: shadowObserve_def Let_def)
  show ?thesis
    using run q(2,3) shape assms(4) unfolding onTransact_def s
    by (intro exI [of _ q] exI [of _ "st\<lparr>shadowObserver := countObservation ob (shadowObserver st\<lparr>shadow_total := shadow_total (shadowObserver st) + 1\<rparr>)\<rparr>"])
      (auto simp: Let_def split: prod.splits if_splits)
qed

section \<open>Runs of the monitor\<close>

text \<open>The service manager with a count of its lookups.\<close>

definition counted :: "('b, 'w) ServiceManager \<Rightarrow> ('b, nat \<times> 'w) ServiceManager" where
  "counted mgr = \<lparr>managerAvailable = (\<lambda>(n, w). managerAvailable mgr w),
     checkService = (\<lambda>(n, w). case checkService mgr w of (b, w) \<Rightarrow> (b, Suc n, w)),
     usleep = (\<lambda>(n, w). (n, usleep mgr w)), isLocal = isLocal mgr, descriptorOf = descriptorOf mgr, makeRouter = makeRouter mgr,
     addService = (\<lambda>b (n, w). case addService mgr b w of (r, w) \<Rightarrow> (r, n, w)),
     unlinkPending = (\<lambda>(n, w). (n, unlinkPending mgr w))\<rparr>"

lemma counted_simps [simp]:
  "managerAvailable (counted mgr) (n, w) = managerAvailable mgr w"
  "checkService (counted mgr) (n, w) = (fst (checkService mgr w), Suc n, snd (checkService mgr w))"
  "usleep (counted mgr) (n, w) = (n, usleep mgr w)" "isLocal (counted mgr) = isLocal mgr"
  "descriptorOf (counted mgr) = descriptorOf mgr" "makeRouter (counted mgr) = makeRouter mgr"
  "addService (counted mgr) b (n, w) = (fst (addService mgr b w), n, snd (addService mgr b w))"
  "unlinkPending (counted mgr) (n, w) = (n, unlinkPending mgr w)"
  by (simp_all add: counted_def case_prod_unfold)

lemma setTerminal_counted:
  "setTerminalState (counted mgr) s ms (n, w) = (fst (setTerminalState mgr s ms w), n, snd (setTerminalState mgr s ms w))"
  by (simp add: setTerminalState_def)

lemma wait_counted:
  "\<exists>n'. n' \<le> n + k \<and> waitForService (counted mgr) k (n, w) = (fst (waitForService mgr k w), n', snd (waitForService mgr k w))"
proof (induction k arbitrary: n w)
  case 0
  then show ?case by simp
next
  case (Suc k)
  obtain b w1 where c: "checkService mgr w = (b, w1)" by (cases "checkService mgr w")
  show ?case using Suc.IH [of "Suc n" "usleep mgr w1"] by (cases b) (auto simp: c)
qed

lemma register_counted:
  "\<exists>n'. n' \<le> Suc n \<and> registerRouter (counted mgr) mode sdk fp b ms (n, w) =
     (fst (registerRouter mgr mode sdk fp b ms w), n', snd (registerRouter mgr mode sdk fp b ms w))"
  by (auto simp: registerRouter_def Let_def setTerminal_counted split: prod.split)

lemma monitor_counted:
  "\<exists>n. n \<le> Suc kServiceWaitAttempts \<and> routerMonitor (counted mgr) modeText sdkText fp ms (0, w) =
     (fst (routerMonitor mgr modeText sdkText fp ms w), n, snd (routerMonitor mgr modeText sdkText fp ms w))"
proof -
  obtain b w1 where wt: "waitForService mgr kServiceWaitAttempts w = (b, w1)" by (cases "waitForService mgr kServiceWaitAttempts w")
  obtain n where n: "n \<le> kServiceWaitAttempts" "waitForService (counted mgr) kServiceWaitAttempts (0, w) = (b, n, w1)"
    using wait_counted [of 0 kServiceWaitAttempts mgr w] wt by auto
  have r: "\<exists>n'. n' \<le> Suc kServiceWaitAttempts \<and> registerRouter (counted mgr) mode sdk fp b ms (n, w1) =
     (fst (registerRouter mgr mode sdk fp b ms w1), n', snd (registerRouter mgr mode sdk fp b ms w1))" for mode sdk b ms
    using register_counted [of n mgr mode sdk fp b ms w1] n(1) by (meson Suc_le_mono le_trans)
  show ?thesis
    unfolding routerMonitor_def Let_def counted_simps n(2) wt setTerminal_counted
    using n(1) r by (cases b) (auto simp: setTerminal_counted)
qed

text \<open>The end states of the monitor, and when it has taken the service's name over.\<close>

lemma register_outcome:
  assumes "registerRouter mgr mode sdk fp b ms w = (ms', w')"
  shows "gState ms' \<in> {kProtocolUnqualified, kRegistrationFailed, kRegistrationVerificationFailed, kPhysicalRouteReady, kPassThroughReady} \<and>
    gOriginalService ms' = gOriginalService ms \<and>
    (gState ms' \<in> {kPhysicalRouteReady, kPassThroughReady} \<longrightarrow>
      gRouterService ms' = Some (makeRouter mgr b (recipe (selectAndroid14CameraServiceProtocol sdk fp)) (mode = CameraServiceRouterMode.kPhysicalRoute)) \<and>
      (gState ms' = kPhysicalRouteReady \<longleftrightarrow> mode = CameraServiceRouterMode.kPhysicalRoute)) \<and>
    (gState ms' \<notin> {kPhysicalRouteReady, kPassThroughReady} \<longrightarrow> gRouterService ms' = gRouterService ms) \<and>
    (gState ms' = kPhysicalRouteReady \<longrightarrow> routingAllowed (selectAndroid14CameraServiceProtocol sdk fp))"
  using assms by (auto simp: registerRouter_def Let_def setTerminalState_def split: prod.splits if_splits)

lemma write_failed_registers_nothing:
  assumes "wrapAndroid14CameraDeviceUserReply api wrapper (Some reply) publicId deviceId st = (kDeviceWriteFailed, reply', st')"
  shows "st' = st"
proof -
  obtain s q1 where s: "readStatus api (setDataPosition api 0 reply) = (s, q1)" by (cases "readStatus api (setDataPosition api 0 reply)")
  obtain b q2 where b: "readStrongBinder api q1 = (b, q2)" by (cases "readStrongBinder api q1")
  note steps = assms [unfolded wrapAndroid14CameraDeviceUserReply_def option.case Let_def s prod.case]
  consider (none) "s = None" | (unread) sv where "s = Some sv" "b = None \<or> b = Some None" | (read) sv d where "s = Some sv" "b = Some (Some d)"
    by (cases s; cases b) auto
  then show ?thesis
  proof cases
    case none
    then show ?thesis using steps by (simp split: if_splits)
  next
    case unread
    then show ?thesis using steps b by (auto split: if_splits)
  next
    case read
    then show ?thesis using steps by (simp add: b split: if_splits prod.splits)
  qed
qed

lemma monitor_stages:
  assumes "(if mode = CameraServiceRouterMode.kDisabled then setTerminalState mgr kDisabled newMonitor w
      else if mode = CameraServiceRouterMode.kInvalid then setTerminalState mgr kInvalidMode newMonitor w
      else if \<not> managerAvailable mgr w then setTerminalState mgr kServiceManagerUnavailable (newMonitor\<lparr>gState := kWaitingForService\<rparr>) w
      else case b of
        None \<Rightarrow> setTerminalState mgr kServiceTimeout (newMonitor\<lparr>gState := kWaitingForService\<rparr>) w1
      | Some original \<Rightarrow>
          if \<not> isLocal mgr original then setTerminalState mgr kOriginalServiceNotLocal (newMonitor\<lparr>gState := kWaitingForService\<rparr>) w1
          else if descriptorOf mgr original \<noteq> kCameraServiceDescriptor then setTerminalState mgr kWrongInterface (newMonitor\<lparr>gState := kWaitingForService\<rparr>) w1
          else if mode = CameraServiceRouterMode.kPreflight
               then setTerminalState mgr kPreflightReady (newMonitor\<lparr>gState := kWaitingForService, gOriginalService := Some original\<rparr>) w1
          else registerRouter mgr mode sdk fingerprint original
                 (newMonitor\<lparr>gState := kWaitingForService, gOriginalService := Some original\<rparr>) w1) = (ms', w')"
  shows "gState ms' \<in> {kDisabled, kInvalidMode, kServiceManagerUnavailable, kServiceTimeout, kOriginalServiceNotLocal,
      kWrongInterface, kPreflightReady} \<and> gRouterService ms' = None \<or>
    (mode = CameraServiceRouterMode.kPassThrough \<or> mode = CameraServiceRouterMode.kPhysicalRoute) \<and>
    (\<exists>original. isLocal mgr original \<and> descriptorOf mgr original = kCameraServiceDescriptor \<and>
       registerRouter mgr mode sdk fingerprint original
         (newMonitor\<lparr>gState := kWaitingForService, gOriginalService := Some original\<rparr>) w1 = (ms', w'))"
proof -
  have terminal: "setTerminalState mgr s ms v = (ms', w') \<Longrightarrow> gState ms' = s \<and> gRouterService ms' = gRouterService ms" for s ms v
    by (auto simp: setTerminalState_def)
  show ?thesis
    using assms terminal by (cases mode; cases b) (fastforce simp: newMonitor_def split: if_split_asm)+
qed

lemma monitor_outcome:
  assumes "routerMonitor mgr modeText sdkText fingerprint newMonitor w = (ms', w')"
  shows "gState ms' \<notin> {kNotStarted, kWaitingForService} \<and>
    (gRouterService ms' \<noteq> None \<longleftrightarrow> gState ms' \<in> {kPassThroughReady, kPhysicalRouteReady}) \<and>
    (\<forall>router. gRouterService ms' = Some router \<longrightarrow>
       parseCameraServiceRouterMode modeText \<in> {CameraServiceRouterMode.kPassThrough, CameraServiceRouterMode.kPhysicalRoute} \<and>
       (\<exists>original. isLocal mgr original \<and> descriptorOf mgr original = kCameraServiceDescriptor \<and> gOriginalService ms' = Some original \<and>
          router = makeRouter mgr original (recipe (selectAndroid14CameraServiceProtocol (buildSdk sdkText) fingerprint))
            (gState ms' = kPhysicalRouteReady))) \<and>
    (gState ms' = kPhysicalRouteReady \<longrightarrow> parseCameraServiceRouterMode modeText = CameraServiceRouterMode.kPhysicalRoute \<and>
       buildSdk sdkText = 34 \<and> fingerprint \<in> {kNx769jAndroid14Fingerprint, kAosp14AvdFingerprint})"
proof -
  let ?mode = "parseCameraServiceRouterMode modeText"
  let ?takeover = "?mode = CameraServiceRouterMode.kPassThrough \<or> ?mode = CameraServiceRouterMode.kPhysicalRoute"
  obtain b w1 where wt: "waitForService mgr kServiceWaitAttempts w = (b, w1)" by (cases "waitForService mgr kServiceWaitAttempts w")
  note run = assms [unfolded routerMonitor_def Let_def wt prod.case]
  show ?thesis
  proof (cases "gState ms' \<in> {kDisabled, kInvalidMode, kServiceManagerUnavailable, kServiceTimeout, kOriginalServiceNotLocal,
      kWrongInterface, kPreflightReady} \<and> gRouterService ms' = None")
    case True
    then show ?thesis by auto
  next
    case False
    then obtain original where o: "?takeover" "isLocal mgr original" "descriptorOf mgr original = kCameraServiceDescriptor"
      and reg: "registerRouter mgr ?mode (buildSdk sdkText) fingerprint original
        (newMonitor\<lparr>gState := kWaitingForService, gOriginalService := Some original\<rparr>) w1 = (ms', w')"
      using monitor_stages [OF run] by blast
    from register_outcome [OF reg] o show ?thesis
      using routing_only_on_qualified_builds [of "buildSdk sdkText" fingerprint] unfolding newMonitor_def
      by (elim conjE insertE emptyE disjE) simp_all
  qed
qed

section \<open>Properties\<close>

text \<open>
  C38. With routing enabled, an observed camera request reaches the original service at most
  once.  A request for an internal camera is never forwarded, and without an active routing
  policy every other request is forwarded.  What the service receives is a well-formed request of
  the same transaction, caller and package, either for the camera the client named or for a
  camera that the routing policy gives to a package which the caller's uid owns.
\<close>
theorem camera_requests_follow_policy:
  assumes "parcel_contract (parcels plat) fmt view" "camera_request (shadow_recipe (shadowObserver st)) txnCode"
    and "observeAndroid14CameraServiceParcel (parcels plat) uid pid (shadow_recipe (shadowObserver st)) txnCode (Some data) = (ob, d)"
    and "status ob = kObserved"
    and "onTransact plat fs uid pid True txnCode data reply flags st e = (r, reply', st', e')"
  shows "e' = e \<and> (isInternalCameraId (cameraId ob) \<or> routingPolicyActive fs) \<or>
    \<not> isInternalCameraId (cameraId ob) \<and>
    (\<exists>q reply1. target plat txnCode q reply flags e = (r, reply1, e') \<and>
      (let ob' = fst (observeAndroid14CameraServiceParcel (parcels plat) uid pid (shadow_recipe (shadowObserver st)) txnCode (Some q)) in
       status ob' = kObserved \<and> transaction ob' = transaction ob \<and> callingUid ob' = callingUid ob \<and> packageName ob' = packageName ob \<and>
       (cameraId ob' = cameraId ob \<or>
        (\<exists>pkg cam. owned_package plat ob pkg \<and> policy_id fs ob pkg cam \<and>
           cameraId ob' = shown_id (payloadShape (transaction ob)) (forwarded_id fs ob cam)))))"
proof (cases "isInternalCameraId (cameraId ob)")
  case True
  then show ?thesis using onTransact_camera [OF assms] by auto
next
  case False
  then obtain q st1 where q: "view q = view data" "dataPosition (parcels plat) q = dataPosition (parcels plat) data"
    "routeCameraRequest plat fs txnCode q reply flags ob st1 e = (r, reply', st', e')"
    using onTransact_camera [OF assms] by auto
  note same = observe_cong [OF assms(1,2,3,4) q(1,2)]
  have new: "rewritten_forward plat fs txnCode q reply flags ob cam ds e r ds' e' \<Longrightarrow> \<exists>out reply1.
      target plat txnCode out reply flags e = (r, reply1, e') \<and>
      (let ob' = fst (observeAndroid14CameraServiceParcel (parcels plat) uid pid (shadow_recipe (shadowObserver st)) txnCode (Some out)) in
       status ob' = kObserved \<and> transaction ob' = transaction ob \<and> callingUid ob' = callingUid ob \<and> packageName ob' = packageName ob \<and>
       cameraId ob' = shown_id (payloadShape (transaction ob)) (forwarded_id fs ob cam))" for cam ds ds'
    using rewritten_observed [OF assms(1,2,3,4) q(1)] assms(4) unfolding rewritten_forward_def by fastforce
  from routeCameraRequest_cases [OF q(3)] show ?thesis
  proof (elim disjE)
    assume "target plat txnCode q reply flags e = (r, reply', e') \<and> deviceState st' = deviceState st1"
    then show ?thesis using False same assms(4) by (intro disjI2 conjI exI [of _ q] exI [of _ reply']) (simp_all add: Let_def)
  next
    assume "\<exists>pkg cam. owned_package plat ob pkg \<and> policy_id fs ob pkg cam \<and>
       rewritten_forward plat fs txnCode q reply flags ob cam (deviceState st1) e r (deviceState st') e'"
    then show ?thesis using False new unfolding Let_def by meson
  qed simp
qed

text \<open>
  C39. When a camera request leaves a new delegator behind, the service answered it with success
  and handed out a device, and the delegator forwards to that device, translating the id
  the client used into the very id for which the service received the request.  Otherwise no
  delegator is added.
\<close>
theorem delegator_speaks_for_client:
  assumes "parcel_contract (parcels plat) fmt view" "camera_request (shadow_recipe (shadowObserver st)) txnCode"
    and "observeAndroid14CameraServiceParcel (parcels plat) uid pid (shadow_recipe (shadowObserver st)) txnCode (Some data) = (ob, d)"
    and "status ob = kObserved"
    and "onTransact plat fs uid pid True txnCode data reply flags st e = (r, reply', st', e')"
  shows "deviceState st' = deviceState st \<or>
    (\<exists>q answer device new q1 q2 serviceStatus. r = statusOk \<and> target plat txnCode q reply flags e = (statusOk, Some answer, e') \<and>
      readStatus (parcels plat) (setDataPosition (parcels plat) 0 answer) = (Some serviceStatus, q1) \<and> statusIsOk (parcels plat) serviceStatus \<and>
      readStrongBinder (parcels plat) q1 = (Some (Some device), q2) \<and>
      deviceUsers (deviceState st') = (deviceUsers (deviceState st))(newDevice plat \<mapsto> (device, cameraId ob, new)) \<and>
      cameraId (fst (observeAndroid14CameraServiceParcel (parcels plat) uid pid (shadow_recipe (shadowObserver st)) txnCode (Some q))) =
        shown_id (payloadShape (transaction ob)) new)"
proof (cases "deviceState st' = deviceState st")
  case False
  obtain q st1 where q: "view q = view data" "deviceState st1 = deviceState st"
    "routeCameraRequest plat fs txnCode q reply flags ob st1 e = (r, reply', st', e')"
    using onTransact_camera [OF assms] False by (auto split: if_splits)
  obtain cam where "rewritten_forward plat fs txnCode q reply flags ob cam (deviceState st) e r (deviceState st') e'"
    using routeCameraRequest_cases [OF q(3)] q(2) False by auto
  then obtain out reply1 result reply2 where
    rw: "rewriteAndroid14CameraId (parcels plat) ob (forwarded_id fs ob cam) q (Separate (newParcel (parcels plat))) = (kRewritten, Separate out)"
    and t: "target plat txnCode out reply flags e = (r, reply1, e')" "r = statusOk"
    and w: "wrapAndroid14CameraDeviceUserReply (parcels plat) (newDevice plat) reply1 (cameraId ob) (forwarded_id fs ob cam) (deviceState st) =
      (result, reply2, deviceState st')"
    using False unfolding rewritten_forward_def by blast
  obtain answer where a: "reply1 = Some answer" using w False by (cases reply1) (auto simp: wrapAndroid14CameraDeviceUserReply_def)
  have "result = kDeviceWrapped"
    using w False unwrapped_reply [OF assms(1)] write_failed_registers_nothing unfolding a by metis
  from wrapped_reply [OF assms(1)] w [unfolded this a]
  show ?thesis
    using t a rewritten_observed [OF assms(1,2,3,4) q(1) rw] by fastforce
qed simp


section \<open>Witnesses\<close>

text \<open>A service that hands out the device 5 and counts its calls, one application, and a wildcard route to a video provider.\<close>

definition examplePlatform :: "(flat_parcel, nat, int, nat) RouterPlatform" where
  "examplePlatform = \<lparr>parcels = flatApi,
     target = (\<lambda>txnCode q reply flags e. (0, Some \<lparr>cells = [Stat 0, Binder (Some 5)], cursor = 0\<rparr>, e + 1)),
     packagesForUid = (\<lambda>_. [utf16 ''com.app'']), string8 = map asciiChar, illegalArgument = (\<lambda>_. 3), writeError = - 1,
     aliveBinder = (\<lambda>_. True), newListener = 7, newDevice = 9\<rparr>"

definition exampleRouterFiles :: RouterFiles where
  "exampleRouterFiles = \<lparr>pathExists = (\<lambda>_. False), pathSize = (\<lambda>_. Some 1), pathReadable = (\<lambda>_. True),
     fileContents = [kRuntimeRoutesPath \<mapsto> ''*'' @ [tab] @ ''0'' @ [tab] @ ''video'' @ [newline],
       kRuntimeProvidersPath @ ''/video/enabled'' \<mapsto> [],
       kDefaultTargetMapPath \<mapsto> ''0'' @ [tab] @ ''0'' @ [newline] @ ''1'' @ [tab] @ ''1'' @ [newline]]\<rparr>"

definition exampleRouter :: "nat RouterState" where
  "exampleRouter = \<lparr>shadowObserver = newShadowObserver makeAndroid14InitialCameraServiceRecipe, listenerState = initialListenerState,
     deviceState = noDevices, gVerifiedPackageClaims = 0, gRejectedPackageClaims = 0, gUnavailablePackageLookups = 0,
     gUniqueUidPackageResolutions = 0, gAmbiguousUidPackageResolutions = 0, gUnavailableUidPackageResolutions = 0,
     gPackageRouteCandidates = 0, gGlobalRouteCandidates = 0, gPhysicalRouteDecisions = 0, gUnavailableRouteProviders = 0,
     gPhysicalRewriteAttempts = 0, gPhysicalRewriteSuccesses = 0, gPhysicalRewriteFailures = 0, gInternalCameraRequestsRejected = 0\<rparr>"

definition exampleRouted :: "(flat_parcel, nat, nat) routed" where
  "exampleRouted = onTransact examplePlatform exampleRouterFiles 10001 4242 True 4 exampleRequest (Some (newParcel flatApi)) 0 exampleRouter 0"

lemma example_routed:
  "snd (snd (snd exampleRouted)) = 1" "deviceUsers (deviceState (fst (snd (snd exampleRouted)))) 9 = Some (5, ''0'', ''1000'')"
  by code_simp+

lemma example_setting:
  "parcels examplePlatform = flatApi" "shadow_recipe (shadowObserver exampleRouter) = makeAndroid14InitialCameraServiceRecipe"
  "camera_request makeAndroid14InitialCameraServiceRecipe 4" "deviceUsers (deviceState exampleRouter) 9 = None"
  "newDevice examplePlatform = 9"
  by (simp_all add: examplePlatform_def exampleRouter_def newShadowObserver_def camera_request_def example_class string_id_def noDevices_def)

theorem camera_requests_follow_policy_witness:
  "\<exists>q reply1. target examplePlatform 4 q (Some (newParcel flatApi)) 0 0 = (fst exampleRouted, reply1, 1) \<and>
     status (fst (observeAndroid14CameraServiceParcel flatApi 10001 4242 makeAndroid14InitialCameraServiceRecipe 4 (Some q))) = kObserved"
proof -
  have run: "onTransact examplePlatform exampleRouterFiles 10001 4242 True 4 exampleRequest (Some (newParcel flatApi)) 0 exampleRouter 0 =
      (fst exampleRouted, fst (snd exampleRouted), fst (snd (snd exampleRouted)), 1)"
    using example_routed(1) by (simp add: exampleRouted_def prod_eq_iff)
  show ?thesis
    using camera_requests_follow_policy [of examplePlatform flatFormat cells exampleRouter 4, unfolded example_setting(1,2),
        OF flat_contract example_setting(3) example_observed _ run]
    by (auto simp: observed_as_def Let_def)
qed

theorem delegator_speaks_for_client_witness:
  "\<exists>q. cameraId (fst (observeAndroid14CameraServiceParcel flatApi 10001 4242 makeAndroid14InitialCameraServiceRecipe 4 (Some q))) = ''1000''"
proof -
  have run: "onTransact examplePlatform exampleRouterFiles 10001 4242 True 4 exampleRequest (Some (newParcel flatApi)) 0 exampleRouter 0 =
      (fst exampleRouted, fst (snd exampleRouted), fst (snd (snd exampleRouted)), snd (snd (snd exampleRouted)))"
    by (simp add: exampleRouted_def)
  show ?thesis
    using delegator_speaks_for_client [of examplePlatform flatFormat cells exampleRouter 4, unfolded example_setting(1,2),
        OF flat_contract example_setting(3) example_observed _ run] example_routed(2) example_setting(4,5)
    by (auto simp: observed_as_def example_class shown_id_def string_id_def cstr_def)
qed

text \<open>A service manager that remembers the last service that was added.\<close>

definition exampleManager :: "(nat, nat option) ServiceManager" where
  "exampleManager = \<lparr>managerAvailable = (\<lambda>_. True), checkService = (\<lambda>w. (w, w)), usleep = (\<lambda>w. w), isLocal = (\<lambda>_. True),
     descriptorOf = (\<lambda>_. kCameraServiceDescriptor), makeRouter = (\<lambda>b _ _. b + 1), addService = (\<lambda>b _. (0, Some b)), unlinkPending = (\<lambda>w. w)\<rparr>"

lemma example_takeover:
  "gState (fst (routerMonitor exampleManager (Some ''physical-route'') ''34'' kNx769jAndroid14Fingerprint newMonitor (Some 4))) = kPhysicalRouteReady"
proof -
  have "buildSdk ''34'' = 34" "parseCameraServiceRouterMode (Some ''physical-route'') = CameraServiceRouterMode.kPhysicalRoute"
    by code_simp+
  moreover have "waitForService exampleManager kServiceWaitAttempts (Some 4) = (Some 4, Some 4)"
    by (simp add: exampleManager_def kServiceWaitAttempts_def numeral_eq_Suc)
  ultimately show ?thesis
    using routing_only_on_qualified_builds [of 34 kNx769jAndroid14Fingerprint]
    by (simp add: routerMonitor_def registerRouter_def Let_def setTerminalState_def exampleManager_def statusOk_def)
qed


end
