(* ===== verification/Pattern_Generator.thy ===== *)
theory Pattern_Generator
  imports Vcam_Prelude
begin

text \<open>
  The test pattern of \<open>src/hal/src/PatternGenerator.cpp\<close>, drawn when no source frame is
  available.  All arithmetic is at the width of the source; the image is stored in a
  byte-addressed memory through the pointers of a \<open>Yuv420Layout\<close> (address 0 is null).
\<close>

unbundle bit_operations_syntax

section \<open>Definitions\<close>

record Yuv420Layout =
  yPointer :: uint64
  cbPointer :: uint64
  crPointer :: uint64
  yStride :: uint64
  cStride :: uint64
  chromaStep :: uint64
  yStep :: uint64

record Rgb =
  r_channel :: uint8
  g_channel :: uint8
  b_channel :: uint8

definition rgb :: "uint8 \<Rightarrow> uint8 \<Rightarrow> uint8 \<Rightarrow> Rgb" where
  "rgb r g b = \<lparr>r_channel = r, g_channel = g, b_channel = b\<rparr>"

type_synonym image_memory = "uint64 \<Rightarrow> uint8"

text \<open>The C integer conversions of a channel and of the clamped result.\<close>

abbreviation channel :: "uint8 \<Rightarrow> int" where
  "channel c \<equiv> uint c"

definition clamp :: "int \<Rightarrow> uint8" where
  "clamp v = word_of_int (max 0 (min 255 v))"

definition kBars :: "Rgb list" where
  "kBars = [rgb 255 255 255, rgb 255 255 0, rgb 0 255 255, rgb 0 255 0, rgb 255 0 255, rgb 255 0 0, rgb 0 0 255, rgb 0 0 0]"

definition colorAt :: "uint32 \<Rightarrow> uint32 \<Rightarrow> uint32 \<Rightarrow> uint32 \<Rightarrow> uint64 \<Rightarrow> int \<Rightarrow> Rgb" where
  "colorAt width height x y frameNumber cameraId =
     (let shiftedX = (if width = 0 then 0 else (x + ucast ((frameNumber * 3) mod ucast width)) mod width);
          bar = (if width = 0 then 0 else min 7 (unat (shiftedX * 8 div width)));
          color = kBars ! bar;
          stripHeight = max 1 (height div 12);
          stripTop = (if height = 0 then 0 else ucast ((frameNumber * 2) mod ucast height));
          color = (if y \<ge> stripTop \<and> y < min height (stripTop + stripHeight)
                   then let gray = ucast ((ucast x + frameNumber) AND 0xff) in rgb gray gray gray
                   else color)
      in if cameraId = 1 \<and> x < width div 16 then rgb 255 96 32 else color)"

text \<open>The conversions to full-range BT.601; \<open>>> 8\<close> on a negative int rounds down.\<close>

definition pattern_luma :: "Rgb \<Rightarrow> int" where
  "pattern_luma c = (77 * channel (r_channel c) + 150 * channel (g_channel c) + 29 * channel (b_channel c)) div 256"
definition pattern_cb :: "Rgb \<Rightarrow> int" where
  "pattern_cb c = 128 + (- 43 * channel (r_channel c) - 85 * channel (g_channel c) + 128 * channel (b_channel c)) div 256"
definition pattern_cr :: "Rgb \<Rightarrow> int" where
  "pattern_cr c = 128 + (128 * channel (r_channel c) - 107 * channel (g_channel c) - 21 * channel (b_channel c)) div 256"

text \<open>The loops of a fill as the sequence of their stores.\<close>

definition plane_address :: "uint64 \<Rightarrow> uint64 \<Rightarrow> uint64 \<Rightarrow> nat \<Rightarrow> nat \<Rightarrow> uint64" where
  "plane_address base stride step x y = base + of_nat y * stride + of_nat x * step"

definition luma_stores :: "Yuv420Layout \<Rightarrow> nat \<Rightarrow> nat \<Rightarrow> (nat \<Rightarrow> nat \<Rightarrow> uint8) \<Rightarrow> (uint64 \<times> uint8) list" where
  "luma_stores layout width height f =
     concat (map (\<lambda>y. map (\<lambda>x. (plane_address (yPointer layout) (yStride layout) (yStep layout) x y, f x y)) [0..<width])
       [0..<height])"

definition chroma_stores ::
  "Yuv420Layout \<Rightarrow> nat \<Rightarrow> nat \<Rightarrow> (nat \<Rightarrow> nat \<Rightarrow> uint8) \<Rightarrow> (nat \<Rightarrow> nat \<Rightarrow> uint8) \<Rightarrow> (uint64 \<times> uint8) list" where
  "chroma_stores layout width height fb fr =
     concat (map (\<lambda>y. concat (map (\<lambda>x.
         [(plane_address (cbPointer layout) (cStride layout) (chromaStep layout) x y, fb x y),
          (plane_address (crPointer layout) (cStride layout) (chromaStep layout) x y, fr x y)]) [0..<width div 2]))
       [0..<height div 2])"

definition store_all :: "(uint64 \<times> uint8) list \<Rightarrow> image_memory \<Rightarrow> image_memory" where
  "store_all ws mem = fold (\<lambda>(a, v) m. m(a := v)) ws mem"

definition layout_refused :: "uint32 \<Rightarrow> uint32 \<Rightarrow> Yuv420Layout \<Rightarrow> bool" where
  "layout_refused width height layout \<longleftrightarrow> width = 0 \<or> height = 0 \<or> yPointer layout = 0 \<or> cbPointer layout = 0 \<or>
     crPointer layout = 0 \<or> yStep layout = 0 \<or> yStride layout < ucast (width - 1) * yStep layout + 1 \<or>
     cStride layout = 0 \<or> chromaStep layout = 0"

definition fillYuv420 ::
  "uint32 \<Rightarrow> uint32 \<Rightarrow> uint64 \<Rightarrow> int \<Rightarrow> Yuv420Layout \<Rightarrow> image_memory \<Rightarrow> bool \<times> image_memory" where
  "fillYuv420 width height frameNumber cameraId layout mem =
     (if layout_refused width height layout then (False, mem)
      else let luma = (\<lambda>x y. clamp (pattern_luma (colorAt width height (of_nat x) (of_nat y) frameNumber cameraId)));
               chroma = (\<lambda>x y. colorAt width height (of_nat x * 2) (of_nat y * 2) frameNumber cameraId) in
        (True, store_all (luma_stores layout (unat width) (unat height) luma @
           chroma_stores layout (unat width) (unat height) (\<lambda>x y. clamp (pattern_cb (chroma x y)))
             (\<lambda>x y. clamp (pattern_cr (chroma x y)))) mem))"

definition rgb_stores :: "uint64 \<Rightarrow> nat \<Rightarrow> (nat \<Rightarrow> Rgb) \<Rightarrow> (uint64 \<times> uint8) list" where
  "rgb_stores p width f =
     concat (map (\<lambda>x. [(p + of_nat (3 * x), r_channel (f x)), (p + of_nat (3 * x + 1), g_channel (f x)),
       (p + of_nat (3 * x + 2), b_channel (f x))]) [0..<width])"

definition fillRgbRow ::
  "uint32 \<Rightarrow> uint32 \<Rightarrow> uint32 \<Rightarrow> uint64 \<Rightarrow> int \<Rightarrow> uint64 \<Rightarrow> image_memory \<Rightarrow> image_memory" where
  "fillRgbRow width height row frameNumber cameraId p mem =
     (if p = 0 then mem
      else store_all (rgb_stores p (unat width) (\<lambda>x. colorAt width height (of_nat x) row frameNumber cameraId)) mem)"

section \<open>Stores\<close>

lemma store_all_append: "store_all (xs @ ys) mem = store_all ys (store_all xs mem)"
  by (simp add: store_all_def)

lemma store_all_other: "a \<notin> fst ` set ws \<Longrightarrow> store_all ws mem a = mem a"
  by (induction ws arbitrary: mem) (auto simp: store_all_def)

lemma store_all_hit: "distinct (map fst ws) \<Longrightarrow> (a, v) \<in> set ws \<Longrightarrow> store_all ws mem a = v"
proof (induction ws arbitrary: mem)
  case (Cons w ws)
  obtain b u where w: "w = (b, u)" by (cases w)
  have step: "store_all (w # ws) mem = store_all ws (mem(b := u))" by (simp add: store_all_def w)
  show ?case
  proof (cases "(a, v) \<in> set ws")
    case True
    then show ?thesis using Cons step by simp
  next
    case False
    then have "a = b" "v = u" using Cons.prems(2) w by auto
    then show ?thesis using Cons.prems(1) step w by (simp add: store_all_other)
  qed
qed simp

section \<open>Addresses of the luma plane\<close>

text \<open>No address of the image wraps around.\<close>

definition luma_fits :: "Yuv420Layout \<Rightarrow> uint32 \<Rightarrow> uint32 \<Rightarrow> bool" where
  "luma_fits layout width height \<longleftrightarrow>
     unat (yPointer layout) + unat height * unat (yStride layout) \<le> 2 ^ 64 \<and> unat width * unat (yStep layout) < 2 ^ 64"

definition luma_addresses :: "Yuv420Layout \<Rightarrow> uint32 \<Rightarrow> uint32 \<Rightarrow> uint64 list" where
  "luma_addresses layout width height = map fst (luma_stores layout (unat width) (unat height) (\<lambda>_ _. 0))"

definition chroma_addresses :: "Yuv420Layout \<Rightarrow> uint32 \<Rightarrow> uint32 \<Rightarrow> uint64 list" where
  "chroma_addresses layout width height = map fst (chroma_stores layout (unat width) (unat height) (\<lambda>_ _. 0) (\<lambda>_ _. 0))"

text \<open>The chroma stores do not meet each other or the luma plane.\<close>

definition planes_separate :: "Yuv420Layout \<Rightarrow> uint32 \<Rightarrow> uint32 \<Rightarrow> bool" where
  "planes_separate layout width height \<longleftrightarrow> distinct (chroma_addresses layout width height) \<and>
     set (luma_addresses layout width height) \<inter> set (chroma_addresses layout width height) = {}"

lemma luma_stores_product:
  "luma_stores layout w h f =
     map (\<lambda>(y, x). (plane_address (yPointer layout) (yStride layout) (yStep layout) x y, f x y)) (List.product [0..<h] [0..<w])"
  by (simp add: luma_stores_def product_concat_map map_concat comp_def)

lemma luma_addresses_any: "map fst (luma_stores layout (unat width) (unat height) f) = luma_addresses layout width height"
  by (simp add: luma_addresses_def luma_stores_product case_prod_unfold comp_def)

lemma chroma_addresses_any:
  "map fst (chroma_stores layout (unat width) (unat height) fb fr) = chroma_addresses layout width height"
  by (simp add: chroma_addresses_def chroma_stores_def map_concat comp_def)

lemma unat_ucast_32_64: "unat (ucast (w :: uint32) :: uint64) = unat w"
proof (rule of_nat_inverse)
  show "word_of_nat (unat w) = (ucast w :: uint64)" by simp
  show "unat w < 2 ^ LENGTH(64)" using unsigned_less [of w] by (rule less_trans) simp
qed

lemma unat_width_minus: "width \<noteq> 0 \<Longrightarrow> unat (ucast (width - 1 :: uint32) :: uint64) = unat width - 1"
  by (simp add: unat_ucast_32_64 unat_minus_one)

lemma row_fits:
  assumes "\<not> layout_refused width height layout" "luma_fits layout width height" "x < unat width"
  shows "x * unat (yStep layout) < unat (yStride layout)"
proof -
  have w: "width \<noteq> 0" "yStride layout \<ge> ucast (width - 1) * yStep layout + 1"
    using assms(1) by (auto simp: layout_refused_def not_less)
  define n where "n = (unat width - 1) * unat (yStep layout) + 1"
  have "n \<le> unat width * unat (yStep layout)"
    using assms by (cases "unat width") (auto simp: n_def layout_refused_def unat_gt_0 Suc_le_eq)
  then have "unat (word_of_nat n :: uint64) = n"
    using assms(2) by (intro of_nat_inverse [OF refl]) (simp add: luma_fits_def)
  moreover have "ucast (width - 1) * yStep layout + 1 = word_of_nat n"
    unfolding n_def unat_width_minus [OF w(1), symmetric] of_nat_add of_nat_mult by simp
  ultimately have "n \<le> unat (yStride layout)"
    using w(2) by (simp add: word_le_nat_alt)
  moreover have "x * unat (yStep layout) \<le> (unat width - 1) * unat (yStep layout)"
    using assms(3) by (intro mult_right_mono) simp_all
  ultimately show ?thesis unfolding n_def by linarith
qed

lemma luma_address_value:
  assumes "\<not> layout_refused width height layout" "luma_fits layout width height" "x < unat width" "y < unat height"
  shows "unat (plane_address (yPointer layout) (yStride layout) (yStep layout) x y) =
    unat (yPointer layout) + y * unat (yStride layout) + x * unat (yStep layout)"
proof (rule of_nat_inverse)
  show "word_of_nat (unat (yPointer layout) + y * unat (yStride layout) + x * unat (yStep layout)) =
      plane_address (yPointer layout) (yStride layout) (yStep layout) x y"
    by (simp add: plane_address_def)
  have "(y + 1) * unat (yStride layout) \<le> unat height * unat (yStride layout)"
    using assms(4) by (intro mult_right_mono) simp_all
  moreover have "unat (yPointer layout) + unat height * unat (yStride layout) \<le> 2 ^ 64"
    using assms(2) by (simp add: luma_fits_def)
  ultimately show "unat (yPointer layout) + y * unat (yStride layout) + x * unat (yStep layout) < 2 ^ LENGTH(64)"
    using row_fits [OF assms(1,2,3)] by simp
qed

lemma luma_address_inj:
  assumes "\<not> layout_refused width height layout" "luma_fits layout width height"
    and "x < unat width" "y < unat height" "x' < unat width" "y' < unat height"
    and "plane_address (yPointer layout) (yStride layout) (yStep layout) x y =
      plane_address (yPointer layout) (yStride layout) (yStep layout) x' y'"
  shows "x = x' \<and> y = y'"
proof -
  let ?S = "unat (yStride layout)" and ?T = "unat (yStep layout)"
  have eq: "x * ?T + y * ?S = x' * ?T + y' * ?S"
    using assms(7) luma_address_value [OF assms(1,2,3,4)] luma_address_value [OF assms(1,2,5,6)] by simp
  have lt: "x * ?T < ?S" "x' * ?T < ?S" using row_fits [OF assms(1,2)] assms(3,5) by simp_all
  have "y = (x * ?T + y * ?S) div ?S" "y' = (x' * ?T + y' * ?S) div ?S" using lt by simp_all
  then have "y = y'" using eq by simp
  moreover have "?T > 0" using assms(1) by (simp add: layout_refused_def unat_gt_0)
  ultimately show ?thesis using eq by simp
qed

lemma luma_distinct:
  assumes "\<not> layout_refused width height layout" "luma_fits layout width height"
  shows "distinct (luma_addresses layout width height)"
proof -
  have "inj_on (\<lambda>(y, x). plane_address (yPointer layout) (yStride layout) (yStep layout) x y)
      (set (List.product [0..<unat height] [0..<unat width]))"
    using luma_address_inj [OF assms] by (auto simp: inj_on_def)
  moreover have "luma_addresses layout width height =
      map (\<lambda>(y, x). plane_address (yPointer layout) (yStride layout) (yStep layout) x y) (List.product [0..<unat height] [0..<unat width])"
    by (simp add: luma_addresses_def luma_stores_product case_prod_unfold comp_def)
  ultimately show ?thesis by (simp add: distinct_map distinct_product)
qed

text \<open>What a fill leaves in memory, for any two colour functions.\<close>

lemma fill_stores:
  fixes layout width height f fb fr
  assumes "\<not> layout_refused width height layout" "luma_fits layout width height" "planes_separate layout width height"
  defines "ws \<equiv> luma_stores layout (unat width) (unat height) f @ chroma_stores layout (unat width) (unat height) fb fr"
  shows "x < unat width \<Longrightarrow> y < unat height \<Longrightarrow>
      store_all ws mem (plane_address (yPointer layout) (yStride layout) (yStep layout) x y) = f x y"
    and "x < unat width div 2 \<Longrightarrow> y < unat height div 2 \<Longrightarrow>
      store_all ws mem (plane_address (cbPointer layout) (cStride layout) (chromaStep layout) x y) = fb x y"
    and "x < unat width div 2 \<Longrightarrow> y < unat height div 2 \<Longrightarrow>
      store_all ws mem (plane_address (crPointer layout) (cStride layout) (chromaStep layout) x y) = fr x y"
    and "a \<notin> set (luma_addresses layout width height) \<union> set (chroma_addresses layout width height) \<Longrightarrow>
      store_all ws mem a = mem a"
proof -
  have addresses: "map fst ws = luma_addresses layout width height @ chroma_addresses layout width height"
    by (simp add: ws_def luma_addresses_any chroma_addresses_any)
  have d: "distinct (map fst ws)"
    using assms(3) luma_distinct [OF assms(1,2)] by (simp add: addresses planes_separate_def)
  show "store_all ws mem (plane_address (yPointer layout) (yStride layout) (yStep layout) x y) = f x y"
    if "x < unat width" "y < unat height"
    using that by (intro store_all_hit [OF d]) (force simp: ws_def luma_stores_product)
  show "store_all ws mem (plane_address (cbPointer layout) (cStride layout) (chromaStep layout) x y) = fb x y"
    if "x < unat width div 2" "y < unat height div 2"
    using that by (intro store_all_hit [OF d]) (force simp: ws_def chroma_stores_def)
  show "store_all ws mem (plane_address (crPointer layout) (cStride layout) (chromaStep layout) x y) = fr x y"
    if "x < unat width div 2" "y < unat height div 2"
    using that by (intro store_all_hit [OF d]) (force simp: ws_def chroma_stores_def)
  show "store_all ws mem a = mem a"
    if "a \<notin> set (luma_addresses layout width height) \<union> set (chroma_addresses layout width height)"
    using that addresses by (intro store_all_other) (metis list.set_map set_append)
qed

section \<open>Conversions\<close>

lemma channel_bounds: "0 \<le> channel c \<and> channel c \<le> 255"
  using uint_lt2p [of c] by simp

lemma div256:
  fixes l u v :: int
  assumes "256 * l \<le> v" "v < 256 * u + 256"
  shows "l \<le> v div 256 \<and> v div 256 \<le> u"
proof -
  have "256 * (v div 256) + v mod 256 = v" "v mod 256 < 256" "0 \<le> v mod 256" by simp_all
  with assms have "256 * l < 256 * (v div 256) + 256" "256 * (v div 256) < 256 * u + 256" by linarith+
  then show ?thesis by simp
qed

lemma clamp_exact: "0 \<le> v \<Longrightarrow> v \<le> 255 \<Longrightarrow> uint (clamp v) = v"
  by (simp add: clamp_def unsigned_of_int take_bit_eq_mod)

lemma conversion_ranges:
  "0 \<le> pattern_luma c \<and> pattern_luma c \<le> 255" "0 \<le> pattern_cb c \<and> pattern_cb c \<le> 255"
  "0 \<le> pattern_cr c \<and> pattern_cr c \<le> 255"
proof -
  note b = channel_bounds [of "r_channel c", THEN conjunct1] channel_bounds [of "r_channel c", THEN conjunct2]
    channel_bounds [of "g_channel c", THEN conjunct1] channel_bounds [of "g_channel c", THEN conjunct2]
    channel_bounds [of "b_channel c", THEN conjunct1] channel_bounds [of "b_channel c", THEN conjunct2]
  show "0 \<le> pattern_luma c \<and> pattern_luma c \<le> 255"
    unfolding pattern_luma_def by (rule div256) (use b in linarith)+
  have "- 128 \<le> (- 43 * channel (r_channel c) - 85 * channel (g_channel c) + 128 * channel (b_channel c)) div 256 \<and>
      (- 43 * channel (r_channel c) - 85 * channel (g_channel c) + 128 * channel (b_channel c)) div 256 \<le> 127"
    by (rule div256) (use b in linarith)+
  then show "0 \<le> pattern_cb c \<and> pattern_cb c \<le> 255" unfolding pattern_cb_def by linarith
  have "- 128 \<le> (128 * channel (r_channel c) - 107 * channel (g_channel c) - 21 * channel (b_channel c)) div 256 \<and>
      (128 * channel (r_channel c) - 107 * channel (g_channel c) - 21 * channel (b_channel c)) div 256 \<le> 127"
    by (rule div256) (use b in linarith)+
  then show "0 \<le> pattern_cr c \<and> pattern_cr c \<le> 255" unfolding pattern_cr_def by linarith
qed

section \<open>Properties\<close>

text \<open>
  C33. Drawing the pattern into an accepted layout whose image does not wrap around the
  address space and whose planes do not overlap stores, at the address of every luma and
  chroma sample, the component of the colour of its pixel (of the even pixel for chroma), and
  changes no other byte.
\<close>
theorem pattern_fill_stores_image:
  assumes "\<not> layout_refused width height layout" "luma_fits layout width height" "planes_separate layout width height"
    and "fillYuv420 width height frameNumber cameraId layout mem = (ok, mem')"
  shows "ok \<and>
    (x < unat width \<and> y < unat height \<longrightarrow>
       uint (mem' (plane_address (yPointer layout) (yStride layout) (yStep layout) x y)) =
         pattern_luma (colorAt width height (of_nat x) (of_nat y) frameNumber cameraId)) \<and>
    (x < unat width div 2 \<and> y < unat height div 2 \<longrightarrow>
       uint (mem' (plane_address (cbPointer layout) (cStride layout) (chromaStep layout) x y)) =
         pattern_cb (colorAt width height (of_nat (2 * x)) (of_nat (2 * y)) frameNumber cameraId) \<and>
       uint (mem' (plane_address (crPointer layout) (cStride layout) (chromaStep layout) x y)) =
         pattern_cr (colorAt width height (of_nat (2 * x)) (of_nat (2 * y)) frameNumber cameraId)) \<and>
    (a \<notin> set (luma_addresses layout width height) \<union> set (chroma_addresses layout width height) \<longrightarrow> mem' a = mem a)"
  using assms(4) fill_stores [OF assms(1,2,3)] conversion_ranges
  by (auto simp: fillYuv420_def assms(1) Let_def clamp_exact mult.commute)

section \<open>Witnesses\<close>

definition smallLayout :: Yuv420Layout where
  "smallLayout = \<lparr>yPointer = 0x1000, cbPointer = 0x2000, crPointer = 0x3000, yStride = 2, cStride = 1, chromaStep = 1, yStep = 1\<rparr>"

lemma small_layout: "\<not> layout_refused 2 2 smallLayout" "luma_fits smallLayout 2 2" "planes_separate smallLayout 2 2"
  by (simp_all add: layout_refused_def luma_fits_def planes_separate_def luma_addresses_def chroma_addresses_def
      luma_stores_def chroma_stores_def plane_address_def smallLayout_def upt_rec)

theorem pattern_fill_stores_image_witness:
  "uint (snd (fillYuv420 2 2 0 0 smallLayout (\<lambda>_. 0)) (plane_address 0x1000 2 1 1 1)) = pattern_luma (colorAt 2 2 1 1 0 0)"
  using pattern_fill_stores_image [OF small_layout prod.collapse [symmetric],
      where frameNumber = 0 and cameraId = 0 and mem = "\<lambda>_. 0" and x = 1 and y = 1]
  by (simp add: smallLayout_def)

end
