(* ===== verification/Rgb_Frame.thy ===== *)
theory Rgb_Frame
  imports Complex_Main C_Strings Pattern_Generator
begin

text \<open>
  The published source frame and its sampling, \<open>src/hal/src/RgbFrame.cpp\<close>, and the renderer
  over it, \<open>src/hal/src/FrameRenderer.cpp\<close>.  A read of \<open>pixels_\<close> outside the vector is \<open>None\<close>.
  A floating-point operation is the exact real operation followed by a rounding; the two
  roundings are parameters, and so are the files.  A scale or center that is not a number
  behaves in \<open>std::min\<close> as the constant it is compared with, which is in range, so the
  transform's components range over the reals.
\<close>

unbundle bit_operations_syntax

section \<open>Definitions\<close>

datatype PixelFormat = kNone | kRgb888 | kI420

record RgbFrame =
  format_of :: PixelFormat
  width_of :: uint32
  height_of :: uint32
  sequence_of :: uint32
  pixels_of :: "uint8 list"

definition emptyFrame :: RgbFrame where
  "emptyFrame = \<lparr>format_of = kNone, width_of = 0, height_of = 0, sequence_of = 0, pixels_of = []\<rparr>"

record RgbTransform =
  rotationDegrees :: int
  scale :: real
  centerX :: real
  centerY :: real

record Yuv =
  y_sample :: uint8
  cb_sample :: uint8
  cr_sample :: uint8

definition yuv :: "uint8 \<Rightarrow> uint8 \<Rightarrow> uint8 \<Rightarrow> Yuv" where
  "yuv y cb cr = \<lparr>y_sample = y, cb_sample = cb, cr_sample = cr\<rparr>"

record Rounding =
  rnd32 :: "real \<Rightarrow> real"
  rnd64 :: "real \<Rightarrow> real"

definition kHeaderSize :: nat where "kHeaderSize = 24"
definition kMaxDimension :: uint32 where "kMaxDimension = 4096"
definition kMaxPixels :: uint64 where "kMaxPixels = 4096 * 3072"
definition kRgbMagic :: "uint8 list" where "kRgbMagic = map of_char ''VCAMRGB1''"
definition kYuvMagic :: "uint8 list" where "kYuvMagic = map of_char ''VCAMYUV1''"

definition valid :: "RgbFrame \<Rightarrow> bool" where
  "valid f \<longleftrightarrow> pixels_of f \<noteq> []"

definition readLe32 :: "uint8 list \<Rightarrow> uint32" where
  "readLe32 bs = ucast (bs ! 0) OR push_bit 8 (ucast (bs ! 1)) OR push_bit 16 (ucast (bs ! 2)) OR push_bit 24 (ucast (bs ! 3))"

definition formatFromMagic :: "uint8 list option \<Rightarrow> PixelFormat" where
  "formatFromMagic bytes =
     (case bytes of
        None \<Rightarrow> kNone
      | Some bs \<Rightarrow> if take 8 bs = kRgbMagic then kRgb888 else if take 8 bs = kYuvMagic then kI420 else kNone)"

definition expectedPayload :: "PixelFormat \<Rightarrow> uint32 \<Rightarrow> uint32 \<Rightarrow> uint64" where
  "expectedPayload fmt width height =
     (let pixels = ucast width * ucast height in
      if fmt = kRgb888 then pixels * 3
      else if fmt = kI420 \<and> width AND 1 = 0 \<and> height AND 1 = 0 then pixels + pixels div 2
      else 0)"

definition reset :: "RgbFrame \<Rightarrow> RgbFrame" where
  "reset f = f\<lparr>format_of := kNone, width_of := 0, height_of := 0, sequence_of := 0, pixels_of := []\<rparr>"

definition dimensionsRefused :: "uint32 \<Rightarrow> uint32 \<Rightarrow> bool" where
  "dimensionsRefused width height \<longleftrightarrow> width = 0 \<or> height = 0 \<or> width > kMaxDimension \<or> height > kMaxDimension \<or>
     ucast width * ucast height > kMaxPixels"

definition load :: "uint8 list option \<Rightarrow> RgbFrame \<Rightarrow> bool \<times> RgbFrame" where
  "load bytes f =
     (case bytes of
        None \<Rightarrow> (False, f)
      | Some bs \<Rightarrow>
     if length bs < kHeaderSize then (False, f)
     else let fmt = formatFromMagic bytes;
              width = readLe32 (drop 8 bs); height = readLe32 (drop 12 bs);
              payloadSize = readLe32 (drop 16 bs); sequence = readLe32 (drop 20 bs) in
       if fmt = kNone \<or> dimensionsRefused width height then (False, f)
       else let expected = expectedPayload fmt width height in
         if expected > ucast (- 1 :: uint32) \<or> ucast payloadSize \<noteq> expected \<or> length bs \<noteq> kHeaderSize + unat expected
         then (False, f)
         else (True, f\<lparr>format_of := fmt, width_of := width, height_of := height, sequence_of := sequence,
                pixels_of := drop kHeaderSize bs\<rparr>))"

text \<open>\<open>files\<close> gives the contents of a file that can be opened; a null path is \<open>None\<close>.\<close>

definition reloadIfChanged :: "(string \<Rightarrow> uint8 list option) \<Rightarrow> string option \<Rightarrow> RgbFrame \<Rightarrow> bool \<times> RgbFrame" where
  "reloadIfChanged files path f =
     (case path of
        None \<Rightarrow> (valid f, f)
      | Some path \<Rightarrow>
     case files path of
       None \<Rightarrow> (False, reset f)
     | Some content \<Rightarrow>
     let header = take kHeaderSize content;
         headerRead = (length header = kHeaderSize);
         fmt = (if headerRead then formatFromMagic (Some header) else kNone) in
     if \<not> headerRead \<or> fmt = kNone then (valid f, f)
     else let width = readLe32 (drop 8 header); height = readLe32 (drop 12 header);
              payloadSize = readLe32 (drop 16 header); sequence = readLe32 (drop 20 header) in
     if valid f \<and> fmt = format_of f \<and> width = width_of f \<and> height = height_of f \<and> sequence = sequence_of f then (True, f)
     else if dimensionsRefused width height \<or> expectedPayload fmt width height \<noteq> ucast payloadSize then (valid f, f)
     else let payload = take (unat payloadSize) (drop kHeaderSize content);
              payloadRead = (length payload = unat payloadSize);
              trailing = (length content > kHeaderSize + unat payloadSize) in
     if \<not> payloadRead \<or> trailing then (valid f, f)
     else case load (Some (header @ payload)) f of (ok, f') \<Rightarrow> (ok \<or> valid f', f'))"

definition logicalPoint :: "uint32 \<Rightarrow> uint32 \<Rightarrow> uint32 \<Rightarrow> uint32 \<Rightarrow> int \<Rightarrow> uint32 \<times> uint32 \<times> uint32 \<times> uint32" where
  "logicalPoint targetWidth targetHeight x y rotation =
     (if rotation = - 90 \<or> rotation = 270 then (targetHeight, targetWidth, targetHeight - 1 - y, x)
      else if rotation = 90 \<or> rotation = - 270 then (targetHeight, targetWidth, y, targetWidth - 1 - x)
      else if rotation = 180 \<or> rotation = - 180 then (targetWidth, targetHeight, targetWidth - 1 - x, targetHeight - 1 - y)
      else (targetWidth, targetHeight, x, y))"

text \<open>The point of the source that is sampled, before it is checked and truncated.\<close>

definition sampledPoint ::
  "Rounding \<Rightarrow> RgbFrame \<Rightarrow> uint32 \<Rightarrow> uint32 \<Rightarrow> uint32 \<Rightarrow> uint32 \<Rightarrow> RgbTransform \<Rightarrow> real \<times> real" where
  "sampledPoint ops f targetWidth targetHeight x y transform =
     (case logicalPoint targetWidth targetHeight x y (rotationDegrees transform) of
       (logicalWidth, logicalHeight, logicalX, logicalY) \<Rightarrow>
     let w = real (unat (width_of f)); h = real (unat (height_of f));
         lw = real (unat logicalWidth); lh = real (unat logicalHeight);
         wider = ((ucast (width_of f) :: uint64) * ucast logicalHeight > ucast logicalWidth * ucast (height_of f));
         cropWidth = (if wider then max 1 (rnd64 ops (rnd64 ops (h * lw) / lh)) else w);
         cropHeight = (if wider then h else max 1 (rnd64 ops (rnd64 ops (w * lh) / lw)));
         safeScale = max (rnd32 ops (1 / 10)) (min 8 (scale transform));
         cropWidth = max 1 (rnd64 ops (cropWidth / safeScale));
         cropHeight = max 1 (rnd64 ops (cropHeight / safeScale));
         cx = max 0 (min 1 (centerX transform)); cy = max 0 (min 1 (centerY transform));
         cropX = rnd64 ops (rnd32 ops (cx * rnd32 ops w) - rnd64 ops (cropWidth / 2));
         cropY = rnd64 ops (rnd32 ops (cy * rnd32 ops h) - rnd64 ops (cropHeight / 2));
         cropX = (if cropWidth \<le> w then max 0 (min cropX (rnd64 ops (w - cropWidth))) else cropX);
         cropY = (if cropHeight \<le> h then max 0 (min cropY (rnd64 ops (h - cropHeight))) else cropY);
         sampledX = rnd64 ops (cropX + rnd64 ops (rnd64 ops (real (unat logicalX) * cropWidth) / lw));
         sampledY = rnd64 ops (cropY + rnd64 ops (rnd64 ops (real (unat logicalY) * cropHeight) / lh))
     in (sampledX, sampledY))"

definition mapCoordinate ::
  "Rounding \<Rightarrow> RgbFrame \<Rightarrow> uint32 \<Rightarrow> uint32 \<Rightarrow> uint32 \<Rightarrow> uint32 \<Rightarrow> RgbTransform \<Rightarrow> (uint32 \<times> uint32) option" where
  "mapCoordinate ops f targetWidth targetHeight x y transform =
     (case sampledPoint ops f targetWidth targetHeight x y transform of (sampledX, sampledY) \<Rightarrow>
        if sampledX < 0 \<or> sampledY < 0 \<or> sampledX \<ge> real (unat (width_of f)) \<or> sampledY \<ge> real (unat (height_of f)) then None
        else Some (of_int \<lfloor>sampledX\<rfloor>, of_int \<lfloor>sampledY\<rfloor>))"

definition pixelAt :: "RgbFrame \<Rightarrow> uint64 \<Rightarrow> uint8 option" where
  "pixelAt f i = (if unat i < length (pixels_of f) then Some (pixels_of f ! unat i) else None)"

definition sampleYuv ::
  "Rounding \<Rightarrow> RgbFrame \<Rightarrow> uint32 \<Rightarrow> uint32 \<Rightarrow> uint32 \<Rightarrow> uint32 \<Rightarrow> RgbTransform \<Rightarrow> Yuv option" where
  "sampleYuv ops f targetWidth targetHeight x y transform =
     (case mapCoordinate ops f targetWidth targetHeight x y transform of
        None \<Rightarrow> Some (yuv 0 128 128)
      | Some (sourceX, sourceY) \<Rightarrow>
     let pixel = ucast sourceY * ucast (width_of f) + ucast sourceX in
     if format_of f = kI420 then
       (let ySize = ucast (width_of f) * ucast (height_of f);
            chromaWidth = ucast (width_of f div 2);
            chromaOffset = ucast (sourceY div 2) * chromaWidth + ucast (sourceX div 2) in
        case (pixelAt f pixel, pixelAt f (ySize + chromaOffset), pixelAt f (ySize + ySize div 4 + chromaOffset)) of
          (Some a, Some b, Some c) \<Rightarrow> Some (yuv a b c) | _ \<Rightarrow> None)
     else
       (let offset = pixel * 3 in
        case (pixelAt f offset, pixelAt f (offset + 1), pixelAt f (offset + 2)) of
          (Some r, Some g, Some b) \<Rightarrow>
            Some (yuv (clamp (16 + (66 * channel r + 129 * channel g + 25 * channel b + 128) div 256))
              (clamp (128 + (- 38 * channel r - 74 * channel g + 112 * channel b + 128) div 256))
              (clamp (128 + (112 * channel r - 94 * channel g - 18 * channel b + 128) div 256)))
        | _ \<Rightarrow> None))"

definition toRgb :: "Yuv \<Rightarrow> Rgb" where
  "toRgb v =
     (let y = max 0 (channel (y_sample v) - 16); cb = channel (cb_sample v) - 128; cr = channel (cr_sample v) - 128 in
      rgb (clamp ((298 * y + 409 * cr + 128) div 256)) (clamp ((298 * y - 100 * cb - 208 * cr + 128) div 256))
        (clamp ((298 * y + 516 * cb + 128) div 256)))"

definition sampleRgb ::
  "Rounding \<Rightarrow> RgbFrame \<Rightarrow> uint32 \<Rightarrow> uint32 \<Rightarrow> uint32 \<Rightarrow> uint32 \<Rightarrow> RgbTransform \<Rightarrow> Rgb option" where
  "sampleRgb ops f targetWidth targetHeight x y transform =
     (if format_of f = kI420 then map_option toRgb (sampleYuv ops f targetWidth targetHeight x y transform)
      else case mapCoordinate ops f targetWidth targetHeight x y transform of
        None \<Rightarrow> Some (rgb 0 0 0)
      | Some (sourceX, sourceY) \<Rightarrow>
          (let offset = (ucast sourceY * ucast (width_of f) + ucast sourceX) * 3 in
           case (pixelAt f offset, pixelAt f (offset + 1), pixelAt f (offset + 2)) of
             (Some r, Some g, Some b) \<Rightarrow> Some (rgb r g b) | _ \<Rightarrow> None))"

text \<open>The whole fill is \<open>None\<close> when one of its samples reads outside the frame.\<close>

definition frameFillYuv420 ::
  "Rounding \<Rightarrow> RgbFrame \<Rightarrow> uint32 \<Rightarrow> uint32 \<Rightarrow> Yuv420Layout \<Rightarrow> RgbTransform \<Rightarrow> image_memory \<Rightarrow>
   (bool \<times> image_memory) option" where
  "frameFillYuv420 ops f width height layout transform mem =
     (if \<not> valid f \<or> layout_refused width height layout then Some (False, mem)
      else let sample = (\<lambda>x y. sampleYuv ops f width height (of_nat x) (of_nat y) transform) in
        if list_all (\<lambda>y. list_all (\<lambda>x. sample x y \<noteq> None) [0..<unat width]) [0..<unat height] then
          Some (True, store_all (luma_stores layout (unat width) (unat height) (\<lambda>x y. y_sample (the (sample x y))) @
            chroma_stores layout (unat width) (unat height) (\<lambda>x y. cb_sample (the (sample (x * 2) (y * 2))))
              (\<lambda>x y. cr_sample (the (sample (x * 2) (y * 2))))) mem)
        else None)"

definition frameFillRgbRow ::
  "Rounding \<Rightarrow> RgbFrame \<Rightarrow> uint32 \<Rightarrow> uint32 \<Rightarrow> uint32 \<Rightarrow> uint64 \<Rightarrow> RgbTransform \<Rightarrow> image_memory \<Rightarrow>
   (bool \<times> image_memory) option" where
  "frameFillRgbRow ops f width height row p transform mem =
     (if \<not> valid f \<or> width = 0 \<or> height = 0 \<or> row \<ge> height \<or> p = 0 then Some (False, mem)
      else let sample = (\<lambda>x. sampleRgb ops f width height (of_nat x) row transform) in
        if list_all (\<lambda>x. sample x \<noteq> None) [0..<unat width] then
          Some (True, store_all (rgb_stores p (unat width) (\<lambda>x. the (sample x))) mem)
        else None)"

section \<open>The renderer\<close>

record FrameRenderer =
  sourceFrame :: RgbFrame
  sourcePath :: string

definition newRenderer :: FrameRenderer where
  "newRenderer = \<lparr>sourceFrame = emptyFrame, sourcePath = ''/data/vendor/camera/vcam/source.rgb''\<rparr>"

definition setSourcePath :: "string \<Rightarrow> FrameRenderer \<Rightarrow> FrameRenderer" where
  "setSourcePath path r = r\<lparr>sourcePath := path, sourceFrame := emptyFrame\<rparr>"

definition reload :: "(string \<Rightarrow> uint8 list option) \<Rightarrow> FrameRenderer \<Rightarrow> bool \<times> FrameRenderer" where
  "reload files r =
     (case reloadIfChanged files (Some (cstr (sourcePath r))) (sourceFrame r) of (ok, f) \<Rightarrow> (ok, r\<lparr>sourceFrame := f\<rparr>))"

definition loadFrame :: "uint8 list option \<Rightarrow> FrameRenderer \<Rightarrow> bool \<times> FrameRenderer" where
  "loadFrame bytes r = (case load bytes (sourceFrame r) of (ok, f) \<Rightarrow> (ok, r\<lparr>sourceFrame := f\<rparr>))"

definition rendererFillYuv420 ::
  "Rounding \<Rightarrow> FrameRenderer \<Rightarrow> uint32 \<Rightarrow> uint32 \<Rightarrow> Yuv420Layout \<Rightarrow> uint64 \<Rightarrow> int \<Rightarrow> RgbTransform \<Rightarrow> image_memory \<Rightarrow>
   (bool \<times> image_memory) option" where
  "rendererFillYuv420 ops r width height layout frameNumber cameraId transform mem =
     (if valid (sourceFrame r) then frameFillYuv420 ops (sourceFrame r) width height layout transform mem
      else Some (fillYuv420 width height frameNumber cameraId layout mem))"

definition rendererFillRgbRow ::
  "Rounding \<Rightarrow> FrameRenderer \<Rightarrow> uint32 \<Rightarrow> uint32 \<Rightarrow> uint32 \<Rightarrow> uint64 \<Rightarrow> uint64 \<Rightarrow> int \<Rightarrow> RgbTransform \<Rightarrow> image_memory \<Rightarrow>
   (bool \<times> image_memory) option" where
  "rendererFillRgbRow ops r width height row p frameNumber cameraId transform mem =
     (if valid (sourceFrame r) then frameFillRgbRow ops (sourceFrame r) width height row p transform mem
      else Some (True, fillRgbRow width height row frameNumber cameraId p mem))"

section \<open>Well-formed frames\<close>

definition frame_wf :: "RgbFrame \<Rightarrow> bool" where
  "frame_wf f \<longleftrightarrow> pixels_of f = [] \<or>
     format_of f \<noteq> kNone \<and> \<not> dimensionsRefused (width_of f) (height_of f) \<and>
     length (pixels_of f) = unat (expectedPayload (format_of f) (width_of f) (height_of f))"

lemma emptyFrame_wf: "frame_wf emptyFrame" "frame_wf (reset f)"
  by (simp_all add: frame_wf_def emptyFrame_def reset_def)

definition header_fields :: "uint8 list \<Rightarrow> PixelFormat \<times> uint32 \<times> uint32 \<times> uint32 \<times> uint32" where
  "header_fields bs = (formatFromMagic (Some bs), readLe32 (drop 8 bs), readLe32 (drop 12 bs), readLe32 (drop 16 bs), readLe32 (drop 20 bs))"

definition load_accepts :: "uint8 list \<Rightarrow> bool" where
  "load_accepts bs \<longleftrightarrow> (case header_fields bs of (fmt, width, height, payloadSize, _) \<Rightarrow>
     kHeaderSize \<le> length bs \<and> fmt \<noteq> kNone \<and> \<not> dimensionsRefused width height \<and>
     \<not> expectedPayload fmt width height > ucast (- 1 :: uint32) \<and> ucast payloadSize = expectedPayload fmt width height \<and>
     length bs = kHeaderSize + unat (expectedPayload fmt width height))"

definition loaded_frame :: "uint8 list \<Rightarrow> RgbFrame" where
  "loaded_frame bs = (case header_fields bs of (fmt, width, height, _, sequence) \<Rightarrow>
     \<lparr>format_of = fmt, width_of = width, height_of = height, sequence_of = sequence, pixels_of = drop kHeaderSize bs\<rparr>)"

lemma load_eq: "load (Some bs) f = (if load_accepts bs then (True, loaded_frame bs) else (False, f))"
  unfolding load_def option.case Let_def load_accepts_def loaded_frame_def header_fields_def prod.case not_less de_Morgan_disj
  by (cases f; cases "length bs < kHeaderSize") (auto simp only: not_less if_True if_False simp_thms RgbFrame.update_convs
      de_Morgan_disj not_not split: if_split)

lemma loaded_wf: "load_accepts bs \<Longrightarrow> frame_wf (loaded_frame bs)"
  unfolding load_accepts_def loaded_frame_def frame_wf_def header_fields_def prod.case RgbFrame.select_convs
  by (simp only: length_drop diff_add_inverse simp_thms)

lemma load_wf: "frame_wf f \<Longrightarrow> frame_wf (snd (load bytes f))"
  using loaded_wf by (cases bytes) (simp_all add: load_eq load_def [of None])

lemma reloadIfChanged_wf:
  assumes "frame_wf f"
  shows "frame_wf (snd (reloadIfChanged files path f))"
proof (cases path)
  case None
  then show ?thesis using assms by (simp add: reloadIfChanged_def)
next
  case (Some p)
  show ?thesis
  proof (cases "files p")
    case None
    then show ?thesis using Some by (simp add: reloadIfChanged_def emptyFrame_wf)
  next
    case (Some content)
    then show ?thesis
      using \<open>path = Some p\<close> assms load_wf [OF assms] by (simp add: reloadIfChanged_def Let_def case_prod_unfold)
  qed
qed

lemma word_even: "w AND 1 = 0 \<Longrightarrow> even (unat w)" for w :: uint32
proof -
  assume "w AND 1 = 0"
  then have "unat (w mod 2) = 0" by (simp add: and_one_eq)
  then show ?thesis unfolding unat_mod by (simp add: even_iff_mod_2_eq_zero)
qed

text \<open>The dimensions of a frame with pixels, as numbers.\<close>

lemma frame_dimensions:
  assumes "frame_wf f" "valid f"
  shows "unat (width_of f) \<le> 4096" "unat (height_of f) \<le> 4096" "0 < unat (width_of f)" "0 < unat (height_of f)"
    "format_of f = kRgb888 \<Longrightarrow> length (pixels_of f) = unat (width_of f) * unat (height_of f) * 3"
    "format_of f = kI420 \<Longrightarrow> length (pixels_of f) =
       unat (width_of f) * unat (height_of f) + unat (width_of f) * unat (height_of f) div 2 \<and>
       even (unat (width_of f)) \<and> even (unat (height_of f))"
    "format_of f \<noteq> kNone"
proof -
  let ?w = "unat (width_of f)" and ?h = "unat (height_of f)"
  have wf: "format_of f \<noteq> kNone" "\<not> dimensionsRefused (width_of f) (height_of f)" "pixels_of f \<noteq> []"
    "length (pixels_of f) = unat (expectedPayload (format_of f) (width_of f) (height_of f))"
    using assms by (auto simp: frame_wf_def valid_def)
  show d: "?w \<le> 4096" "?h \<le> 4096" "0 < ?w" "0 < ?h"
    using wf(2) by (auto simp: dimensionsRefused_def kMaxDimension_def not_less word_le_nat_alt unat_gt_0)
  show "format_of f \<noteq> kNone" by (rule wf(1))
  have "?w * ?h \<le> 4096 * 4096" using d by (intro mult_mono) simp_all
  then have small: "?w * ?h \<le> 16777216" by simp
  have prod: "(ucast (width_of f) * ucast (height_of f) :: uint64) = of_nat (?w * ?h)" by simp
  have up: "unat (of_nat n :: uint64) = n" if "n \<le> 50331648" for n
    using that by (intro of_nat_inverse [OF refl]) simp
  show "length (pixels_of f) = ?w * ?h * 3" if "format_of f = kRgb888"
  proof -
    have "expectedPayload (format_of f) (width_of f) (height_of f) = of_nat (?w * ?h * 3)"
      using that by (simp add: expectedPayload_def Let_def)
    moreover have "unat (of_nat (?w * ?h * 3) :: uint64) = ?w * ?h * 3" by (rule up) (use small in linarith)
    ultimately show ?thesis using wf(4) by (simp only:)
  qed
  show "length (pixels_of f) = ?w * ?h + ?w * ?h div 2 \<and> even ?w \<and> even ?h" if "format_of f = kI420"
  proof -
    have e: "width_of f AND 1 = 0" "height_of f AND 1 = 0"
      using wf(3,4) that by (auto simp: expectedPayload_def Let_def split: if_splits)
    have half: "unat (of_nat (?w * ?h) div 2 :: uint64) = ?w * ?h div 2"
      using up [of "?w * ?h"] small unfolding unat_div by simp
    have "(of_nat (?w * ?h) + of_nat (?w * ?h) div 2 :: uint64) = of_nat (?w * ?h + ?w * ?h div 2)"
      unfolding of_nat_add half [symmetric] by simp
    then have "expectedPayload (format_of f) (width_of f) (height_of f) = of_nat (?w * ?h + ?w * ?h div 2)"
      using that e unfolding expectedPayload_def Let_def prod by simp
    moreover have "unat (of_nat (?w * ?h + ?w * ?h div 2) :: uint64) = ?w * ?h + ?w * ?h div 2"
      by (rule up) (use small in linarith)
    ultimately show ?thesis using wf(4) word_even [OF e(1)] word_even [OF e(2)] by (simp only:)
  qed
qed

section \<open>Sampling stays inside the frame\<close>

lemma floor_word:
  fixes w :: uint32
  assumes "0 \<le> v" "v < real (unat w)"
  shows "unat (of_int \<lfloor>v\<rfloor> :: uint32) < unat w"
proof -
  have f: "0 \<le> \<lfloor>v\<rfloor>" "\<lfloor>v\<rfloor> < int (unat w)" using assms by (simp_all add: floor_less_iff)
  have "unat (of_int \<lfloor>v\<rfloor> :: uint32) = nat \<lfloor>v\<rfloor>"
  proof (rule of_nat_inverse)
    show "word_of_nat (nat \<lfloor>v\<rfloor>) = (of_int \<lfloor>v\<rfloor> :: uint32)" using f(1) by (simp add: of_nat_nat)
    have "nat \<lfloor>v\<rfloor> < unat w" using f by (simp only: nat_less_iff)
    then show "nat \<lfloor>v\<rfloor> < 2 ^ LENGTH(32)" using unsigned_less [of w] by (rule less_trans)
  qed
  then show ?thesis using f by (simp only: nat_less_iff)
qed

lemma mapCoordinate_inside:
  assumes "mapCoordinate ops f targetWidth targetHeight x y transform = Some (sourceX, sourceY)"
  shows "unat sourceX < unat (width_of f)" "unat sourceY < unat (height_of f)"
proof -
  obtain u v where p: "sampledPoint ops f targetWidth targetHeight x y transform = (u, v)"
    by (cases "sampledPoint ops f targetWidth targetHeight x y transform")
  have "0 \<le> u" "u < real (unat (width_of f))" "0 \<le> v" "v < real (unat (height_of f))"
    and "sourceX = of_int \<lfloor>u\<rfloor>" "sourceY = of_int \<lfloor>v\<rfloor>"
    using assms unfolding mapCoordinate_def p prod.case by (auto split: if_split_asm)
  then show "unat sourceX < unat (width_of f)" "unat sourceY < unat (height_of f)"
    using floor_word by blast+
qed

lemma pixelAt_inside: "n < length (pixels_of f) \<Longrightarrow> length (pixels_of f) < 2 ^ 64 \<Longrightarrow> pixelAt f (of_nat n) \<noteq> None"
  using of_nat_inverse [OF refl, where ?'a = 64, of n] by (simp add: pixelAt_def)

lemma pixel_index: "sx < w \<Longrightarrow> sy < h \<Longrightarrow> sy * w + sx < w * h" for sx sy w h :: nat
proof -
  assume a: "sx < w" "sy < h"
  have "sy * w + sx < (sy + 1) * w" using a(1) by simp
  also have "\<dots> \<le> h * w" using a(2) by (intro mult_right_mono) simp_all
  finally show ?thesis by (simp add: mult.commute)
qed

lemma frame_small:
  assumes "frame_wf f" "valid f"
  shows "length (pixels_of f) < 2 ^ 64"
proof -
  note d = frame_dimensions [OF assms]
  have "unat (width_of f) * unat (height_of f) \<le> 4096 * 4096" using d by (intro mult_mono) simp_all
  then show ?thesis using d(5-7) by (cases "format_of f") simp_all
qed

lemma rgb_offsets:
  fixes sx sy :: uint32
  assumes "frame_wf f" "valid f" "format_of f = kRgb888" "unat sx < unat (width_of f)" "unat sy < unat (height_of f)"
  shows "pixelAt f ((ucast sy * ucast (width_of f) + ucast sx) * 3) \<noteq> None"
    "pixelAt f ((ucast sy * ucast (width_of f) + ucast sx) * 3 + 1) \<noteq> None"
    "pixelAt f ((ucast sy * ucast (width_of f) + ucast sx) * 3 + 2) \<noteq> None"
proof -
  let ?n = "(unat sy * unat (width_of f) + unat sx) * 3"
  have idx: "(ucast sy * ucast (width_of f) + ucast sx) * 3 = (of_nat ?n :: uint64)" by simp
  have "?n + 2 < length (pixels_of f)"
    using pixel_index [OF assms(4,5)] frame_dimensions(5) [OF assms(1,2,3)] by simp
  then have "pixelAt f (of_nat ?n) \<noteq> None" "pixelAt f (of_nat (?n + 1)) \<noteq> None" "pixelAt f (of_nat (?n + 2)) \<noteq> None"
    by (intro pixelAt_inside frame_small assms(1,2); linarith)+
  then show "pixelAt f ((ucast sy * ucast (width_of f) + ucast sx) * 3) \<noteq> None"
    "pixelAt f ((ucast sy * ucast (width_of f) + ucast sx) * 3 + 1) \<noteq> None"
    "pixelAt f ((ucast sy * ucast (width_of f) + ucast sx) * 3 + 2) \<noteq> None"
    unfolding idx by (simp_all only: of_nat_add of_nat_1 of_nat_numeral simp_thms)
qed

lemma ucast_half: "(ucast (x div 2 :: uint32) :: uint64) = of_nat (unat x div 2)"
proof -
  have "unat (x div 2) = unat x div 2" unfolding unat_div by simp
  moreover have "(ucast (x div 2) :: uint64) = of_nat (unat (x div 2))" by simp
  ultimately show ?thesis by (simp only:)
qed

lemma i420_offsets:
  fixes sx sy :: uint32
  assumes "frame_wf f" "valid f" "format_of f = kI420" "unat sx < unat (width_of f)" "unat sy < unat (height_of f)"
  defines "ySize \<equiv> ucast (width_of f) * ucast (height_of f) :: uint64"
    and "chromaOffset \<equiv> ucast (sy div 2) * ucast (width_of f div 2) + ucast (sx div 2) :: uint64"
  shows "pixelAt f (ucast sy * ucast (width_of f) + ucast sx) \<noteq> None"
    "pixelAt f (ySize + chromaOffset) \<noteq> None" "pixelAt f (ySize + ySize div 4 + chromaOffset) \<noteq> None"
proof -
  let ?w = "unat (width_of f)" and ?h = "unat (height_of f)" and ?sx = "unat sx" and ?sy = "unat sy"
  note d = frame_dimensions [OF assms(1,2)]
  note inside = pixelAt_inside [OF _ frame_small [OF assms(1,2)]]
  have len: "length (pixels_of f) = ?w * ?h + ?w * ?h div 2" and ev: "even ?w" "even ?h" using d(6) [OF assms(3)] by simp_all
  obtain a b where ab: "?w = 2 * a" "?h = 2 * b" using ev by (auto elim!: evenE)
  have "?w * ?h \<le> 4096 * 4096" using d by (intro mult_mono) simp_all
  then have small: "a * b \<le> 4194304" by (simp add: ab)
  have c: "?sy div 2 * a + ?sx div 2 < a * b" using assms(4,5) ab by (intro pixel_index) linarith+
  have i1: "(ucast sy * ucast (width_of f) + ucast sx :: uint64) = of_nat (?sy * ?w + ?sx)" by simp
  have "?w * ?h = 4 * (a * b)" unfolding ab by simp
  moreover have "ySize = of_nat (?w * ?h)" by (simp add: ySize_def)
  ultimately have ys: "ySize = of_nat (4 * (a * b))" by (simp only:)
  have "?w div 2 = a" unfolding ab by simp
  then have co: "chromaOffset = of_nat (?sy div 2 * a + ?sx div 2)"
    unfolding chromaOffset_def ucast_half by (simp only: of_nat_add of_nat_mult)
  have "unat ySize = 4 * (a * b)" unfolding ys by (rule of_nat_inverse [OF refl]) (use small in simp)
  then have "unat (ySize div 4) = a * b" unfolding unat_div by simp
  moreover have "of_nat (unat (ySize div 4)) = ySize div 4" by simp
  ultimately have quarter: "ySize div 4 = of_nat (a * b)" by (simp only:)
  have len4: "length (pixels_of f) = 6 * (a * b)" unfolding len \<open>?w * ?h = 4 * (a * b)\<close> by simp
  show "pixelAt f (ucast sy * ucast (width_of f) + ucast sx) \<noteq> None"
    unfolding i1 by (rule inside) (use pixel_index [OF assms(4,5)] len in linarith)
  have "ySize + chromaOffset = of_nat (4 * (a * b) + (?sy div 2 * a + ?sx div 2))"
    unfolding ys co by (simp only: of_nat_add)
  moreover have "pixelAt f (of_nat (4 * (a * b) + (?sy div 2 * a + ?sx div 2))) \<noteq> None"
    by (rule inside) (use c len4 in linarith)
  ultimately show "pixelAt f (ySize + chromaOffset) \<noteq> None" by (simp only: simp_thms)
  have "ySize + ySize div 4 + chromaOffset = of_nat (4 * (a * b) + a * b + (?sy div 2 * a + ?sx div 2))"
    unfolding quarter unfolding ys co by (simp only: of_nat_add)
  moreover have "pixelAt f (of_nat (4 * (a * b) + a * b + (?sy div 2 * a + ?sx div 2))) \<noteq> None"
    by (rule inside) (use c len4 in linarith)
  ultimately show "pixelAt f (ySize + ySize div 4 + chromaOffset) \<noteq> None" by (simp only: simp_thms)
qed

lemma sampleYuv_inside:
  assumes "frame_wf f" "valid f"
  shows "sampleYuv ops f targetWidth targetHeight x y transform \<noteq> None"
proof (cases "mapCoordinate ops f targetWidth targetHeight x y transform")
  case None
  then show ?thesis by (simp add: sampleYuv_def)
next
  case (Some p)
  then obtain sx sy where c: "mapCoordinate ops f targetWidth targetHeight x y transform = Some (sx, sy)" by (cases p) simp
  note i = mapCoordinate_inside [OF c]
  show ?thesis
  proof (cases "format_of f = kI420")
    case True
    from i420_offsets [OF assms True i] show ?thesis using True c by (auto simp: sampleYuv_def Let_def)
  next
    case False
    then have "format_of f = kRgb888" using frame_dimensions(7) [OF assms] by (cases "format_of f") simp_all
    from rgb_offsets [OF assms this i] show ?thesis using False c by (auto simp: sampleYuv_def Let_def)
  qed
qed

lemma sampleRgb_inside:
  assumes "frame_wf f" "valid f"
  shows "sampleRgb ops f targetWidth targetHeight x y transform \<noteq> None"
proof (cases "format_of f = kI420")
  case True
  then show ?thesis using sampleYuv_inside [OF assms] by (simp add: sampleRgb_def)
next
  case False
  then have fmt: "format_of f = kRgb888" using frame_dimensions(7) [OF assms] by (cases "format_of f") simp_all
  show ?thesis
  proof (cases "mapCoordinate ops f targetWidth targetHeight x y transform")
    case None
    then show ?thesis using False by (simp add: sampleRgb_def)
  next
    case (Some p)
    then obtain sx sy where c: "mapCoordinate ops f targetWidth targetHeight x y transform = Some (sx, sy)" by (cases p) simp
    from rgb_offsets [OF assms fmt mapCoordinate_inside [OF c]] show ?thesis using False c by (auto simp: sampleRgb_def Let_def)
  qed
qed

text \<open>The operations of a renderer, as the sequence of calls its owner makes.\<close>

datatype renderer_call = SetPath string | Reload | Load "uint8 list option"

fun renderer_step :: "(string \<Rightarrow> uint8 list option) \<Rightarrow> renderer_call \<Rightarrow> FrameRenderer \<Rightarrow> FrameRenderer" where
  "renderer_step files (SetPath p) r = setSourcePath p r"
| "renderer_step files Reload r = snd (reload files r)"
| "renderer_step files (Load bs) r = snd (loadFrame bs r)"

lemma renderer_step_wf: "frame_wf (sourceFrame r) \<Longrightarrow> frame_wf (sourceFrame (renderer_step files c r))"
  by (cases c) (simp_all add: setSourcePath_def reload_def loadFrame_def emptyFrame_wf load_wf reloadIfChanged_wf case_prod_unfold)

lemma renderer_run_wf: "frame_wf (sourceFrame r) \<Longrightarrow> frame_wf (sourceFrame (fold (renderer_step files) calls r))"
  by (induction calls arbitrary: r) (simp_all add: renderer_step_wf)

section \<open>Properties\<close>

text \<open>
  C32. Whatever source paths are set, files reloaded and buffers loaded, the frame of a
  renderer is well formed: it is empty, or it has a known format, dimensions within the
  limits and exactly the number of bytes its format and dimensions require.
\<close>
theorem renderer_frame_well_formed:
  "frame_wf (sourceFrame (fold (renderer_step files) calls newRenderer))"
  by (rule renderer_run_wf) (simp add: newRenderer_def emptyFrame_wf)

text \<open>
  C31. Rendering never reads outside the pixels of the frame, for any target size, rotation,
  scale and center, and for any rounding of the floating-point operations: after any history
  of the renderer both fills return, and the row fill succeeds for every row inside the image.
\<close>
theorem rendering_reads_inside_frame:
  "let r = fold (renderer_step files) calls newRenderer in
   rendererFillYuv420 ops r width height layout frameNumber cameraId transform mem \<noteq> None \<and>
   rendererFillRgbRow ops r width height row p frameNumber cameraId transform mem \<noteq> None \<and>
   (0 < width \<and> 0 < height \<and> row < height \<and> p \<noteq> 0 \<longrightarrow>
    map_option fst (rendererFillRgbRow ops r width height row p frameNumber cameraId transform mem) = Some True)"
proof -
  define r where "r = fold (renderer_step files) calls newRenderer"
  have wf: "frame_wf (sourceFrame r)" unfolding r_def by (rule renderer_run_wf) (simp add: newRenderer_def emptyFrame_wf)
  show ?thesis
  proof (cases "valid (sourceFrame r)")
    case True
    show ?thesis
      unfolding Let_def r_def [symmetric] using True sampleYuv_inside [OF wf True] sampleRgb_inside [OF wf True]
      by (auto simp: rendererFillYuv420_def rendererFillRgbRow_def frameFillYuv420_def frameFillRgbRow_def Let_def list_all_iff)
  next
    case False
    then show ?thesis unfolding Let_def r_def [symmetric] by (simp add: rendererFillYuv420_def rendererFillRgbRow_def)
  qed
qed

text \<open>A frame of one red pixel.\<close>

definition redFrame :: "uint8 list" where
  "redFrame = kRgbMagic @ [1, 0, 0, 0, 1, 0, 0, 0, 3, 0, 0, 0, 7, 0, 0, 0, 255, 0, 0]"

lemma ucast_max32: "ucast (- 1 :: uint32) = (0xFFFFFFFF :: uint64)"
  by code_simp

lemma redFrame_accepted: "load_accepts redFrame" "valid (loaded_frame redFrame)"
  by (simp_all add: ucast_max32 load_accepts_def loaded_frame_def header_fields_def redFrame_def kHeaderSize_def kRgbMagic_def kYuvMagic_def
      formatFromMagic_def readLe32_def dimensionsRefused_def kMaxDimension_def kMaxPixels_def expectedPayload_def valid_def)

theorem rendering_reads_inside_frame_witness:
  "let r = fold (renderer_step (\<lambda>_. None)) [Load (Some redFrame)] newRenderer in
   valid (sourceFrame r) \<and>
   map_option fst (rendererFillRgbRow \<lparr>rnd32 = \<lambda>x. x, rnd64 = \<lambda>x. x\<rparr> r 2 2 1 0x1000 0 0
     \<lparr>rotationDegrees = 0, scale = 1, centerX = 1 / 2, centerY = 1 / 2\<rparr> (\<lambda>_. 0)) = Some True"
  using rendering_reads_inside_frame [where files = "\<lambda>_. None" and calls = "[Load (Some redFrame)]"
      and width = 2 and height = 2 and row = 1 and p = "0x1000"]
  by (simp add: Let_def loadFrame_def load_eq redFrame_accepted)

end
