(* ===== verification/Passthrough_Bridge.thy ===== *)
theory Passthrough_Bridge
  imports Vcam_Prelude
begin

text \<open>
  The pass-through bridge of \<open>src/runtime/BinderPassThroughBridge.cpp\<close>, the function that
  replaces \<open>CameraService::onTransact\<close>.  A pointer is an element of an arbitrary type; the
  functions behind the pointers act on an arbitrary environment.  Besides the sequential
  operations the theory has the atomic accesses of \<open>bindObserverOnce\<close> as steps of concurrent
  threads.
\<close>

section \<open>Definitions\<close>

type_synonym ('v, 'e) CameraServiceOnTransact = "'v \<Rightarrow> uint32 \<Rightarrow> 'v \<Rightarrow> 'v \<Rightarrow> uint32 \<Rightarrow> 'e \<Rightarrow> int \<times> 'e"
type_synonym ('v, 'e) BinderTransactionObserver = "uint32 \<Rightarrow> 'v \<Rightarrow> 'v \<Rightarrow> 'e \<Rightarrow> 'e"

record ('v, 'e) BinderPassThroughBridge =
  original :: "('v, 'e) CameraServiceOnTransact option"
  observerBindingStarted :: bool
  observer :: "('v, 'e) BinderTransactionObserver option"
  observerContext :: 'v

definition newBridge :: "'v \<Rightarrow> ('v, 'e) BinderPassThroughBridge" where
  "newBridge nullPointer = \<lparr>original = None, observerBindingStarted = False, observer = None,
     observerContext = nullPointer\<rparr>"

definition kOriginalNotBound :: int where
  "kOriginalNotBound = - 38"

definition bindOnce ::
  "('v, 'e) CameraServiceOnTransact option \<Rightarrow> ('v, 'e) BinderPassThroughBridge \<Rightarrow> bool \<times> ('v, 'e) BinderPassThroughBridge" where
  "bindOnce newOriginal b =
     (if newOriginal = None then (False, b)
      else if original b = None then (True, b\<lparr>original := newOriginal\<rparr>)
      else (False, b))"

definition isBound :: "('v, 'e) BinderPassThroughBridge \<Rightarrow> bool" where
  "isBound b \<longleftrightarrow> original b \<noteq> None"

definition bindObserverOnce ::
  "('v, 'e) BinderTransactionObserver option \<Rightarrow> 'v \<Rightarrow> ('v, 'e) BinderPassThroughBridge \<Rightarrow>
   bool \<times> ('v, 'e) BinderPassThroughBridge" where
  "bindObserverOnce newObserver context b =
     (if newObserver = None then (False, b)
      else if observerBindingStarted b then (False, b)
      else (True, b\<lparr>observerBindingStarted := True, observerContext := context, observer := newObserver\<rparr>))"

definition hasObserver :: "('v, 'e) BinderPassThroughBridge \<Rightarrow> bool" where
  "hasObserver b \<longleftrightarrow> observer b \<noteq> None"

definition invoke ::
  "('v, 'e) BinderPassThroughBridge \<Rightarrow> 'v \<Rightarrow> uint32 \<Rightarrow> 'v \<Rightarrow> 'v \<Rightarrow> uint32 \<Rightarrow> 'e \<Rightarrow> int \<times> 'e" where
  "invoke b service txnCode dataParcel replyParcel flags e =
     (case original b of
        None \<Rightarrow> (kOriginalNotBound, e)
      | Some f \<Rightarrow>
          (let e1 = (case observer b of None \<Rightarrow> e | Some obs \<Rightarrow> obs txnCode dataParcel (observerContext b) e)
           in f service txnCode dataParcel replyParcel flags e1))"

text \<open>The global bridge is bound through these two functions.\<close>

definition bindGlobalBinderPassThroughOriginal ::
  "('v, 'e) CameraServiceOnTransact option \<Rightarrow> ('v, 'e) BinderPassThroughBridge \<Rightarrow> bool \<times> ('v, 'e) BinderPassThroughBridge" where
  "bindGlobalBinderPassThroughOriginal = bindOnce"

definition bindGlobalBinderShadowObserver ::
  "('v, 'e) BinderTransactionObserver option \<Rightarrow> 'v \<Rightarrow> ('v, 'e) BinderPassThroughBridge \<Rightarrow>
   bool \<times> ('v, 'e) BinderPassThroughBridge" where
  "bindGlobalBinderShadowObserver = bindObserverOnce"

text \<open>A sequence of attempts on a one-shot slot, with the answer to each of them.\<close>

fun bind_all :: "('x option \<Rightarrow> 's \<Rightarrow> bool \<times> 's) \<Rightarrow> 'x option list \<Rightarrow> 's \<Rightarrow> bool list \<times> 's" where
  "bind_all bind [] s = ([], s)"
| "bind_all bind (x # xs) s =
     (case bind x s of (r, s') \<Rightarrow> case bind_all bind xs s' of (rs, s'') \<Rightarrow> (r # rs, s''))"

section \<open>Concurrent binders\<close>

text \<open>
  Each thread wants to bind its own observer and context; its program counter stands before
  or after the accesses of \<open>bindObserverOnce\<close>.
\<close>

datatype binder_pc = Idle | Claimed | ContextStored | Published | Refused

inductive bind_step ::
  "('t \<Rightarrow> ('v, 'e) BinderTransactionObserver \<times> 'v) \<Rightarrow> ('v, 'e) BinderPassThroughBridge \<times> ('t \<Rightarrow> binder_pc) \<Rightarrow>
   ('v, 'e) BinderPassThroughBridge \<times> ('t \<Rightarrow> binder_pc) \<Rightarrow> bool"
  for req where
  claim: "pc t = Idle \<Longrightarrow> \<not> observerBindingStarted b \<Longrightarrow>
    bind_step req (b, pc) (b\<lparr>observerBindingStarted := True\<rparr>, pc(t := Claimed))"
| refuse: "pc t = Idle \<Longrightarrow> observerBindingStarted b \<Longrightarrow> bind_step req (b, pc) (b, pc(t := Refused))"
| store: "pc t = Claimed \<Longrightarrow>
    bind_step req (b, pc) (b\<lparr>observerContext := snd (req t)\<rparr>, pc(t := ContextStored))"
| publish: "pc t = ContextStored \<Longrightarrow>
    bind_step req (b, pc) (b\<lparr>observer := Some (fst (req t))\<rparr>, pc(t := Published))"
| bind_original: "original b = None \<Longrightarrow> bind_step req (b, pc) (b\<lparr>original := Some f\<rparr>, pc)"

inductive bind_reachable ::
  "('t \<Rightarrow> ('v, 'e) BinderTransactionObserver \<times> 'v) \<Rightarrow> 'v \<Rightarrow> ('v, 'e) BinderPassThroughBridge \<times> ('t \<Rightarrow> binder_pc) \<Rightarrow> bool"
  for req nullPointer where
  start: "bind_reachable req nullPointer (newBridge nullPointer, \<lambda>_. Idle)"
| step: "bind_reachable req nullPointer s \<Longrightarrow> bind_step req s s' \<Longrightarrow> bind_reachable req nullPointer s'"

inductive_cases bind_stepE: "bind_step req s s'"

section \<open>Binding once\<close>

text \<open>The contract of the one-shot slots: the first valid value wins and is never replaced.\<close>

locale one_shot =
  fixes bind :: "'x option \<Rightarrow> 's \<Rightarrow> bool \<times> 's"
    and slot :: "'s \<Rightarrow> 'x option"
    and ready :: "'s \<Rightarrow> bool"
  assumes bind_null: "ready s \<Longrightarrow> bind None s = (False, s)"
    and bind_first: "ready s \<Longrightarrow> slot s = None \<Longrightarrow>
      fst (bind (Some x) s) \<and> slot (snd (bind (Some x) s)) = Some x \<and> ready (snd (bind (Some x) s))"
    and bind_again: "ready s \<Longrightarrow> slot s \<noteq> None \<Longrightarrow> bind (Some x) s = (False, s)"
begin

lemma bind_all_bound:
  "ready s \<Longrightarrow> slot s \<noteq> None \<Longrightarrow> bind_all bind xs s = (replicate (length xs) False, s)"
proof (induction xs)
  case (Cons x xs)
  then show ?case
    by (cases x) (simp_all add: bind_null bind_again)
qed simp

lemma bind_all_first:
  assumes "ready s" "slot s = None"
  shows "slot (snd (bind_all bind (replicate n None @ Some x # xs) s)) = Some x \<and>
    fst (bind_all bind (replicate n None @ Some x # xs) s) = replicate n False @ True # replicate (length xs) False"
proof (induction n)
  case 0
  obtain s' where s': "bind (Some x) s = (True, s')" "slot s' = Some x" "ready s'"
    using bind_first [OF assms, of x] by (cases "bind (Some x) s") auto
  then show ?case
    by (simp add: bind_all_bound)
next
  case (Suc n)
  then show ?case
    using assms(1) by (cases "bind_all bind (replicate n None @ Some x # xs) s") (simp add: bind_null)
qed

end

interpretation original_slot: one_shot bindOnce original "\<lambda>_. True"
  by unfold_locales (auto simp: bindOnce_def)

interpretation observer_slot: one_shot "\<lambda>obs. bindObserverOnce obs context" observer
  "\<lambda>b. observerBindingStarted b \<longleftrightarrow> observer b \<noteq> None"
  by unfold_locales (auto simp: bindObserverOnce_def)

section \<open>Reachable states\<close>

definition active :: "binder_pc \<Rightarrow> bool" where
  "active p \<longleftrightarrow> p = Claimed \<or> p = ContextStored \<or> p = Published"

definition owned_by ::
  "('t \<Rightarrow> ('v, 'e) BinderTransactionObserver \<times> 'v) \<Rightarrow> 't \<Rightarrow> ('v, 'e) BinderPassThroughBridge \<Rightarrow> ('t \<Rightarrow> binder_pc) \<Rightarrow> bool" where
  "owned_by req w b pc \<longleftrightarrow> observerBindingStarted b \<and> active (pc w) \<and> (\<forall>t. t \<noteq> w \<longrightarrow> \<not> active (pc t)) \<and>
     (pc w \<noteq> Claimed \<longrightarrow> observerContext b = snd (req w)) \<and>
     observer b = (if pc w = Published then Some (fst (req w)) else None)"

definition unclaimed :: "('v, 'e) BinderPassThroughBridge \<Rightarrow> ('t \<Rightarrow> binder_pc) \<Rightarrow> bool" where
  "unclaimed b pc \<longleftrightarrow> \<not> observerBindingStarted b \<and> (\<forall>t. \<not> active (pc t)) \<and> observer b = None"

definition bind_inv ::
  "('t \<Rightarrow> ('v, 'e) BinderTransactionObserver \<times> 'v) \<Rightarrow> ('v, 'e) BinderPassThroughBridge \<times> ('t \<Rightarrow> binder_pc) \<Rightarrow> bool" where
  "bind_inv req s \<longleftrightarrow> unclaimed (fst s) (snd s) \<or> (\<exists>w. owned_by req w (fst s) (snd s))"

lemma bind_inv_start: "bind_inv req (newBridge n, \<lambda>_. Idle)"
  by (simp add: bind_inv_def unclaimed_def newBridge_def active_def)

lemma unclaimed_step:
  "bind_step req s s' \<Longrightarrow> unclaimed (fst s) (snd s) \<Longrightarrow>
   unclaimed (fst s') (snd s') \<or> (\<exists>w. owned_by req w (fst s') (snd s'))"
proof (induction rule: bind_step.induct)
  case (claim pc t b)
  then have "owned_by req t (b\<lparr>observerBindingStarted := True\<rparr>) (pc(t := Claimed))"
    by (simp add: unclaimed_def owned_by_def active_def)
  then show ?case unfolding fst_conv snd_conv by blast
next
  case (store pc t b)
  then show ?case by (auto simp: unclaimed_def active_def)
next
  case (publish pc t b)
  then show ?case by (auto simp: unclaimed_def active_def)
qed (auto simp: unclaimed_def)

lemma owned_step:
  "bind_step req s s' \<Longrightarrow> owned_by req w (fst s) (snd s) \<Longrightarrow> owned_by req w (fst s') (snd s')"
proof (induction rule: bind_step.induct)
  case (refuse pc t b)
  then have "t \<noteq> w" by (auto simp: owned_by_def active_def)
  with refuse show ?case by (simp add: owned_by_def active_def)
next
  case (store pc t b)
  then have "t = w" by (auto simp: owned_by_def active_def)
  with store show ?case by (simp add: owned_by_def active_def)
next
  case (publish pc t b)
  then have "t = w" by (auto simp: owned_by_def active_def)
  with publish show ?case by (simp add: owned_by_def active_def)
qed (simp_all add: owned_by_def)

lemma bind_inv_step: "bind_step req s s' \<Longrightarrow> bind_inv req s \<Longrightarrow> bind_inv req s'"
  unfolding bind_inv_def using unclaimed_step [of req s s'] owned_step [of req s s'] by blast

lemma bind_reachable_inv: "bind_reachable req n s \<Longrightarrow> bind_inv req s"
  by (induction rule: bind_reachable.induct) (auto intro: bind_inv_start bind_inv_step)

lemma published_owner:
  "bind_reachable req n s \<Longrightarrow> observer (fst s) = Some f \<Longrightarrow>
   \<exists>w. owned_by req w (fst s) (snd s) \<and> snd s w = Published"
  using bind_reachable_inv [of req n s] by (auto simp: bind_inv_def unclaimed_def owned_by_def split: if_splits)

lemma published_stays: "bind_step req s s' \<Longrightarrow> snd s w = Published \<Longrightarrow> snd s' w = Published"
  by (induction rule: bind_step.induct) auto

lemma published_stays_star:
  "(bind_step req)\<^sup>*\<^sup>* s s' \<Longrightarrow> owned_by req w (fst s) (snd s) \<Longrightarrow> snd s w = Published \<Longrightarrow>
   owned_by req w (fst s') (snd s') \<and> snd s' w = Published"
  by (induction rule: rtranclp_induct) (auto intro: owned_step published_stays)

section \<open>Transactions\<close>

lemma bind_all_keeps_observer:
  "observer (snd (bind_all bindOnce xs s)) = observer s \<and>
   observerBindingStarted (snd (bind_all bindOnce xs s)) = observerBindingStarted s"
proof (induction xs arbitrary: s)
  case (Cons x xs)
  obtain r s' where "bindOnce x s = (r, s')" by (cases "bindOnce x s")
  moreover from this have "observer s' = observer s" "observerBindingStarted s' = observerBindingStarted s"
    by (auto simp: bindOnce_def split: if_splits)
  ultimately show ?case using Cons.IH [of s'] by (simp add: case_prod_unfold)
qed simp

lemma newBridge_fresh:
  "original (newBridge n) = None" "observer (newBridge n) = None" "\<not> observerBindingStarted (newBridge n)"
  by (simp_all add: newBridge_def)

lemma original_bindObserver: "original (snd (bindObserverOnce obs ctx b)) = original b"
  by (simp add: bindObserverOnce_def)

lemma bindObserver_fresh:
  "\<not> observerBindingStarted b \<Longrightarrow> snd (bindObserverOnce (Some obs) ctx b) =
     b\<lparr>observerBindingStarted := True, observerContext := ctx, observer := Some obs\<rparr>"
  by (simp add: bindObserverOnce_def)

lemma invoke_bound:
  "original b = Some f \<Longrightarrow> invoke b service txnCode dataParcel replyParcel flags e =
     f service txnCode dataParcel replyParcel flags
       (case observer b of None \<Rightarrow> e | Some obs \<Rightarrow> obs txnCode dataParcel (observerContext b) e)"
  by (simp add: invoke_def)

lemma invoke_unbound:
  "original b = None \<Longrightarrow> invoke b service txnCode dataParcel replyParcel flags e = (- 38, e)"
  by (simp add: invoke_def kOriginalNotBound_def)

section \<open>Properties\<close>

text \<open>
  C23. Whatever calls are made on a fresh bridge, the first non-null original is the one that
  stays bound: exactly that call answers true, all earlier (null) and later calls answer
  false, and every transaction is then answered by that original, whose environment is what
  the observer, when there is one, left.  Before the binding a transaction is refused with
  the not-bound code and nothing runs.
\<close>

theorem first_original_serves:
  "let attempts = replicate n None @ Some f # others;
       b = snd (bind_all bindOnce attempts (newBridge nullPointer))
   in fst (bind_all bindOnce attempts (newBridge nullPointer)) =
        replicate n False @ True # replicate (length others) False \<and>
      isBound b \<and>
      invoke (snd (bindObserverOnce (Some obs) ctx b)) service txnCode dataParcel replyParcel flags e =
        f service txnCode dataParcel replyParcel flags (obs txnCode dataParcel ctx e) \<and>
      invoke b service txnCode dataParcel replyParcel flags e = f service txnCode dataParcel replyParcel flags e \<and>
      invoke (snd (bindObserverOnce (Some obs) ctx (newBridge nullPointer)))
        service txnCode dataParcel replyParcel flags e = (- 38, e)"
proof -
  let ?attempts = "replicate n None @ Some f # others"
  let ?b = "snd (bind_all bindOnce ?attempts (newBridge nullPointer))"
  have bound: "original ?b = Some f"
    "fst (bind_all bindOnce ?attempts (newBridge nullPointer)) =
       replicate n False @ True # replicate (length others) False"
    using original_slot.bind_all_first [OF _ newBridge_fresh(1), of n f others] by blast+
  have kept: "observer ?b = None" "\<not> observerBindingStarted ?b"
    using bind_all_keeps_observer [of ?attempts "newBridge nullPointer"] by (simp_all add: newBridge_fresh)
  show ?thesis
    unfolding Let_def using bound kept
    by (simp add: isBound_def invoke_bound invoke_unbound original_bindObserver bindObserver_fresh newBridge_fresh)
qed

text \<open>
  C22. However the atomic accesses of concurrent \<open>bindObserverOnce\<close> calls interleave with one
  another and with the binding of the original, an observer that a transaction can see is
  the observer of one of the threads, together with that same thread's context, and neither
  of the two ever changes again.
\<close>

theorem published_observer_is_consistent:
  assumes "bind_reachable req nullPointer s"
    and "observer (fst s) = Some f"
    and "(bind_step req)\<^sup>*\<^sup>* s s'"
  shows "(\<exists>t. f = fst (req t) \<and> observerContext (fst s) = snd (req t)) \<and>
    observer (fst s') = Some f \<and> observerContext (fst s') = observerContext (fst s)"
proof -
  obtain w where w: "owned_by req w (fst s) (snd s)" "snd s w = Published"
    using published_owner [OF assms(1,2)] by blast
  have "owned_by req w (fst s') (snd s')" "snd s' w = Published"
    using published_stays_star [OF assms(3) w] by auto
  with w assms(2) show ?thesis by (auto simp: owned_by_def)
qed

text \<open>Two threads race: the first claims the slot, the second is refused, the first publishes.\<close>

definition raceRequests :: "bool \<Rightarrow> (nat, nat list) BinderTransactionObserver \<times> nat" where
  "raceRequests t = (if t then (\<lambda>_ _ c e. e @ [c], 7) else (\<lambda>_ _ c e. [], 9))"

lemma race_reachable:
  "bind_reachable raceRequests 0
     (newBridge 0\<lparr>observerBindingStarted := True, observerContext := snd (raceRequests True),
        observer := Some (fst (raceRequests True))\<rparr>, (\<lambda>_. Idle)(True := Claimed, False := Refused, True := ContextStored, True := Published))"
  by (rule bind_reachable.step [OF _ bind_step.publish], rule bind_reachable.step [OF _ bind_step.store],
      rule bind_reachable.step [OF _ bind_step.refuse], rule bind_reachable.step [OF _ bind_step.claim],
      rule bind_reachable.start) (simp_all add: newBridge_def)

theorem published_observer_is_consistent_witness:
  "\<exists>t. fst (raceRequests True) = fst (raceRequests t) \<and> (7::nat) = snd (raceRequests t)"
  using published_observer_is_consistent [OF race_reachable, of "fst (raceRequests True)"]
  by (auto simp: raceRequests_def)

end
