(* ===== verification/Patch_Planner.thy ===== *)
theory Patch_Planner
  imports Vcam_Prelude
begin

text \<open>
  Model of \<open>src/runtime/Arm64PatchPlanner.cpp\<close>: the planner that turns a
  verified function prologue into the bytes of an inline hook.  A plan consists of the
  16-byte entry patch (load the replacement address into the scratch register IP1, branch
  to it) and of the trampoline that re-executes the displaced instructions and branches
  back behind them.  Nothing is written to memory here.
\<close>

section \<open>Definitions\<close>

datatype Arm64PlanStatus =
    kReady
  | kInvalidAddress
  | kInsufficientPrologue
  | kPcRelativeInstruction
  | kControlFlowInstruction

record Arm64PatchPlan =
  status :: Arm64PlanStatus
  message :: string
  overwriteSize :: size_t
  resumeAddress :: uintptr
  originalBytes :: bytes
  entryPatch :: bytes
  trampoline :: bytes

definition kOverwriteSize :: nat where
  "kOverwriteSize = 16"

definition kBtiCall :: uint32 where
  "kBtiCall = 0xd503245f"

definition kLoadIp1FromPcPlus8 :: uint32 where
  "kLoadIp1FromPcPlus8 = 0x58000051"

definition kBranchIp1 :: uint32 where
  "kBranchIp1 = 0xd61f0220"

definition append32 :: "bytes \<Rightarrow> uint32 \<Rightarrow> bytes" where
  "append32 output v = output @ map (\<lambda>byte. ucast (drop_bit (byte * 8) v)) [0..<4]"

definition append64 :: "bytes \<Rightarrow> uint64 \<Rightarrow> bytes" where
  "append64 output v = output @ map (\<lambda>byte. ucast (drop_bit (byte * 8) v)) [0..<8]"

definition read32 :: "bytes \<Rightarrow> nat \<Rightarrow> uint32" where
  "read32 input offset =
     ucast (input ! offset) OR
     push_bit 8 (ucast (input ! (offset + 1))) OR
     push_bit 16 (ucast (input ! (offset + 2))) OR
     push_bit 24 (ucast (input ! (offset + 3)))"

definition isPcRelative :: "uint32 \<Rightarrow> bool" where
  "isPcRelative instruction =
     (let address = (instruction AND 0x1f000000 = 0x10000000);
          literalLoad = (instruction AND 0x3b000000 = 0x18000000);
          directBranch = (instruction AND 0x7c000000 = 0x14000000);
          conditionalBranch = (instruction AND 0xff000010 = 0x54000000);
          compareBranch = (instruction AND 0x7e000000 = 0x34000000);
          testBranch = (instruction AND 0x7e000000 = 0x36000000)
      in address \<or> literalLoad \<or> directBranch \<or> conditionalBranch \<or>
         compareBranch \<or> testBranch)"

definition isRegisterControlFlow :: "uint32 \<Rightarrow> bool" where
  "isRegisterControlFlow instruction = (instruction AND 0xfe000000 = 0xd6000000)"

definition emptyPlan :: Arm64PatchPlan where
  "emptyPlan = \<lparr>status = kInvalidAddress, message = [], overwriteSize = 0,
     resumeAddress = 0, originalBytes = [], entryPatch = [], trampoline = []\<rparr>"

definition planFailure :: "Arm64PlanStatus \<Rightarrow> string \<Rightarrow> Arm64PatchPlan" where
  "planFailure st msg = emptyPlan\<lparr>status := st, message := msg\<rparr>"

definition appendAbsoluteBranch :: "bytes \<Rightarrow> uintptr \<Rightarrow> bytes" where
  "appendAbsoluteBranch output address =
     append64 (append32 (append32 output kLoadIp1FromPcPlus8) kBranchIp1) address"

text \<open>
  The loop over the displaced instructions; \<open>None\<close> means that the loop ran to
  its end.
\<close>

function scanPrologue :: "bytes \<Rightarrow> nat \<Rightarrow> Arm64PatchPlan option" where
  "scanPrologue targetPrologue offset =
     (if offset < kOverwriteSize then
        let instruction = read32 targetPrologue offset in
        if isPcRelative instruction then
          Some (planFailure kPcRelativeInstruction
            ''stolen ARM64 prologue contains a PC-relative instruction'')
        else if isRegisterControlFlow instruction then
          Some (planFailure kControlFlowInstruction
            ''stolen ARM64 prologue contains a control-flow instruction'')
        else scanPrologue targetPrologue (offset + 4)
      else None)"
  by pat_completeness auto
termination
  by (relation "measure (\<lambda>(_, offset). kOverwriteSize - offset)") auto

declare scanPrologue.simps [simp del]

definition planArm64InlineHook :: "uintptr \<Rightarrow> uintptr \<Rightarrow> bytes \<Rightarrow> Arm64PatchPlan" where
  "planArm64InlineHook targetAddress replacementAddress targetPrologue =
     (if targetAddress = 0 \<or> replacementAddress = 0 \<or>
         targetAddress AND 3 \<noteq> 0 \<or> replacementAddress AND 3 \<noteq> 0 \<or>
         targetAddress > (- 1) - of_nat kOverwriteSize then
        planFailure kInvalidAddress
          ''ARM64 target and replacement must be non-zero, aligned addresses''
      else if length targetPrologue < kOverwriteSize then
        planFailure kInsufficientPrologue
          ''ARM64 hook requires at least 16 verified prologue bytes''
      else case scanPrologue targetPrologue 0 of
        Some failed \<Rightarrow> failed
      | None \<Rightarrow>
          (let resume = targetAddress + of_nat kOverwriteSize;
               stolen = take kOverwriteSize targetPrologue
           in \<lparr>status = kReady,
               message = ''ARM64 patch bytes are relocatable; no executable memory was modified'',
               overwriteSize = of_nat kOverwriteSize,
               resumeAddress = resume,
               originalBytes = stolen,
               entryPatch = appendAbsoluteBranch [] replacementAddress,
               trampoline = appendAbsoluteBranch (append32 [] kBtiCall @ stolen) resume\<rparr>))"

fun arm64PlanStatusName :: "Arm64PlanStatus \<Rightarrow> string" where
  "arm64PlanStatusName kReady = ''ready''"
| "arm64PlanStatusName kInvalidAddress = ''invalid_address''"
| "arm64PlanStatusName kInsufficientPrologue = ''insufficient_prologue''"
| "arm64PlanStatusName kPcRelativeInstruction = ''pc_relative_instruction''"
| "arm64PlanStatusName kControlFlowInstruction = ''control_flow_instruction''"


section \<open>The 32-bit codec\<close>

lemma read32_le_join: "read32 input offset = le_join (\<lambda>b. input ! (offset + b)) 4"
  by (simp add: read32_def le_join_def upt_rec or.assoc numeral_3_eq_3)

interpretation le32: byte_codec append32 read32 4
proof unfold_locales
  show "read32 (xs @ ys @ zs) (length xs) = read32 ys 0" if "length ys = 4" for xs ys zs
    using le_join_nth_shift [OF that] by (simp add: read32_le_join)
  show "read32 (append32 [] v) 0 = v" for v
    using le_join_map_upt [of 4 v] by (simp add: read32_le_join append32_def)
qed (simp_all add: append32_def)


section \<open>What the planner decides\<close>

definition relocatable_at :: "bytes \<Rightarrow> nat \<Rightarrow> bool" where
  "relocatable_at p offset \<longleftrightarrow>
     \<not> isPcRelative (read32 p offset) \<and> \<not> isRegisterControlFlow (read32 p offset)"

definition hookable_addresses :: "uintptr \<Rightarrow> uintptr \<Rightarrow> bool" where
  "hookable_addresses t r \<longleftrightarrow>
     t \<noteq> 0 \<and> r \<noteq> 0 \<and> t AND 3 = 0 \<and> r AND 3 = 0 \<and> unat t + 16 < 2 ^ 64"

lemma scanPrologue_None_iff:
  "scanPrologue p 0 = None \<longleftrightarrow> (\<forall>k < 4. relocatable_at p (4 * k))"
  by (simp add: scanPrologue.simps [of p] kOverwriteSize_def relocatable_at_def Let_def
      numeral_eq_Suc All_less_Suc)

lemma scanPrologue_status:
  "scanPrologue p offset = Some plan \<Longrightarrow>
     status plan = kPcRelativeInstruction \<or> status plan = kControlFlowInstruction"
proof (induction p offset rule: scanPrologue.induct)
  case (1 p offset)
  from 1(2) show ?case
    by (subst (asm) scanPrologue.simps)
       (use 1(1) [OF _ refl] in \<open>auto simp: planFailure_def Let_def split: if_splits\<close>)
qed

lemma planFailure_status [status_simps]: "status (planFailure st msg) = st"
  by (simp add: planFailure_def)

lemma hookable_addresses_iff:
  "hookable_addresses t r \<longleftrightarrow>
     \<not> (t = 0 \<or> r = 0 \<or> t AND 3 \<noteq> 0 \<or> r AND 3 \<noteq> 0 \<or> t > (- 1) - of_nat kOverwriteSize)"
  using word_max_minus_le_iff [of t 16]
  by (auto simp: hookable_addresses_def kOverwriteSize_def not_less)

lemma ready_plan_fields:
  assumes "status (planArm64InlineHook t r p) = kReady"
  shows "hookable_addresses t r" "16 \<le> length p" "\<forall>k < 4. relocatable_at p (4 * k)"
    "overwriteSize (planArm64InlineHook t r p) = 16"
    "resumeAddress (planArm64InlineHook t r p) = t + 16"
    "originalBytes (planArm64InlineHook t r p) = take 16 p"
    "entryPatch (planArm64InlineHook t r p) = appendAbsoluteBranch [] r"
    "trampoline (planArm64InlineHook t r p) =
       appendAbsoluteBranch (append32 [] kBtiCall @ take 16 p) (t + 16)"
proof -
  show h: "hookable_addresses t r" "16 \<le> length p" "\<forall>k < 4. relocatable_at p (4 * k)"
    using assms scanPrologue_status [of p 0] scanPrologue_None_iff [of p]
    by (auto simp: planArm64InlineHook_def hookable_addresses_iff status_simps kOverwriteSize_def
        split: if_splits option.splits)
  then have "planArm64InlineHook t r p =
      \<lparr>status = kReady,
       message = ''ARM64 patch bytes are relocatable; no executable memory was modified'',
       overwriteSize = 16, resumeAddress = t + 16, originalBytes = take 16 p,
       entryPatch = appendAbsoluteBranch [] r,
       trampoline = appendAbsoluteBranch (append32 [] kBtiCall @ take 16 p) (t + 16)\<rparr>"
    unfolding scanPrologue_None_iff [symmetric]
    by (simp add: planArm64InlineHook_def hookable_addresses_iff kOverwriteSize_def Let_def)
  then show "overwriteSize (planArm64InlineHook t r p) = 16"
    "resumeAddress (planArm64InlineHook t r p) = t + 16"
    "originalBytes (planArm64InlineHook t r p) = take 16 p"
    "entryPatch (planArm64InlineHook t r p) = appendAbsoluteBranch [] r"
    "trampoline (planArm64InlineHook t r p) =
       appendAbsoluteBranch (append32 [] kBtiCall @ take 16 p) (t + 16)"
    by simp_all
qed

end
