(* ===== verification/Patch_Transaction.thy ===== *)
theory Patch_Transaction
  imports Patch_Planner
begin

text \<open>
  Model of \<open>src/runtime/Arm64PatchInstallTransaction.cpp\<close>: the transactional
  state machine that installs a plan through a backend of callbacks.  The backend is code
  outside the class, so every callback is a field of the backend record; the whole world
  that the callbacks act on (their \<open>void* context\<close>) is the type parameter
  \<open>'e\<close> and is threaded through every call.  A null function pointer is
  \<open>None\<close>.
\<close>

section \<open>Definitions\<close>

datatype PatchInstallState = kEmpty | kPrepared | kCommitted | kRolledBack | kFailed

datatype PatchInstallStatus =
    kOk
  | kInvalidState
  | kInvalidPlan
  | kInvalidBackend
  | kReadFailed
  | kTargetMismatch
  | kCoordinationFailed
  | kCoordinationReleaseFailed
  | kTrampolineWriteFailed
  | kTrampolineBindFailed
  | kCacheSyncFailed
  | kPublishFailed
  | kEntryWriteFailed
  | kCommitRolledBack
  | kRollbackTargetMismatch
  | kRollbackWriteFailed
  | kRollbackFailed

record PatchInstallResult =
  status :: PatchInstallStatus
  state :: PatchInstallState
  message :: string

record 'e PatchInstallBackend =
  readMemory :: "('e \<Rightarrow> uintptr \<Rightarrow> nat \<Rightarrow> bool \<times> bytes \<times> 'e) option"
  writeMemory :: "('e \<Rightarrow> uintptr \<Rightarrow> bytes \<Rightarrow> bool \<times> 'e) option"
  synchronizeInstructionCache :: "('e \<Rightarrow> uintptr \<Rightarrow> nat \<Rightarrow> bool \<times> 'e) option"
  enterExclusiveWindow :: "('e \<Rightarrow> bool \<times> 'e) option"
  leaveExclusiveWindow :: "('e \<Rightarrow> bool \<times> 'e) option"
  publishOriginalTrampoline :: "('e \<Rightarrow> uintptr \<Rightarrow> bool \<times> 'e) option"

record 'e PrecompiledArm64Trampoline =
  entryAddress :: uintptr
  codeSize :: size_t
  relocatedOriginalBytes :: bytes
  bindResumeAddress :: "('e \<Rightarrow> uintptr \<Rightarrow> bool \<times> 'e) option"

record 'e Arm64PatchInstallTransaction =
  txn_targetAddress :: uintptr
  txn_trampolineAddress :: uintptr
  txn_precompiledTrampoline :: "'e PrecompiledArm64Trampoline"
  txn_usesPrecompiledTrampoline :: bool
  txn_plan :: Arm64PatchPlan
  txn_backend :: "'e PatchInstallBackend"
  txn_revalidationBuffer :: bytes
  txn_state :: PatchInstallState

definition kAbsoluteBranchSize :: nat where
  "kAbsoluteBranchSize = 16"

definition read64 :: "bytes \<Rightarrow> nat \<Rightarrow> uint64" where
  "read64 bytes offset =
     fold (\<lambda>byte v. v OR push_bit (byte * 8) (ucast (bytes ! (offset + byte)))) [0..<8] 0"

definition newTransaction ::
  "uintptr \<Rightarrow> uintptr \<Rightarrow> Arm64PatchPlan \<Rightarrow> 'e PatchInstallBackend \<Rightarrow>
   'e Arm64PatchInstallTransaction" where
  "newTransaction target tramp plan backend =
     \<lparr>txn_targetAddress = target, txn_trampolineAddress = tramp,
      txn_precompiledTrampoline = \<lparr>entryAddress = 0, codeSize = 0,
        relocatedOriginalBytes = replicate 16 0, bindResumeAddress = None\<rparr>,
      txn_usesPrecompiledTrampoline = False, txn_plan = plan, txn_backend = backend,
      txn_revalidationBuffer = [], txn_state = kEmpty\<rparr>"

definition newPrecompiledTransaction ::
  "uintptr \<Rightarrow> 'e PrecompiledArm64Trampoline \<Rightarrow> Arm64PatchPlan \<Rightarrow> 'e PatchInstallBackend \<Rightarrow>
   'e Arm64PatchInstallTransaction" where
  "newPrecompiledTransaction target tramp plan backend =
     \<lparr>txn_targetAddress = target, txn_trampolineAddress = entryAddress tramp,
      txn_precompiledTrampoline = tramp,
      txn_usesPrecompiledTrampoline = True, txn_plan = plan, txn_backend = backend,
      txn_revalidationBuffer = [], txn_state = kEmpty\<rparr>"

definition result ::
  "'e Arm64PatchInstallTransaction \<Rightarrow> PatchInstallStatus \<Rightarrow> string \<Rightarrow> PatchInstallResult" where
  "result t st msg = \<lparr>status = st, state = txn_state t, message = msg\<rparr>"

definition exactPlannerShape :: "Arm64PatchPlan \<Rightarrow> bool" where
  "exactPlannerShape plan =
     (let trampolineBranch = 4 + unat (overwriteSize plan);
          replacementAddress = read64 (entryPatch plan) 8
      in read32 (entryPatch plan) 0 = kLoadIp1FromPcPlus8 \<and>
         read32 (entryPatch plan) 4 = kBranchIp1 \<and>
         replacementAddress \<noteq> 0 \<and> replacementAddress AND 3 = 0 \<and>
         read32 (trampoline plan) 0 = kBtiCall \<and>
         originalBytes plan = take (length (originalBytes plan)) (drop 4 (trampoline plan)) \<and>
         read32 (trampoline plan) trampolineBranch = kLoadIp1FromPcPlus8 \<and>
         read32 (trampoline plan) (trampolineBranch + 4) = kBranchIp1 \<and>
         read64 (trampoline plan) (trampolineBranch + 8) = resumeAddress plan)"

definition validPlan :: "'e Arm64PatchInstallTransaction \<Rightarrow> bool" where
  "validPlan t =
     (let plan = txn_plan t; target = txn_targetAddress t; tramp = txn_trampolineAddress t;
          pre = txn_precompiledTrampoline t in
      if Arm64PatchPlan.status plan \<noteq> kReady \<or> target = 0 \<or> tramp = 0 \<or>
         target AND 3 \<noteq> 0 \<or> tramp AND 3 \<noteq> 0 \<or>
         overwriteSize plan \<noteq> 16 \<or>
         length (entryPatch plan) \<noteq> unat (overwriteSize plan) \<or>
         length (originalBytes plan) \<noteq> unat (overwriteSize plan) \<or>
         length (trampoline plan) \<noteq> 4 + unat (overwriteSize plan) + kAbsoluteBranchSize
      then False
      else case rangeEnd target (overwriteSize plan) of
        None \<Rightarrow> False
      | Some targetEnd \<Rightarrow>
          if resumeAddress plan \<noteq> targetEnd then False
          else if \<not> exactPlannerShape plan then False
          else if txn_usesPrecompiledTrampoline t then
            bindResumeAddress pre \<noteq> None \<and>
            (case rangeEnd tramp (codeSize pre) of
               None \<Rightarrow> False
             | Some precompiledEnd \<Rightarrow>
                 originalBytes plan =
                   take (length (originalBytes plan)) (relocatedOriginalBytes pre) \<and>
                 (targetEnd \<le> tramp \<or> precompiledEnd \<le> target))
          else
            (case rangeEnd tramp (of_nat (length (trampoline plan))) of
               None \<Rightarrow> False
             | Some trampolineEnd \<Rightarrow> targetEnd \<le> tramp \<or> trampolineEnd \<le> target))"

definition backendComplete :: "'e PatchInstallBackend \<Rightarrow> bool" where
  "backendComplete b \<longleftrightarrow>
     readMemory b \<noteq> None \<and> writeMemory b \<noteq> None \<and>
     synchronizeInstructionCache b \<noteq> None \<and> enterExclusiveWindow b \<noteq> None \<and>
     leaveExclusiveWindow b \<noteq> None \<and> publishOriginalTrampoline b \<noteq> None"

definition prepare ::
  "'e Arm64PatchInstallTransaction \<Rightarrow> 'e \<Rightarrow>
   PatchInstallResult \<times> 'e Arm64PatchInstallTransaction \<times> 'e" where
  "prepare t e =
     (let failed = t\<lparr>txn_state := kFailed\<rparr> in
      if txn_state t \<noteq> kEmpty then
        (result t kInvalidState ''patch transaction can only be prepared once'', t, e)
      else if \<not> validPlan t then
        (result failed kInvalidPlan ''patch plan or target/trampoline range is invalid'', failed, e)
      else if \<not> backendComplete (txn_backend t) then
        (result failed kInvalidBackend ''patch backend is missing a required operation'', failed, e)
      else case the (readMemory (txn_backend t)) e (txn_targetAddress t)
                  (unat (overwriteSize (txn_plan t))) of
        (ok, written, e) \<Rightarrow>
          (let buffer = storeInto (replicate (unat (overwriteSize (txn_plan t))) 0) written;
               t = t\<lparr>txn_revalidationBuffer := buffer\<rparr>; failed = t\<lparr>txn_state := kFailed\<rparr> in
           if \<not> ok then
             (result failed kReadFailed ''could not snapshot target bytes during prepare'', failed, e)
           else if buffer \<noteq> originalBytes (txn_plan t) then
             (result failed kTargetMismatch ''target bytes no longer match the reviewed plan'', failed, e)
           else
             (let t = t\<lparr>txn_state := kPrepared\<rparr> in
              (result t kOk ''patch transaction prepared without writing memory'', t, e))))"

type_synonym 'e outcome = "PatchInstallResult \<times> 'e Arm64PatchInstallTransaction \<times> 'e"

text \<open>
  The scope guard \<open>ExclusiveWindow\<close>.  Every exit of \<open>commit\<close> and of
  \<open>rollback\<close> behind a successful \<open>enter\<close> passes through
  \<open>finishExclusive\<close>; when \<open>leave\<close> fails the guard still counts as
  entered, so its destructor calls \<open>leaveExclusiveWindow\<close> a second time.
\<close>

definition finishExclusive :: "string \<Rightarrow> 'e outcome \<Rightarrow> 'e outcome" where
  "finishExclusive releaseMessage out =
     (case out of (r, t, e) \<Rightarrow>
        (case the (leaveExclusiveWindow (txn_backend t)) e of
           (True, e) \<Rightarrow> (r, t, e)
         | (False, e) \<Rightarrow>
             (let t = t\<lparr>txn_state := kFailed\<rparr>;
                  r = result t kCoordinationReleaseFailed releaseMessage;
                  (_, e) = the (leaveExclusiveWindow (txn_backend t)) e
              in (r, t, e))))"

definition automaticRollback ::
  "'e Arm64PatchInstallTransaction \<Rightarrow> 'e \<Rightarrow> string \<Rightarrow> string \<Rightarrow> 'e outcome" where
  "automaticRollback t e restoredMessage failedMessage =
     (let plan = txn_plan t; b = txn_backend t;
          (wroteOriginal, e) = the (writeMemory b) e (txn_targetAddress t) (originalBytes plan);
          (synchronized, e) =
            (if wroteOriginal
             then the (synchronizeInstructionCache b) e (txn_targetAddress t) (length (originalBytes plan))
             else (False, e))
      in if synchronized then
           (let t = t\<lparr>txn_state := kRolledBack\<rparr> in (result t kCommitRolledBack restoredMessage, t, e))
         else
           (let t = t\<lparr>txn_state := kFailed\<rparr> in (result t kRollbackFailed failedMessage, t, e)))"

text \<open>
  The part of \<open>commit\<close> that makes the trampoline usable: binding the resume
  address of a precompiled one, or writing the planned bytes and synchronising the
  instruction cache.  \<open>Some\<close> is the early return.
\<close>

definition installTrampoline ::
  "'e Arm64PatchInstallTransaction \<Rightarrow> 'e \<Rightarrow>
   PatchInstallResult option \<times> 'e Arm64PatchInstallTransaction \<times> 'e" where
  "installTrampoline t e =
     (let plan = txn_plan t; b = txn_backend t; failed = t\<lparr>txn_state := kFailed\<rparr> in
      if txn_usesPrecompiledTrampoline t then
        (case the (bindResumeAddress (txn_precompiledTrampoline t)) e (resumeAddress plan) of
           (True, e) \<Rightarrow> (None, t, e)
         | (False, e) \<Rightarrow>
             (Some (result failed kTrampolineBindFailed
                ''precompiled trampoline rejected the resume address''), failed, e))
      else
        (case the (writeMemory b) e (txn_trampolineAddress t) (trampoline plan) of
           (False, e) \<Rightarrow>
             (Some (result failed kTrampolineWriteFailed
                ''trampoline write failed before target modification''), failed, e)
         | (True, e) \<Rightarrow>
             (case the (synchronizeInstructionCache b) e (txn_trampolineAddress t)
                     (length (trampoline plan)) of
                (False, e) \<Rightarrow>
                  (Some (result failed kCacheSyncFailed
                     ''trampoline cache synchronization failed before target modification''), failed, e)
              | (True, e) \<Rightarrow> (None, t, e))))"

text \<open>
  The rest of \<open>commit\<close> once the trampoline is in place: publication, the write of
  the entry patch and the cache synchronisation, with the automatic rollback.
\<close>

definition publishAndPatchEntry :: "'e Arm64PatchInstallTransaction \<Rightarrow> 'e \<Rightarrow> 'e outcome" where
  "publishAndPatchEntry t e =
     (let plan = txn_plan t; b = txn_backend t; failed = t\<lparr>txn_state := kFailed\<rparr> in
      case the (publishOriginalTrampoline b) e (txn_trampolineAddress t) of
        (False, e) \<Rightarrow>
          (result failed kPublishFailed
             ''original trampoline publication failed before target modification'', failed, e)
      | (True, e) \<Rightarrow>
          (case the (writeMemory b) e (txn_targetAddress t) (entryPatch plan) of
             (False, e) \<Rightarrow>
               automaticRollback t e ''entry patch write failed; original bytes restored''
                 ''entry patch write failed and automatic rollback failed''
           | (True, e) \<Rightarrow>
               (case the (synchronizeInstructionCache b) e (txn_targetAddress t)
                       (length (entryPatch plan)) of
                  (False, e) \<Rightarrow>
                    automaticRollback t e
                      ''entry cache synchronization failed; original bytes restored''
                      ''entry cache synchronization and automatic rollback failed''
                | (True, e) \<Rightarrow>
                    (let t = t\<lparr>txn_state := kCommitted\<rparr> in
                     (result t kOk ''entry patch committed inside the exclusive window'', t, e)))))"

definition commitInside :: "'e Arm64PatchInstallTransaction \<Rightarrow> 'e \<Rightarrow> 'e outcome" where
  "commitInside t e =
     (let plan = txn_plan t; b = txn_backend t;
          (ok, written, e) =
            the (readMemory b) e (txn_targetAddress t) (length (txn_revalidationBuffer t));
          buffer = storeInto (txn_revalidationBuffer t) written;
          t = t\<lparr>txn_revalidationBuffer := buffer\<rparr>;
          failed = t\<lparr>txn_state := kFailed\<rparr> in
      if \<not> ok then
        (result failed kReadFailed
           ''could not revalidate target bytes inside exclusive window'', failed, e)
      else if buffer \<noteq> originalBytes plan then
        (result failed kTargetMismatch ''target changed between prepare and commit'', failed, e)
      else case installTrampoline t e of
        (Some r, t, e) \<Rightarrow> (r, t, e)
      | (None, t, e) \<Rightarrow> publishAndPatchEntry t e)"

definition commit :: "'e Arm64PatchInstallTransaction \<Rightarrow> 'e \<Rightarrow> 'e outcome" where
  "commit t e =
     (if txn_state t \<noteq> kPrepared then
        (result t kInvalidState ''patch transaction is not prepared'', t, e)
      else case the (enterExclusiveWindow (txn_backend t)) e of
        (False, e) \<Rightarrow>
          (result t kCoordinationFailed ''exclusive patch window was not acquired'', t, e)
      | (True, e) \<Rightarrow>
          finishExclusive ''exclusive patch window could not release every peer thread''
            (commitInside t e))"

definition rollbackInside :: "'e Arm64PatchInstallTransaction \<Rightarrow> 'e \<Rightarrow> 'e outcome" where
  "rollbackInside t e =
     (let plan = txn_plan t; b = txn_backend t;
          (ok, written, e) =
            the (readMemory b) e (txn_targetAddress t) (length (txn_revalidationBuffer t));
          buffer = storeInto (txn_revalidationBuffer t) written;
          t = t\<lparr>txn_revalidationBuffer := buffer\<rparr>;
          failed = t\<lparr>txn_state := kFailed\<rparr> in
      if \<not> ok then
        (result t kReadFailed ''could not verify entry patch before rollback'', t, e)
      else if buffer \<noteq> entryPatch plan then
        (result failed kRollbackTargetMismatch
           ''target no longer contains this transaction's entry patch'', failed, e)
      else case the (writeMemory b) e (txn_targetAddress t) (originalBytes plan) of
        (False, e) \<Rightarrow>
          (result failed kRollbackWriteFailed ''rollback write failed or may be partial'', failed, e)
      | (True, e) \<Rightarrow>
          (case the (synchronizeInstructionCache b) e (txn_targetAddress t)
                  (length (originalBytes plan)) of
             (False, e) \<Rightarrow>
               (result failed kRollbackFailed ''rollback cache synchronization failed'', failed, e)
           | (True, e) \<Rightarrow>
               (let t = t\<lparr>txn_state := kRolledBack\<rparr> in
                (result t kOk ''original target bytes restored inside the exclusive window'', t, e))))"

definition rollback :: "'e Arm64PatchInstallTransaction \<Rightarrow> 'e \<Rightarrow> 'e outcome" where
  "rollback t e =
     (if txn_state t \<noteq> kCommitted then
        (result t kInvalidState ''only a committed patch can be rolled back'', t, e)
      else case the (enterExclusiveWindow (txn_backend t)) e of
        (False, e) \<Rightarrow>
          (result t kCoordinationFailed ''exclusive rollback window was not acquired'', t, e)
      | (True, e) \<Rightarrow>
          finishExclusive ''exclusive rollback window could not release every peer thread''
            (rollbackInside t e))"

fun patchInstallStateName :: "PatchInstallState \<Rightarrow> string" where
  "patchInstallStateName kEmpty = ''empty''"
| "patchInstallStateName kPrepared = ''prepared''"
| "patchInstallStateName kCommitted = ''committed''"
| "patchInstallStateName kRolledBack = ''rolled_back''"
| "patchInstallStateName kFailed = ''failed''"

fun patchInstallStatusName :: "PatchInstallStatus \<Rightarrow> string" where
  "patchInstallStatusName kOk = ''ok''"
| "patchInstallStatusName kInvalidState = ''invalid_state''"
| "patchInstallStatusName kInvalidPlan = ''invalid_plan''"
| "patchInstallStatusName kInvalidBackend = ''invalid_backend''"
| "patchInstallStatusName kReadFailed = ''read_failed''"
| "patchInstallStatusName kTargetMismatch = ''target_mismatch''"
| "patchInstallStatusName kCoordinationFailed = ''coordination_failed''"
| "patchInstallStatusName kCoordinationReleaseFailed = ''coordination_release_failed''"
| "patchInstallStatusName kTrampolineWriteFailed = ''trampoline_write_failed''"
| "patchInstallStatusName kTrampolineBindFailed = ''trampoline_bind_failed''"
| "patchInstallStatusName kCacheSyncFailed = ''cache_sync_failed''"
| "patchInstallStatusName kPublishFailed = ''publish_failed''"
| "patchInstallStatusName kEntryWriteFailed = ''entry_write_failed''"
| "patchInstallStatusName kCommitRolledBack = ''commit_rolled_back''"
| "patchInstallStatusName kRollbackTargetMismatch = ''rollback_target_mismatch''"
| "patchInstallStatusName kRollbackWriteFailed = ''rollback_write_failed''"
| "patchInstallStatusName kRollbackFailed = ''rollback_failed''"



section \<open>What the class documents about its backend\<close>

text \<open>
  The comment on \<open>PatchInstallBackend\<close> as predicates.  \<open>mem\<close> views the
  environment as byte memory: a read that succeeds returns the bytes, a write touches
  nothing outside its range and, when it reports success, stores all of its input (a failed
  write may be partial), and no other callback changes code memory.
\<close>

definition reads_memory ::
  "('e \<Rightarrow> memory) \<Rightarrow> ('e \<Rightarrow> uintptr \<Rightarrow> nat \<Rightarrow> bool \<times> bytes \<times> 'e) \<Rightarrow> bool" where
  "reads_memory mem rd \<longleftrightarrow>
     (\<forall>e a n ok buf e'. rd e a n = (ok, buf, e') \<longrightarrow>
        mem e' = mem e \<and> (ok \<longrightarrow> buf = mem_read (mem e) a n))"

definition writes_memory ::
  "('e \<Rightarrow> memory) \<Rightarrow> ('e \<Rightarrow> uintptr \<Rightarrow> bytes \<Rightarrow> bool \<times> 'e) \<Rightarrow> bool" where
  "writes_memory mem wr \<longleftrightarrow>
     (\<forall>e a bs ok e'. wr e a bs = (ok, e') \<longrightarrow>
        (\<forall>x. x \<notin> range_bytes a (length bs) \<longrightarrow> mem e' x = mem e x) \<and>
        (ok \<longrightarrow> mem_read (mem e') a (length bs) = bs))"

definition keeps_memory :: "('e \<Rightarrow> memory) \<Rightarrow> ('e \<Rightarrow> bool \<times> 'e) \<Rightarrow> bool" where
  "keeps_memory mem f \<longleftrightarrow> (\<forall>e ok e'. f e = (ok, e') \<longrightarrow> mem e' = mem e)"

definition backend_contract :: "('e \<Rightarrow> memory) \<Rightarrow> 'e PatchInstallBackend \<Rightarrow> bool" where
  "backend_contract mem b \<longleftrightarrow>
     (\<forall>rd. readMemory b = Some rd \<longrightarrow> reads_memory mem rd) \<and>
     (\<forall>wr. writeMemory b = Some wr \<longrightarrow> writes_memory mem wr) \<and>
     (\<forall>sy a n. synchronizeInstructionCache b = Some sy \<longrightarrow> keeps_memory mem (\<lambda>e. sy e a n)) \<and>
     (\<forall>en. enterExclusiveWindow b = Some en \<longrightarrow> keeps_memory mem en) \<and>
     (\<forall>le. leaveExclusiveWindow b = Some le \<longrightarrow> keeps_memory mem le) \<and>
     (\<forall>pu a. publishOriginalTrampoline b = Some pu \<longrightarrow> keeps_memory mem (\<lambda>e. pu e a))"

definition bind_contract :: "('e \<Rightarrow> memory) \<Rightarrow> 'e PrecompiledArm64Trampoline \<Rightarrow> bool" where
  "bind_contract mem pre \<longleftrightarrow>
     (\<forall>bi a. bindResumeAddress pre = Some bi \<longrightarrow> keeps_memory mem (\<lambda>e. bi e a))"

definition txn_contract :: "('e \<Rightarrow> memory) \<Rightarrow> 'e Arm64PatchInstallTransaction \<Rightarrow> bool" where
  "txn_contract mem t \<longleftrightarrow>
     backend_contract mem (txn_backend t) \<and> bind_contract mem (txn_precompiledTrampoline t)"

definition target_range :: "'e Arm64PatchInstallTransaction \<Rightarrow> uintptr set" where
  "target_range t = range_bytes (txn_targetAddress t) 16"

definition trampoline_range :: "'e Arm64PatchInstallTransaction \<Rightarrow> uintptr set" where
  "trampoline_range t =
     (if txn_usesPrecompiledTrampoline t then {} else range_bytes (txn_trampolineAddress t) 36)"

definition target_bytes :: "('e \<Rightarrow> memory) \<Rightarrow> 'e Arm64PatchInstallTransaction \<Rightarrow> 'e \<Rightarrow> bytes" where
  "target_bytes mem t e = mem_read (mem e) (txn_targetAddress t) 16"

text \<open>
  The invariant of the class: once prepared, the plan has been validated, no callback is
  null, and the revalidation buffer has the size of the patch.
\<close>

definition same_setup ::
  "'e Arm64PatchInstallTransaction \<Rightarrow> 'e Arm64PatchInstallTransaction \<Rightarrow> bool" where
  "same_setup t t' \<longleftrightarrow>
     txn_targetAddress t' = txn_targetAddress t \<and>
     txn_trampolineAddress t' = txn_trampolineAddress t \<and>
     txn_precompiledTrampoline t' = txn_precompiledTrampoline t \<and>
     txn_usesPrecompiledTrampoline t' = txn_usesPrecompiledTrampoline t \<and>
     txn_plan t' = txn_plan t \<and> txn_backend t' = txn_backend t"

definition txn_inv :: "'e Arm64PatchInstallTransaction \<Rightarrow> bool" where
  "txn_inv t \<longleftrightarrow>
     (txn_state t \<in> {kPrepared, kCommitted} \<longrightarrow>
        validPlan t \<and> backendComplete (txn_backend t) \<and> length (txn_revalidationBuffer t) = 16)"


section \<open>Projections and contract rules\<close>

lemma result_simps [status_simps, simp]:
  "PatchInstallResult.status (result t st msg) = st"
  "PatchInstallResult.state (result t st msg) = txn_state t"
  by (simp_all add: result_def)

lemma same_setup_refl [simp]: "same_setup t t"
  by (simp add: same_setup_def)

lemma same_setup_update [simp]:
  "same_setup t (t'\<lparr>txn_state := x\<rparr>) = same_setup t t'"
  "same_setup t (t'\<lparr>txn_revalidationBuffer := y\<rparr>) = same_setup t t'"
  "same_setup (t\<lparr>txn_state := x\<rparr>) t' = same_setup t t'"
  "same_setup (t\<lparr>txn_revalidationBuffer := y\<rparr>) t' = same_setup t t'"
  by (simp_all add: same_setup_def)

lemma validPlan_cong: "same_setup t t' \<Longrightarrow> validPlan t' = validPlan t"
  unfolding validPlan_def same_setup_def Let_def by (elim conjE) (simp only:)

lemma read_rule:
  assumes "backend_contract mem b" "backendComplete b"
    "the (readMemory b) e a n = (ok, buf, e')"
  shows "mem e' = mem e \<and> (ok \<longrightarrow> buf = mem_read (mem e) a n)"
  using assms by (auto simp: backend_contract_def backendComplete_def reads_memory_def)

lemma write_rule:
  assumes "backend_contract mem b" "backendComplete b"
    "the (writeMemory b) e a bs = (ok, e')" "length bs = n"
  shows "(\<forall>x. x \<notin> range_bytes a n \<longrightarrow> mem e' x = mem e x) \<and>
    (ok \<longrightarrow> mem_read (mem e') a n = bs)"
  using assms by (auto simp: backend_contract_def backendComplete_def writes_memory_def)

lemma keep_rules:
  assumes "backend_contract mem b" "backendComplete b"
  shows "the (synchronizeInstructionCache b) e a n = (ok, e') \<Longrightarrow> mem e' = mem e"
    "the (enterExclusiveWindow b) e = (ok, e') \<Longrightarrow> mem e' = mem e"
    "the (leaveExclusiveWindow b) e = (ok, e') \<Longrightarrow> mem e' = mem e"
    "the (publishOriginalTrampoline b) e a = (ok, e') \<Longrightarrow> mem e' = mem e"
  using assms by (auto simp: backend_contract_def backendComplete_def keeps_memory_def)

lemma bind_rule:
  assumes "bind_contract mem pre" "bindResumeAddress pre \<noteq> None"
    "the (bindResumeAddress pre) e a = (ok, e')"
  shows "mem e' = mem e"
  using assms by (auto simp: bind_contract_def keeps_memory_def)

lemma validPlan_facts:
  assumes "validPlan t"
  shows "length (originalBytes (txn_plan t)) = 16" "length (entryPatch (txn_plan t)) = 16"
    "length (trampoline (txn_plan t)) = 36" "overwriteSize (txn_plan t) = 16"
    "exactPlannerShape (txn_plan t)"
    "txn_usesPrecompiledTrampoline t \<Longrightarrow> bindResumeAddress (txn_precompiledTrampoline t) \<noteq> None"
    "x \<in> target_range t \<Longrightarrow> x \<notin> trampoline_range t"
proof -
  show "length (originalBytes (txn_plan t)) = 16" "length (entryPatch (txn_plan t)) = 16"
    "length (trampoline (txn_plan t)) = 36" "overwriteSize (txn_plan t) = 16"
    "exactPlannerShape (txn_plan t)"
    "txn_usesPrecompiledTrampoline t \<Longrightarrow> bindResumeAddress (txn_precompiledTrampoline t) \<noteq> None"
    using assms
    by (auto simp: validPlan_def Let_def kAbsoluteBranchSize_def split: if_splits option.splits)
  have *: "\<exists>e e'. rangeEnd (txn_targetAddress t) 16 = Some e \<and>
      rangeEnd (txn_trampolineAddress t) 36 = Some e' \<and>
      (e \<le> txn_trampolineAddress t \<or> e' \<le> txn_targetAddress t)"
    if "\<not> txn_usesPrecompiledTrampoline t"
    using assms that
    by (auto simp: validPlan_def Let_def kAbsoluteBranchSize_def split: if_splits option.splits)
  show "x \<in> target_range t \<Longrightarrow> x \<notin> trampoline_range t"
    using range_bytes_disjoint [of "txn_targetAddress t" 16 _ "txn_trampolineAddress t" 36] *
    by (auto simp: target_range_def trampoline_range_def)
qed



section \<open>The memory effect of the operations\<close>

text \<open>
  \<open>mem_effect t m m'\<close>: between the two memories nothing outside the target and the
  (dynamically written) trampoline has changed.
\<close>

definition mem_effect :: "'e Arm64PatchInstallTransaction \<Rightarrow> memory \<Rightarrow> memory \<Rightarrow> bool" where
  "mem_effect t m m' \<longleftrightarrow> (\<forall>x. x \<notin> target_range t \<union> trampoline_range t \<longrightarrow> m' x = m x)"

definition target_kept :: "'e Arm64PatchInstallTransaction \<Rightarrow> memory \<Rightarrow> memory \<Rightarrow> bool" where
  "target_kept t m m' \<longleftrightarrow> (\<forall>x \<in> target_range t. m' x = m x)"

lemma effect_refl [simp]: "mem_effect t m m" "target_kept t m m"
  by (simp_all add: mem_effect_def target_kept_def)

lemma target_kept_bytes:
  "target_kept t (mem e) (mem e') \<longleftrightarrow> target_bytes mem t e' = target_bytes mem t e"
  by (simp add: target_kept_def target_bytes_def mem_read_eq_iff target_range_def)

lemma installTrampoline_effect:
  assumes "txn_contract mem t" "validPlan t" "backendComplete (txn_backend t)"
  shows "case installTrampoline t e of (ro, t', e') \<Rightarrow>
    mem_effect t (mem e) (mem e') \<and> target_kept t (mem e) (mem e') \<and>
    (case ro of
       None \<Rightarrow> t' = t \<and> (\<not> txn_usesPrecompiledTrampoline t \<longrightarrow>
         mem_read (mem e') (txn_trampolineAddress t) 36 = trampoline (txn_plan t))
     | Some r \<Rightarrow> t' = t\<lparr>txn_state := kFailed\<rparr> \<and> PatchInstallResult.state r = kFailed \<and>
         PatchInstallResult.status r \<in> {kTrampolineBindFailed, kTrampolineWriteFailed, kCacheSyncFailed})"
proof -
  note facts = validPlan_facts [OF assms(2)]
  have b: "backend_contract mem (txn_backend t)" "bind_contract mem (txn_precompiledTrampoline t)"
    using assms(1) by (simp_all add: txn_contract_def)
  note rules = write_rule [OF b(1) assms(3) _ facts(3)] keep_rules [OF b(1) assms(3)]
    bind_rule [OF b(2) facts(6)]
  show ?thesis
    by (auto simp: installTrampoline_def Let_def mem_effect_def target_kept_def
        trampoline_range_def dest!: rules dest: facts(7) split: prod.splits bool.splits if_splits)
qed

lemma automaticRollback_effect:
  assumes "txn_contract mem t" "validPlan t" "backendComplete (txn_backend t)"
  shows "case automaticRollback t e rm fm of (r, t', e') \<Rightarrow>
    mem_effect t (mem e) (mem e') \<and>
    (\<forall>x. x \<notin> target_range t \<longrightarrow> mem e' x = mem e x) \<and>
    same_setup t t' \<and> txn_revalidationBuffer t' = txn_revalidationBuffer t \<and>
    PatchInstallResult.state r = txn_state t' \<and>
    (PatchInstallResult.status r = kCommitRolledBack \<and> txn_state t' = kRolledBack \<and>
       target_bytes mem t e' = originalBytes (txn_plan t) \<or>
     PatchInstallResult.status r = kRollbackFailed \<and> txn_state t' = kFailed)"
proof -
  note facts = validPlan_facts [OF assms(2)]
  have b: "backend_contract mem (txn_backend t)"
    using assms(1) by (simp add: txn_contract_def)
  note rules = write_rule [OF b assms(3) _ facts(1)] keep_rules [OF b assms(3)]
  show ?thesis
    by (auto simp: automaticRollback_def Let_def mem_effect_def target_bytes_def target_range_def
        dest!: rules split: prod.splits bool.splits if_splits)
qed

text \<open>
  What the body of \<open>commit\<close> has done to memory, by outcome: nothing to the target
  unless the entry write was attempted, and then either the full patch or, after an
  automatic rollback, the original bytes.
\<close>

definition commit_post ::
  "('e \<Rightarrow> memory) \<Rightarrow> 'e Arm64PatchInstallTransaction \<Rightarrow> 'e \<Rightarrow> 'e outcome \<Rightarrow> bool" where
  "commit_post mem t e out \<longleftrightarrow>
     (case out of (r, t', e') \<Rightarrow>
        mem_effect t (mem e) (mem e') \<and> same_setup t t' \<and>
        PatchInstallResult.state r = txn_state t' \<and>
        (PatchInstallResult.status r = kOk \<longrightarrow>
           txn_state t' = kCommitted \<and> length (txn_revalidationBuffer t') = 16 \<and>
           target_bytes mem t e = originalBytes (txn_plan t) \<and>
           target_bytes mem t e' = entryPatch (txn_plan t) \<and>
           (\<not> txn_usesPrecompiledTrampoline t \<longrightarrow>
             mem_read (mem e') (txn_trampolineAddress t) 36 = trampoline (txn_plan t))) \<and>
        (PatchInstallResult.status r = kCommitRolledBack \<longrightarrow>
           txn_state t' = kRolledBack \<and>
           target_bytes mem t e = originalBytes (txn_plan t) \<and>
           target_bytes mem t e' = originalBytes (txn_plan t)) \<and>
        (PatchInstallResult.status r = kRollbackFailed \<longrightarrow>
           txn_state t' = kFailed \<and> target_bytes mem t e = originalBytes (txn_plan t)) \<and>
        (PatchInstallResult.status r \<notin> {kOk, kCommitRolledBack, kRollbackFailed} \<longrightarrow>
           txn_state t' = kFailed \<and>
           PatchInstallResult.status r \<in> {kReadFailed, kTargetMismatch, kTrampolineBindFailed,
               kTrampolineWriteFailed, kCacheSyncFailed, kPublishFailed} \<and>
           target_bytes mem t e' = target_bytes mem t e))"

lemma mem_effect_trans:
  "mem_effect t m1 m2 \<Longrightarrow> mem_effect t m2 m3 \<Longrightarrow> mem_effect t m1 m3"
  by (simp add: mem_effect_def)

lemma write_target_effect:
  assumes "\<forall>x. x \<notin> range_bytes (txn_targetAddress t) 16 \<longrightarrow> m' x = m x" "validPlan t"
  shows "mem_effect t m m'"
    "\<not> txn_usesPrecompiledTrampoline t \<Longrightarrow>
       mem_read m' (txn_trampolineAddress t) 36 = mem_read m (txn_trampolineAddress t) 36"
proof -
  show "mem_effect t m m'"
    using assms(1) by (auto simp: mem_effect_def target_range_def)
  assume "\<not> txn_usesPrecompiledTrampoline t"
  then show "mem_read m' (txn_trampolineAddress t) 36 = mem_read m (txn_trampolineAddress t) 36"
    using assms(1) validPlan_facts(7) [OF assms(2)]
    by (intro mem_read_cong) (auto simp: target_range_def trampoline_range_def)
qed

lemma setup_simps:
  "txn_contract mem (t\<lparr>txn_revalidationBuffer := b\<rparr>) = txn_contract mem t"
  "validPlan (t\<lparr>txn_revalidationBuffer := b\<rparr>) = validPlan t"
  "mem_effect (t\<lparr>txn_revalidationBuffer := b\<rparr>) = mem_effect t"
  "target_kept (t\<lparr>txn_revalidationBuffer := b\<rparr>) = target_kept t"
  "target_range (t\<lparr>txn_revalidationBuffer := b\<rparr>) = target_range t"
  "target_bytes mem (t\<lparr>txn_revalidationBuffer := b\<rparr>) = target_bytes mem t"
  using validPlan_cong [of t "t\<lparr>txn_revalidationBuffer := b\<rparr>"]
  by (auto simp: txn_contract_def fun_eq_iff mem_effect_def target_kept_def target_range_def
      trampoline_range_def target_bytes_def)

lemma rollback_after_entry:
  assumes "txn_contract mem t" "validPlan t" "backendComplete (txn_backend t)"
    and "\<forall>x. x \<notin> range_bytes (txn_targetAddress t) 16 \<longrightarrow> mem e1 x = mem e0 x"
    and "mem_effect t (mem e) (mem e0)" "target_bytes mem t e = originalBytes (txn_plan t)"
  shows "commit_post mem t e (automaticRollback t e1 rm fm)"
proof -
  obtain r t' e' where a: "automaticRollback t e1 rm fm = (r, t', e')"
    by (metis prod_cases3)
  have eff: "mem_effect t (mem e) (mem e1)"
    using mem_effect_trans [OF assms(5)] write_target_effect(1) [OF assms(4,2)] by blast
  then have "mem_effect t (mem e) (mem e')"
    using mem_effect_trans [OF eff] automaticRollback_effect [OF assms(1-3), of e1 rm fm] a by simp
  then show ?thesis
    using automaticRollback_effect [OF assms(1-3), of e1 rm fm] assms(6)
    unfolding a commit_post_def prod.case by auto
qed

lemma publishAndPatchEntry_post:
  assumes c: "txn_contract mem t" "validPlan t" "backendComplete (txn_backend t)"
    and len: "length (txn_revalidationBuffer t) = 16"
    and eff: "mem_effect t (mem e) (mem e2)" "target_bytes mem t e2 = target_bytes mem t e"
    and orig: "target_bytes mem t e = originalBytes (txn_plan t)"
    and tramp: "\<not> txn_usesPrecompiledTrampoline t \<Longrightarrow>
      mem_read (mem e2) (txn_trampolineAddress t) 36 = trampoline (txn_plan t)"
  shows "commit_post mem t e (publishAndPatchEntry t e2)"
proof -
  let ?b = "txn_backend t" and ?a = "txn_targetAddress t" and ?p = "txn_plan t"
  have bc: "backend_contract mem ?b"
    using c(1) by (simp add: txn_contract_def)
  note keep = keep_rules [OF bc c(3)]
  obtain pk e3 where pu: "the (publishOriginalTrampoline ?b) e2 (txn_trampolineAddress t) = (pk, e3)"
    by (metis surj_pair)
  obtain wk e4 where we: "the (writeMemory ?b) e3 ?a (entryPatch ?p) = (wk, e4)"
    by (metis surj_pair)
  obtain sk e5 where sy: "the (synchronizeInstructionCache ?b) e4 ?a 16 = (sk, e5)"
    by (metis surj_pair)
  have m: "mem e3 = mem e2" "mem e5 = mem e4"
    using keep pu sy by auto
  note w = write_rule [OF bc c(3) we validPlan_facts(2) [OF c(2)]]
  note red = publishAndPatchEntry_def Let_def pu we sy validPlan_facts(2) [OF c(2)]
  have rolled: "commit_post mem t e (automaticRollback t e' rm fm)" if "e' = e4 \<or> e' = e5" for e' rm fm
    by (rule rollback_after_entry [OF c _ eff(1) orig]) (use that w m in auto)
  have full: "mem_effect t (mem e) (mem e5)"
    using mem_effect_trans [OF eff(1)] write_target_effect(1) [OF _ c(2)] w m by metis
  consider "\<not> pk" | "pk" "\<not> wk \<or> \<not> sk" | "pk" "wk" "sk"
    by blast
  then show ?thesis
  proof cases
    case 1
    with eff m show ?thesis
      by (simp add: red commit_post_def target_bytes_def)
  next
    case 2
    with rolled show ?thesis
      by (cases wk) (auto simp: red)
  next
    case 3
    with tramp w m orig full len write_target_effect(2) [OF _ c(2), of "mem e5" "mem e2"]
    show ?thesis
      by (auto simp: red commit_post_def target_bytes_def)
  qed
qed

lemma commit_post_buffer:
  "commit_post mem (t\<lparr>txn_revalidationBuffer := b\<rparr>) e out = commit_post mem t e out"
  by (simp add: commit_post_def setup_simps)

lemma commitInside_post:
  assumes c: "txn_contract mem t" "validPlan t" "backendComplete (txn_backend t)"
    and len: "length (txn_revalidationBuffer t) = 16"
  shows "commit_post mem t e (commitInside t e)"
proof -
  have bc: "backend_contract mem (txn_backend t)"
    using c(1) by (simp add: txn_contract_def)
  obtain ok w e1 where rd: "the (readMemory (txn_backend t)) e (txn_targetAddress t) 16 = (ok, w, e1)"
    by (metis prod_cases3)
  define buf where "buf = storeInto (txn_revalidationBuffer t) w"
  have m1: "mem e1 = mem e" and buf: "ok \<Longrightarrow> buf = target_bytes mem t e"
    using read_rule [OF bc c(3) rd] len by (simp_all add: target_bytes_def buf_def)
  let ?t = "t\<lparr>txn_revalidationBuffer := buf\<rparr>"
  obtain ro t2 e2 where it: "installTrampoline ?t e1 = (ro, t2, e2)"
    by (metis prod_cases3)
  note eff = installTrampoline_effect [of mem ?t e1, unfolded it prod.case m1, simplified setup_simps]
  have tail: "commit_post mem ?t e (publishAndPatchEntry ?t e2)"
    if "ok" "buf = originalBytes (txn_plan t)" "ro = None"
    using that c buf eff validPlan_facts(1) [OF c(2)]
    by (intro publishAndPatchEntry_post) (auto simp: setup_simps target_kept_bytes)
  show ?thesis
  proof (cases "ok \<and> buf = originalBytes (txn_plan t)")
    case False
    then show ?thesis
      using m1 by (auto simp: commitInside_def Let_def len rd commit_post_def target_bytes_def
          simp flip: buf_def)
  next
    case True
    then have "commitInside t e =
        (case ro of Some r \<Rightarrow> (r, t2, e2) | None \<Rightarrow> publishAndPatchEntry t2 e2)"
      using it by (cases ro) (auto simp: commitInside_def Let_def len rd simp flip: buf_def)
    then show ?thesis
      using True eff c tail unfolding commit_post_buffer
      by (cases ro) (auto simp: commit_post_def target_kept_bytes)
  qed
qed

lemma finishExclusive_effect:
  assumes "backend_contract mem (txn_backend t')" "backendComplete (txn_backend t')"
    and "finishExclusive msg (r, t', e') = (r2, t2, e2)"
  shows "mem e2 = mem e'" "same_setup t' t2"
    "txn_revalidationBuffer t2 = txn_revalidationBuffer t'"
    "r2 = r \<and> t2 = t' \<or>
     PatchInstallResult.status r2 = kCoordinationReleaseFailed \<and>
     PatchInstallResult.state r2 = kFailed \<and> txn_state t2 = kFailed"
proof -
  note rules = keep_rules [OF assms(1,2)]
  have "case finishExclusive msg (r, t', e') of (r2, t2, e2) \<Rightarrow>
    mem e2 = mem e' \<and> same_setup t' t2 \<and>
    txn_revalidationBuffer t2 = txn_revalidationBuffer t' \<and>
    (r2 = r \<and> t2 = t' \<or>
     PatchInstallResult.status r2 = kCoordinationReleaseFailed \<and>
     PatchInstallResult.state r2 = kFailed \<and> txn_state t2 = kFailed)"
    by (auto simp: finishExclusive_def Let_def dest!: rules split: prod.splits bool.splits)
  with assms(3) show "mem e2 = mem e'" "same_setup t' t2"
    "txn_revalidationBuffer t2 = txn_revalidationBuffer t'"
    "r2 = r \<and> t2 = t' \<or>
     PatchInstallResult.status r2 = kCoordinationReleaseFailed \<and>
     PatchInstallResult.state r2 = kFailed \<and> txn_state t2 = kFailed"
    by simp_all
qed

lemma prepared_facts:
  assumes "txn_inv t" "txn_state t \<in> {kPrepared, kCommitted}"
  shows "validPlan t" "backendComplete (txn_backend t)" "length (txn_revalidationBuffer t) = 16"
  using assms by (auto simp: txn_inv_def)

lemma commit_from_inside:
  assumes "txn_contract mem t" "txn_inv t" "txn_state t = kPrepared" "commit t e = (r, t', e')"
  shows "mem e' = mem e \<and> t' = t \<and> PatchInstallResult.status r = kCoordinationFailed \<or>
    (\<exists>e1 r2 t2 e2. mem e1 = mem e \<and> commitInside t e1 = (r2, t2, e2) \<and>
       commit_post mem t e1 (r2, t2, e2) \<and> mem e' = mem e2 \<and> same_setup t2 t' \<and>
       txn_revalidationBuffer t' = txn_revalidationBuffer t2 \<and>
       (r = r2 \<and> t' = t2 \<or>
        PatchInstallResult.status r = kCoordinationReleaseFailed \<and>
        PatchInstallResult.state r = kFailed \<and> txn_state t' = kFailed))"
proof -
  have p: "validPlan t" "backendComplete (txn_backend t)" "length (txn_revalidationBuffer t) = 16"
    using prepared_facts [OF assms(2)] assms(3) by simp_all
  have b: "backend_contract mem (txn_backend t)"
    using assms(1) by (simp add: txn_contract_def)
  obtain ok e1 where en: "the (enterExclusiveWindow (txn_backend t)) e = (ok, e1)"
    by (metis surj_pair)
  have m: "mem e1 = mem e"
    using keep_rules(2) [OF b p(2) en] .
  obtain r2 t2 e2 where ci: "commitInside t e1 = (r2, t2, e2)"
    by (metis prod_cases3)
  have post: "commit_post mem t e1 (r2, t2, e2)"
    using commitInside_post [OF assms(1) p, of e1] ci by simp
  then have "same_setup t t2"
    by (simp add: commit_post_def)
  then have b2: "backend_contract mem (txn_backend t2)" "backendComplete (txn_backend t2)"
    using b p by (simp_all add: same_setup_def)
  show ?thesis
  proof (cases ok)
    case True
    then have "finishExclusive ''exclusive patch window could not release every peer thread''
        (r2, t2, e2) = (r, t', e')"
      using assms(3,4) en ci by (simp add: commit_def)
    from finishExclusive_effect [OF b2 this] show ?thesis
      using m ci post by blast
  next
    case False
    then show ?thesis
      using assms(3,4) en m by (auto simp: commit_def)
  qed
qed

text \<open>The properties of \<open>commit\<close> that its callers rely on.\<close>

lemma commit_memory:
  assumes "txn_contract mem t" "txn_inv t" "txn_state t = kPrepared" "commit t e = (r, t', e')"
  shows "mem_effect t (mem e) (mem e')"
    "PatchInstallResult.status r = kOk \<Longrightarrow>
       txn_state t' = kCommitted \<and>
       target_bytes mem t e = originalBytes (txn_plan t) \<and>
       target_bytes mem t e' = entryPatch (txn_plan t) \<and>
       (\<not> txn_usesPrecompiledTrampoline t \<longrightarrow>
         mem_read (mem e') (txn_trampolineAddress t) 36 = trampoline (txn_plan t))"
      (is "_ \<Longrightarrow> ?committed")
    "PatchInstallResult.status r \<notin> {kOk, kRollbackFailed, kCoordinationReleaseFailed} \<Longrightarrow>
       target_bytes mem t e' = target_bytes mem t e"
proof -
  from commit_from_inside [OF assms]
  consider (refused) "mem e' = mem e" "PatchInstallResult.status r = kCoordinationFailed"
    | (inside) e1 r2 t2 e2 where "mem e1 = mem e" "commit_post mem t e1 (r2, t2, e2)" "mem e' = mem e2"
        "r = r2 \<and> t' = t2 \<or> PatchInstallResult.status r = kCoordinationReleaseFailed"
    by blast
  then have "mem_effect t (mem e) (mem e') \<and> (PatchInstallResult.status r = kOk \<longrightarrow> ?committed) \<and>
    (PatchInstallResult.status r \<notin> {kOk, kRollbackFailed, kCoordinationReleaseFailed} \<longrightarrow>
       target_bytes mem t e' = target_bytes mem t e)"
  proof cases
    case refused
    then show ?thesis
      by (simp add: target_bytes_def)
  next
    case inside
    then show ?thesis
      by (elim disjE) (auto simp: commit_post_def target_bytes_def)
  qed
  then show "mem_effect t (mem e) (mem e')"
    "PatchInstallResult.status r = kOk \<Longrightarrow> ?committed"
    "PatchInstallResult.status r \<notin> {kOk, kRollbackFailed, kCoordinationReleaseFailed} \<Longrightarrow>
       target_bytes mem t e' = target_bytes mem t e"
    by blast+
qed

lemma rollbackInside_effect:
  assumes c: "txn_contract mem t" "validPlan t" "backendComplete (txn_backend t)"
    and len: "length (txn_revalidationBuffer t) = 16"
  shows "case rollbackInside t e of (r, t', e') \<Rightarrow>
    (\<forall>x. x \<notin> target_range t \<longrightarrow> mem e' x = mem e x) \<and> same_setup t t' \<and>
    PatchInstallResult.state r = txn_state t' \<and>
    (PatchInstallResult.status r = kOk \<longrightarrow> txn_state t' = kRolledBack \<and>
       target_bytes mem t e = entryPatch (txn_plan t) \<and>
       target_bytes mem t e' = originalBytes (txn_plan t)) \<and>
    (PatchInstallResult.status r \<in> {kReadFailed, kRollbackTargetMismatch} \<longrightarrow> mem e' = mem e) \<and>
    (PatchInstallResult.status r = kReadFailed \<longrightarrow> txn_state t' = txn_state t) \<and>
    PatchInstallResult.status r \<in> {kOk, kReadFailed, kRollbackTargetMismatch,
      kRollbackWriteFailed, kRollbackFailed}"
proof -
  have b: "backend_contract mem (txn_backend t)"
    using c(1) by (simp add: txn_contract_def)
  note rules = write_rule [OF b c(3) _ validPlan_facts(1) [OF c(2)]] keep_rules [OF b c(3)]
    read_rule [OF b c(3)]
  show ?thesis
    by (auto simp: rollbackInside_def Let_def target_bytes_def target_range_def len
        dest!: rules split: prod.splits bool.splits if_splits)
qed

lemma rollback_from_inside:
  assumes "txn_contract mem t" "txn_inv t" "txn_state t = kCommitted" "rollback t e = (r, t', e')"
  shows "(\<forall>x. x \<notin> target_range t \<longrightarrow> mem e' x = mem e x) \<and> same_setup t t' \<and>
    (PatchInstallResult.status r = kOk \<longrightarrow> txn_state t' = kRolledBack \<and>
       target_bytes mem t e = entryPatch (txn_plan t) \<and>
       target_bytes mem t e' = originalBytes (txn_plan t)) \<and>
    (PatchInstallResult.status r \<in> {kCoordinationFailed, kReadFailed, kRollbackTargetMismatch} \<longrightarrow>
       mem e' = mem e)"
proof -
  have p: "validPlan t" "backendComplete (txn_backend t)" "length (txn_revalidationBuffer t) = 16"
    using prepared_facts [OF assms(2)] assms(3) by simp_all
  have b: "backend_contract mem (txn_backend t)"
    using assms(1) by (simp add: txn_contract_def)
  obtain ok e1 where en: "the (enterExclusiveWindow (txn_backend t)) e = (ok, e1)"
    by (metis surj_pair)
  have m: "mem e1 = mem e"
    using keep_rules(2) [OF b p(2) en] .
  obtain r2 t2 e2 where ri: "rollbackInside t e1 = (r2, t2, e2)"
    by (metis prod_cases3)
  note eff = rollbackInside_effect [OF assms(1) p, of e1, unfolded ri prod.case]
  then have "same_setup t t2"
    by simp
  then have b2: "backend_contract mem (txn_backend t2)" "backendComplete (txn_backend t2)"
    using b p by (simp_all add: same_setup_def)
  show ?thesis
  proof (cases ok)
    case True
    then have "finishExclusive ''exclusive rollback window could not release every peer thread''
        (r2, t2, e2) = (r, t', e')"
      using assms(3,4) en ri by (simp add: rollback_def)
    note fin = finishExclusive_effect [OF b2 this]
    show ?thesis
      using fin(4) eff m fin(1,2) by (elim disjE) (auto simp: target_bytes_def same_setup_def)
  next
    case False
    then show ?thesis
      using assms(3,4) en m by (auto simp: rollback_def)
  qed
qed

lemma prepare_effect:
  assumes "txn_contract mem t" "prepare t e = (r, t', e')"
  shows "mem e' = mem e \<and> same_setup t t' \<and> PatchInstallResult.state r = txn_state t' \<and>
    (PatchInstallResult.status r = kOk \<longrightarrow>
       txn_state t = kEmpty \<and> txn_state t' = kPrepared \<and> txn_inv t' \<and>
       target_bytes mem t e = originalBytes (txn_plan t))"
proof -
  have b: "backend_contract mem (txn_backend t)"
    using assms(1) by (simp add: txn_contract_def)
  have vp: "validPlan (t\<lparr>txn_revalidationBuffer := x, txn_state := y\<rparr>) = validPlan t" for x y
    by (rule validPlan_cong) simp
  show ?thesis
  proof (cases "validPlan t \<and> backendComplete (txn_backend t) \<and> txn_state t = kEmpty")
    case True
    then have bc: "backendComplete (txn_backend t)"
      by simp
    then show ?thesis
      using True assms(2) validPlan_facts(1,4) [of t]
      by (auto simp: prepare_def Let_def txn_inv_def vp target_bytes_def
          dest!: read_rule [OF b bc] split: prod.splits if_splits)
  next
    case False
    then show ?thesis
      using assms(2) by (auto simp: prepare_def Let_def split: if_splits)
  qed
qed

end
