(* ===== verification/Patch_Discipline.thy ===== *)
theory Patch_Discipline
  imports Patch_Transaction
begin

text \<open>
  The order in which the install transaction drives its backend.  The backend is wrapped
  so that every callback also appends an event to a log; the log is then judged by an
  automaton that knows whether the exclusive window is held and whether the trampoline has
  been published.  The step relation of the whole object (any call, in any order, with any
  answers of the callbacks) is an inductive predicate, and its reachable states satisfy
  the class invariant.
\<close>

section \<open>The event log and its automaton\<close>

datatype backend_event =
    EvRead uintptr nat bool
  | EvWrite uintptr bytes bool
  | EvSync uintptr nat bool
  | EvEnter bool
  | EvLeave bool
  | EvPublish uintptr bool
  | EvBind uintptr bool

type_synonym 'e logged = "'e \<times> backend_event list"

definition logging :: "('e \<Rightarrow> bool \<times> 'e) \<Rightarrow> (bool \<Rightarrow> backend_event) \<Rightarrow> 'e logged \<Rightarrow> bool \<times> 'e logged"
  where "logging f ev s = (case f (fst s) of (ok, e) \<Rightarrow> (ok, (e, snd s @ [ev ok])))"

definition logged_backend :: "'e PatchInstallBackend \<Rightarrow> 'e logged PatchInstallBackend" where
  "logged_backend b =
     \<lparr>readMemory = map_option (\<lambda>rd s a n. case rd (fst s) a n of
          (ok, buf, e) \<Rightarrow> (ok, buf, (e, snd s @ [EvRead a n ok]))) (readMemory b),
      writeMemory = map_option (\<lambda>wr s a bs. logging (\<lambda>e. wr e a bs) (EvWrite a bs) s) (writeMemory b),
      synchronizeInstructionCache =
        map_option (\<lambda>sy s a n. logging (\<lambda>e. sy e a n) (EvSync a n) s) (synchronizeInstructionCache b),
      enterExclusiveWindow = map_option (\<lambda>en. logging en EvEnter) (enterExclusiveWindow b),
      leaveExclusiveWindow = map_option (\<lambda>le. logging le EvLeave) (leaveExclusiveWindow b),
      publishOriginalTrampoline =
        map_option (\<lambda>pu s a. logging (\<lambda>e. pu e a) (EvPublish a) s) (publishOriginalTrampoline b)\<rparr>"

definition logged_precompiled ::
  "'e PrecompiledArm64Trampoline \<Rightarrow> 'e logged PrecompiledArm64Trampoline" where
  "logged_precompiled p =
     \<lparr>entryAddress = entryAddress p, codeSize = codeSize p,
      relocatedOriginalBytes = relocatedOriginalBytes p,
      bindResumeAddress =
        map_option (\<lambda>bi s a. logging (\<lambda>e. bi e a) (EvBind a) s) (bindResumeAddress p)\<rparr>"

text \<open>
  \<open>audit_step target (inside, published)\<close>: a window is entered only when it is not
  held; writes, cache maintenance, publication and binding need the window; the target is
  written only when the trampoline has been published; a window that could not be left
  still counts as held.
\<close>

fun audit_step :: "uintptr \<Rightarrow> backend_event \<Rightarrow> bool \<times> bool \<Rightarrow> (bool \<times> bool) option" where
  "audit_step target (EvRead a n ok) (ins, pub) = Some (ins, pub)"
| "audit_step target (EvWrite a bs ok) (ins, pub) =
     (if ins \<and> (a = target \<longrightarrow> pub) then Some (ins, pub) else None)"
| "audit_step target (EvSync a n ok) (ins, pub) = (if ins then Some (ins, pub) else None)"
| "audit_step target (EvEnter ok) (ins, pub) = (if ins then None else Some (ok, pub))"
| "audit_step target (EvLeave ok) (ins, pub) = (if ins then Some (\<not> ok, pub) else None)"
| "audit_step target (EvPublish a ok) (ins, pub) = (if ins then Some (ins, pub \<or> ok) else None)"
| "audit_step target (EvBind a ok) (ins, pub) = (if ins then Some (ins, pub) else None)"

definition audit :: "uintptr \<Rightarrow> backend_event list \<Rightarrow> (bool \<times> bool) option" where
  "audit target log =
     fold (\<lambda>ev st. Option.bind st (audit_step target ev)) log (Some (False, False))"

lemma audit_Nil [simp]: "audit target [] = Some (False, False)"
  by (simp add: audit_def)

lemma audit_append [simp]:
  "audit target (log @ evs) =
     fold (\<lambda>ev st. Option.bind st (audit_step target ev)) evs (audit target log)"
  by (simp add: audit_def)


section \<open>The discipline of one call\<close>

definition logged_txn :: "'e logged Arm64PatchInstallTransaction \<Rightarrow> bool" where
  "logged_txn t \<longleftrightarrow>
     (\<exists>b p. txn_backend t = logged_backend b \<and> txn_precompiledTrampoline t = logged_precompiled p)"

text \<open>
  Each logged callback appends its own event and nothing else; \<open>log_of\<close> is the log
  component of the environment.
\<close>

abbreviation log_of :: "'e logged \<Rightarrow> backend_event list" where
  "log_of s \<equiv> snd s"

lemma logged_rules:
  assumes "backendComplete (logged_backend b)"
  shows "the (readMemory (logged_backend b)) s a n = (ok, buf, s') \<Longrightarrow> log_of s' = log_of s @ [EvRead a n ok]"
    "the (writeMemory (logged_backend b)) s a bs = (ok, s') \<Longrightarrow> log_of s' = log_of s @ [EvWrite a bs ok]"
    "the (synchronizeInstructionCache (logged_backend b)) s a n = (ok, s') \<Longrightarrow> log_of s' = log_of s @ [EvSync a n ok]"
    "the (enterExclusiveWindow (logged_backend b)) s = (ok, s') \<Longrightarrow> log_of s' = log_of s @ [EvEnter ok]"
    "the (leaveExclusiveWindow (logged_backend b)) s = (ok, s') \<Longrightarrow> log_of s' = log_of s @ [EvLeave ok]"
    "the (publishOriginalTrampoline (logged_backend b)) s a = (ok, s') \<Longrightarrow> log_of s' = log_of s @ [EvPublish a ok]"
  using assms
  by (auto simp: backendComplete_def logged_backend_def logging_def split: prod.splits)

lemma logged_bind_rule:
  assumes "bindResumeAddress (logged_precompiled p) \<noteq> None"
    "the (bindResumeAddress (logged_precompiled p)) s a = (ok, s')"
  shows "log_of s' = log_of s @ [EvBind a ok]"
  using assms by (auto simp: logged_precompiled_def logging_def split: prod.splits)

lemma validPlan_distinct:
  assumes "validPlan t" "\<not> txn_usesPrecompiledTrampoline t"
  shows "txn_trampolineAddress t \<noteq> txn_targetAddress t"
proof
  assume "txn_trampolineAddress t = txn_targetAddress t"
  moreover have "a \<in> range_bytes a (Suc n)" for a n
    by (auto simp: range_bytes_def intro!: exI [of _ 0])
  ultimately show False
    using validPlan_facts(7) [OF assms(1), of "txn_targetAddress t"] assms(2)
    by (metis (no_types) target_range_def trampoline_range_def numeral_eq_Suc)
qed

text \<open>A call keeps the discipline when it turns a sound log into a sound log.\<close>

definition sound_inside :: "'e logged Arm64PatchInstallTransaction \<Rightarrow> bool \<Rightarrow> 'e logged \<Rightarrow> bool" where
  "sound_inside t pub s \<longleftrightarrow> audit (txn_targetAddress t) (log_of s) = Some (True, pub)"

lemma automaticRollback_audit:
  assumes "txn_backend t = logged_backend b" "backendComplete (txn_backend t)" "sound_inside t True s"
  shows "case automaticRollback t s rm fm of (r, t', s') \<Rightarrow>
    same_setup t t' \<and> txn_state t' \<in> {kRolledBack, kFailed} \<and> sound_inside t True s'"
proof -
  note rules = logged_rules [OF assms(2) [unfolded assms(1)]]
  show ?thesis
    using assms(3)
    by (auto simp: automaticRollback_def assms(1) Let_def sound_inside_def same_setup_def
        dest!: rules split: prod.splits if_splits)
qed

lemma installTrampoline_audit:
  assumes "txn_backend t = logged_backend b" "txn_precompiledTrampoline t = logged_precompiled p"
    "backendComplete (txn_backend t)" "validPlan t" "sound_inside t pub s"
  shows "case installTrampoline t s of (ro, t', s') \<Rightarrow>
    sound_inside t pub s' \<and> t' = (case ro of None \<Rightarrow> t | Some _ \<Rightarrow> t\<lparr>txn_state := kFailed\<rparr>)"
proof -
  note rules = logged_rules [OF assms(3) [unfolded assms(1)]]
    logged_bind_rule [OF validPlan_facts(6) [OF assms(4), unfolded assms(2)]]
  show ?thesis
    using assms(5) validPlan_distinct [OF assms(4)]
    by (auto simp: installTrampoline_def assms(1,2) Let_def sound_inside_def
        dest!: rules split: prod.splits bool.splits)
qed

lemma publishAndPatchEntry_audit:
  assumes "txn_backend t = logged_backend b" "backendComplete (txn_backend t)" "sound_inside t pub s"
  shows "case publishAndPatchEntry t s of (r, t', s') \<Rightarrow>
    same_setup t t' \<and> txn_state t' \<in> {kCommitted, kRolledBack, kFailed} \<and>
    (txn_state t' = kCommitted \<longrightarrow> t' = t\<lparr>txn_state := kCommitted\<rparr>) \<and>
    (\<exists>pub'. sound_inside t pub' s' \<and> (txn_state t' = kCommitted \<longrightarrow> pub'))"
proof -
  note rules = logged_rules [OF assms(2) [unfolded assms(1)]]
  have rolled: "case automaticRollback t s' rm fm of (r, t', s'') \<Rightarrow>
      same_setup t t' \<and> txn_state t' \<in> {kRolledBack, kFailed} \<and> sound_inside t True s''"
    if "sound_inside t True s'" for s' rm fm
    using automaticRollback_audit [OF assms(1,2) that] .
  obtain pk s1 where pu: "the (publishOriginalTrampoline (logged_backend b)) s (txn_trampolineAddress t) = (pk, s1)"
    by (metis surj_pair)
  obtain wk s2 where we: "the (writeMemory (logged_backend b)) s1 (txn_targetAddress t) (entryPatch (txn_plan t)) = (wk, s2)"
    by (metis surj_pair)
  obtain sk s3 where sy: "the (synchronizeInstructionCache (logged_backend b)) s2 (txn_targetAddress t)
      (length (entryPatch (txn_plan t))) = (sk, s3)"
    by (metis surj_pair)
  have snd: "sound_inside t (pub \<or> pk) s1" "pk \<Longrightarrow> sound_inside t True s2" "pk \<Longrightarrow> sound_inside t True s3"
    using assms(3) rules(6) [OF pu] rules(2) [OF we] rules(3) [OF sy]
    by (simp_all add: sound_inside_def)
  note red = publishAndPatchEntry_def assms(1) Let_def pu we sy
  consider "\<not> pk" | "pk" "\<not> wk" | "pk" "wk" "\<not> sk" | "pk" "wk" "sk"
    by blast
  then show ?thesis
  proof cases
    case 1
    with snd(1) show ?thesis
      by (auto simp: red)
  next
    case 2
    with rolled [OF snd(2)] show ?thesis
      by (fastforce simp: red split: prod.splits)
  next
    case 3
    with rolled [OF snd(3)] show ?thesis
      by (fastforce simp: red split: prod.splits)
  next
    case 4
    with snd(3) show ?thesis
      by (auto simp: red)
  qed
qed

text \<open>
  What one of the two bodies behind a successful \<open>enter\<close> leaves behind: the same
  setup, a buffer of unchanged size and a sound log, with the trampoline published
  whenever the object ends up committed.
\<close>

definition body_post ::
  "'e logged Arm64PatchInstallTransaction \<Rightarrow> PatchInstallState set \<Rightarrow> 'e logged outcome \<Rightarrow> bool" where
  "body_post t states out \<longleftrightarrow>
     (case out of (r, t', s') \<Rightarrow>
        same_setup t t' \<and> txn_state t' \<in> states \<and>
        length (txn_revalidationBuffer t') = length (txn_revalidationBuffer t) \<and>
        (\<exists>pub. sound_inside t pub s' \<and> (txn_state t' = kCommitted \<longrightarrow> pub)))"

lemma sound_inside_update [simp]:
  "sound_inside (t\<lparr>txn_revalidationBuffer := b\<rparr>) = sound_inside t"
  "sound_inside (t\<lparr>txn_state := x\<rparr>) = sound_inside t"
  by (simp_all add: sound_inside_def fun_eq_iff)

lemma automaticRollback_buffer:
  "automaticRollback t s rm fm = (r, t', s') \<Longrightarrow> txn_revalidationBuffer t' = txn_revalidationBuffer t"
  by (auto simp: automaticRollback_def Let_def split: prod.splits if_splits)

lemma publishAndPatchEntry_buffer:
  "publishAndPatchEntry t s = (r, t', s') \<Longrightarrow> txn_revalidationBuffer t' = txn_revalidationBuffer t"
  by (auto simp: publishAndPatchEntry_def Let_def dest: automaticRollback_buffer
      split: prod.splits bool.splits)

lemma publishAndPatchEntry_body:
  assumes "txn_backend t = logged_backend b" "backendComplete (txn_backend t)" "sound_inside t pub s"
  shows "body_post t {kCommitted, kRolledBack, kFailed} (publishAndPatchEntry t s)"
proof -
  obtain r t' s' where a: "publishAndPatchEntry t s = (r, t', s')"
    by (metis prod_cases3)
  then show ?thesis
    using publishAndPatchEntry_audit [OF assms] publishAndPatchEntry_buffer [OF a]
    by (simp add: body_post_def)
qed

lemma storeInto_length_eq: "storeInto b w = c \<Longrightarrow> length c = length b"
  by auto

lemma commitInside_body:
  assumes "txn_backend t = logged_backend b" "txn_precompiledTrampoline t = logged_precompiled p"
    "backendComplete (txn_backend t)" "validPlan t" "sound_inside t pub s"
  shows "body_post t {kCommitted, kRolledBack, kFailed} (commitInside t s)"
proof -
  obtain ok w s1 where rd: "the (readMemory (txn_backend t)) s (txn_targetAddress t)
      (length (txn_revalidationBuffer t)) = (ok, w, s1)"
    by (metis prod_cases3)
  let ?buf = "storeInto (txn_revalidationBuffer t) w"
  let ?t = "t\<lparr>txn_revalidationBuffer := ?buf\<rparr>"
  have s1: "sound_inside ?t pub s1"
    using assms(1,3,5) logged_rules(1) [of b s] rd by (auto simp: sound_inside_def)
  obtain ro t2 s2 where it: "installTrampoline ?t s1 = (ro, t2, s2)"
    by (metis prod_cases3)
  have inst: "sound_inside t pub s2 \<and>
      t2 = (case ro of None \<Rightarrow> ?t | Some _ \<Rightarrow> ?t\<lparr>txn_state := kFailed\<rparr>)"
    using installTrampoline_audit [of ?t b p pub s1] assms s1 it by (simp add: setup_simps)
  then have "body_post ?t {kCommitted, kRolledBack, kFailed} (publishAndPatchEntry ?t s2)"
    using assms by (intro publishAndPatchEntry_body) auto
  then have "body_post t {kCommitted, kRolledBack, kFailed} (publishAndPatchEntry ?t s2)"
    by (simp add: body_post_def)
  then show ?thesis
    using s1 inst it
    by (cases ro) (auto simp: commitInside_def Let_def rd body_post_def dest: storeInto_length_eq)
qed

lemma rollbackInside_body:
  assumes "txn_backend t = logged_backend b" "backendComplete (txn_backend t)"
    "sound_inside t True s" "txn_state t = kCommitted"
  shows "body_post t {kCommitted, kRolledBack, kFailed} (rollbackInside t s)"
proof -
  note rules = logged_rules [OF assms(2) [unfolded assms(1)]]
  show ?thesis
    using assms(3,4)
    by (auto simp: rollbackInside_def assms(1) Let_def body_post_def sound_inside_def same_setup_def
        dest!: rules dest: storeInto_length_eq split: prod.splits bool.splits if_splits)
qed



section \<open>The object as a state machine\<close>

text \<open>
  One step is one call of a public method; the answers of the callbacks are whatever the
  backend, an arbitrary function of the environment, returns.
\<close>

inductive txn_step ::
  "'e Arm64PatchInstallTransaction \<times> 'e \<Rightarrow> 'e Arm64PatchInstallTransaction \<times> 'e \<Rightarrow> bool" where
  step_prepare: "prepare t e = (r, t', e') \<Longrightarrow> txn_step (t, e) (t', e')"
| step_commit: "commit t e = (r, t', e') \<Longrightarrow> txn_step (t, e) (t', e')"
| step_rollback: "rollback t e = (r, t', e') \<Longrightarrow> txn_step (t, e) (t', e')"

inductive_cases txn_stepE: "txn_step (t, e) (t', e')"

definition disciplined ::
  "uintptr \<Rightarrow> 'e logged Arm64PatchInstallTransaction \<Rightarrow> 'e logged \<Rightarrow> bool" where
  "disciplined target t s \<longleftrightarrow>
     logged_txn t \<and> txn_targetAddress t = target \<and> txn_inv t \<and>
     (\<exists>ins pub. audit target (log_of s) = Some (ins, pub) \<and>
        (txn_state t \<in> {kEmpty, kPrepared, kCommitted} \<longrightarrow> \<not> ins) \<and>
        (txn_state t = kCommitted \<longrightarrow> pub))"

lemma txn_inv_same_setup:
  assumes "same_setup t t'" "validPlan t" "backendComplete (txn_backend t)"
    "length (txn_revalidationBuffer t') = 16"
  shows "txn_inv t'"
  using assms validPlan_cong [OF assms(1)] by (simp add: txn_inv_def same_setup_def)

lemma logged_txn_same_setup: "same_setup t t' \<Longrightarrow> logged_txn t \<Longrightarrow> logged_txn t'"
  by (simp add: same_setup_def logged_txn_def)

lemma finishExclusive_disciplined:
  assumes "logged_txn t" "validPlan t" "backendComplete (txn_backend t)"
    "length (txn_revalidationBuffer t) = 16"
    "body_post t {kCommitted, kRolledBack, kFailed} out"
    "finishExclusive msg out = (r, t', s')"
  shows "disciplined (txn_targetAddress t) t' s'"
proof -
  obtain r1 t1 s1 where out: "out = (r1, t1, s1)"
    by (metis prod_cases3)
  obtain b where b: "txn_backend t = logged_backend b"
    using assms(1) by (auto simp: logged_txn_def)
  obtain pub where post: "same_setup t t1" "length (txn_revalidationBuffer t1) = 16"
      "sound_inside t pub s1" "txn_state t1 = kCommitted \<longrightarrow> pub"
      "txn_state t1 \<in> {kCommitted, kRolledBack, kFailed}"
    using assms(4,5) by (auto simp: out body_post_def)
  have b1: "txn_backend t1 = logged_backend b"
    using post(1) b by (simp add: same_setup_def)
  note rules = logged_rules(5) [OF assms(3) [unfolded b]]
  have "case finishExclusive msg (r1, t1, s1) of (r, t', s') \<Rightarrow>
      same_setup t t' \<and> length (txn_revalidationBuffer t') = 16 \<and>
      (\<exists>ins pub. audit (txn_targetAddress t) (log_of s') = Some (ins, pub) \<and>
        (txn_state t' \<in> {kEmpty, kPrepared, kCommitted} \<longrightarrow> \<not> ins) \<and>
        (txn_state t' = kCommitted \<longrightarrow> pub))"
    using post
    by (auto simp: finishExclusive_def b1 Let_def sound_inside_def
        dest!: rules split: prod.splits bool.splits)
  then have t': "same_setup t t'" "length (txn_revalidationBuffer t') = 16"
      "\<exists>ins pub. audit (txn_targetAddress t) (log_of s') = Some (ins, pub) \<and>
        (txn_state t' \<in> {kEmpty, kPrepared, kCommitted} \<longrightarrow> \<not> ins) \<and>
        (txn_state t' = kCommitted \<longrightarrow> pub)"
    using assms(6) unfolding out by simp_all
  have "txn_inv t'" "logged_txn t'" "txn_targetAddress t' = txn_targetAddress t"
    using txn_inv_same_setup [OF t'(1) assms(2,3) t'(2)] logged_txn_same_setup [OF t'(1) assms(1)] t'(1)
    by (simp_all add: same_setup_def)
  with t'(3) show ?thesis
    by (simp add: disciplined_def)
qed

lemma prepare_disciplined:
  assumes "disciplined target t s" "prepare t s = (r, t', s')"
  shows "disciplined target t' s'"
proof -
  obtain b where b: "txn_backend t = logged_backend b"
    using assms(1) by (auto simp: disciplined_def logged_txn_def)
  have vp: "validPlan (t\<lparr>txn_revalidationBuffer := x, txn_state := y\<rparr>) = validPlan t" for x y
    by (rule validPlan_cong) simp
  have lg: "logged_txn (t\<lparr>txn_revalidationBuffer := x, txn_state := y\<rparr>)"
    "logged_txn (t\<lparr>txn_state := y\<rparr>)" for x y
    using assms(1) by (simp_all add: disciplined_def logged_txn_def)
  show ?thesis
  proof (cases "txn_state t = kEmpty \<and> validPlan t \<and> backendComplete (txn_backend t)")
    case True
    then have "backendComplete (logged_backend b)"
      using b by simp
    note rules = logged_rules(1) [OF this]
    show ?thesis
      using True assms lg validPlan_facts(1,4) [of t]
      by (auto simp: prepare_def Let_def disciplined_def txn_inv_def vp b
          dest!: rules split: prod.splits if_splits)
  next
    case False
    then show ?thesis
      using assms lg by (auto simp: prepare_def Let_def disciplined_def txn_inv_def split: if_splits)
  qed
qed

lemma enter_disciplined:
  assumes "disciplined target t s" "txn_state t \<in> {kPrepared, kCommitted}"
    "the (enterExclusiveWindow (txn_backend t)) s = (ok, s1)"
  shows "\<exists>pub. (txn_state t = kCommitted \<longrightarrow> pub) \<and>
    (if ok then sound_inside t pub s1 else disciplined target t s1)"
proof -
  obtain b where b: "txn_backend t = logged_backend b"
    using assms(1) by (auto simp: disciplined_def logged_txn_def)
  have "backendComplete (logged_backend b)"
    using assms(1,2) b by (auto simp: disciplined_def txn_inv_def)
  then have log: "log_of s1 = log_of s @ [EvEnter ok]"
    using logged_rules(4) assms(3) b by metis
  obtain pub where "audit target (log_of s) = Some (False, pub)" "txn_state t = kCommitted \<longrightarrow> pub"
    using assms(1,2) by (auto simp: disciplined_def)
  with log show ?thesis
    using assms(1) by (intro exI [of _ pub]) (auto simp: disciplined_def sound_inside_def)
qed

lemma commit_disciplined:
  assumes "disciplined target t s" "commit t s = (r, t', s')"
  shows "disciplined target t' s'"
proof (cases "txn_state t = kPrepared")
  case True
  obtain ok s1 where en: "the (enterExclusiveWindow (txn_backend t)) s = (ok, s1)"
    by (metis surj_pair)
  have lt: "logged_txn t" "txn_inv t" "txn_targetAddress t = target"
    using assms(1) by (simp_all add: disciplined_def)
  note p = prepared_facts [OF lt(2)]
  obtain pub where pub: "if ok then sound_inside t pub s1 else disciplined target t s1"
    using enter_disciplined [OF assms(1) _ en] True by auto
  show ?thesis
  proof (cases ok)
    case ok: True
    obtain b q where "txn_backend t = logged_backend b" "txn_precompiledTrampoline t = logged_precompiled q"
      using lt(1) by (auto simp: logged_txn_def)
    then have body: "body_post t {kCommitted, kRolledBack, kFailed} (commitInside t s1)"
      using p True pub ok by (intro commitInside_body) auto
    have "finishExclusive ''exclusive patch window could not release every peer thread''
        (commitInside t s1) = (r, t', s')"
      using assms(2) True ok en by (simp add: commit_def)
    from finishExclusive_disciplined [OF lt(1) _ _ _ body this] show ?thesis
      using p True lt(3) by simp
  qed (use pub assms(2) True en in \<open>auto simp: commit_def\<close>)
qed (use assms in \<open>auto simp: commit_def\<close>)

lemma rollback_disciplined:
  assumes "disciplined target t s" "rollback t s = (r, t', s')"
  shows "disciplined target t' s'"
proof (cases "txn_state t = kCommitted")
  case True
  obtain ok s1 where en: "the (enterExclusiveWindow (txn_backend t)) s = (ok, s1)"
    by (metis surj_pair)
  have lt: "logged_txn t" "txn_inv t" "txn_targetAddress t = target"
    using assms(1) by (simp_all add: disciplined_def)
  note p = prepared_facts [OF lt(2)]
  have pub: "if ok then sound_inside t True s1 else disciplined target t s1"
    using enter_disciplined [OF assms(1) _ en] True by (auto split: if_splits)
  show ?thesis
  proof (cases ok)
    case ok: True
    obtain b where "txn_backend t = logged_backend b"
      using lt(1) by (auto simp: logged_txn_def)
    then have body: "body_post t {kCommitted, kRolledBack, kFailed} (rollbackInside t s1)"
      using p True pub ok by (intro rollbackInside_body) auto
    have "finishExclusive ''exclusive rollback window could not release every peer thread''
        (rollbackInside t s1) = (r, t', s')"
      using assms(2) True ok en by (simp add: rollback_def)
    from finishExclusive_disciplined [OF lt(1) _ _ _ body this] show ?thesis
      using p True lt(3) by simp
  qed (use pub assms(2) True en in \<open>auto simp: rollback_def\<close>)
qed (use assms in \<open>auto simp: rollback_def\<close>)

lemmas disciplined_preserved = prepare_disciplined commit_disciplined rollback_disciplined

lemma reachable_disciplined:
  assumes "txn_step\<^sup>*\<^sup>* (t, s) (t', s')" "disciplined target t s"
  shows "disciplined target t' s'"
  using assms
proof (induction rule: rtranclp_induct2)
  case (step t1 s1 t2 s2)
  then have "disciplined target t1 s1"
    by simp
  with step(2) show ?case
    by (elim txn_stepE) (rule disciplined_preserved; assumption)+
qed


lemma terminal_step:
  assumes "txn_step (t, e) (t', e')" "txn_state t \<in> {kRolledBack, kFailed}"
  shows "t' = t \<and> e' = e"
  using assms(1)
proof (rule txn_stepE)
  fix r
  show "t' = t \<and> e' = e" if "prepare t e = (r, t', e')"
    using assms(2) that by (auto simp: prepare_def)
  show "t' = t \<and> e' = e" if "commit t e = (r, t', e')"
    using assms(2) that by (auto simp: commit_def)
  show "t' = t \<and> e' = e" if "rollback t e = (r, t', e')"
    using assms(2) that by (auto simp: rollback_def)
qed

text \<open>
  C4. \<open>kRolledBack\<close> and \<open>kFailed\<close> are terminal: from there no sequence of calls
  changes the object or reaches the backend at all.
\<close>

theorem terminal_states_absorb:
  assumes "txn_step\<^sup>*\<^sup>* (t, e) (t', e')" "txn_state t \<in> {kRolledBack, kFailed}"
  shows "t' = t \<and> e' = e"
  using assms(1)
proof (induction rule: rtranclp_induct2)
  case (step t1 e1 t2 e2)
  with terminal_step [OF step(2)] assms(2) show ?case
    by simp
qed simp

end
