(* ===== verification/Patch_Install.thy ===== *)
theory Patch_Install
  imports Patch_Discipline
begin

text \<open>
  The properties of a whole installation: what \<open>commit\<close> and \<open>rollback\<close> do
  to memory whatever the callbacks answer, that an installation through a backend that
  never fails succeeds, and that a plan of the planner is one the transaction accepts.  A
  backend over plain byte memory serves as the concrete instance.
\<close>

section \<open>A backend over byte memory\<close>

definition mem_write :: "memory \<Rightarrow> uintptr \<Rightarrow> bytes \<Rightarrow> memory" where
  "mem_write m a bs = (\<lambda>x. if unat (x - a) < length bs then bs ! unat (x - a) else m x)"

definition memory_backend :: "memory PatchInstallBackend" where
  "memory_backend =
     \<lparr>readMemory = Some (\<lambda>m a n. (True, mem_read m a n, m)),
      writeMemory = Some (\<lambda>m a bs.
        if length bs < 2 ^ 64 then (True, mem_write m a bs) else (False, m)),
      synchronizeInstructionCache = Some (\<lambda>m a n. (True, m)),
      enterExclusiveWindow = Some (\<lambda>m. (True, m)),
      leaveExclusiveWindow = Some (\<lambda>m. (True, m)),
      publishOriginalTrampoline = Some (\<lambda>m a. (True, m))\<rparr>"

lemma mem_read_write:
  assumes "length bs < 2 ^ 64"
  shows "mem_read (mem_write m a bs) a (length bs) = bs"
proof (rule nth_equalityI)
  fix i assume "i < length (mem_read (mem_write m a bs) a (length bs))"
  then have "i < length bs" "unat (of_nat i :: uintptr) = i"
    using assms by (simp_all add: unat_of_nat)
  then show "mem_read (mem_write m a bs) a (length bs) ! i = bs ! i"
    by (simp add: mem_write_def)
qed simp

lemma mem_write_outside:
  assumes "x \<notin> range_bytes a (length bs)"
  shows "mem_write m a bs x = m x"
proof -
  have "x \<noteq> a + of_nat (unat (x - a)) \<or> \<not> unat (x - a) < length bs"
    using assms unfolding range_bytes_def by blast
  then show ?thesis
    by (simp add: mem_write_def)
qed

lemma memory_backend_contract: "backend_contract id memory_backend"
  by (auto simp: backend_contract_def memory_backend_def reads_memory_def writes_memory_def
      keeps_memory_def mem_read_write mem_write_outside split: if_splits)

lemma memory_backend_complete: "backendComplete memory_backend"
  by (simp add: backendComplete_def memory_backend_def)


section \<open>From the planner to the transaction\<close>

interpretation le64: byte_codec append64 read64 8
proof unfold_locales
  have r: "read64 bs k = le_join (\<lambda>b. bs ! (k + b)) 8" for bs k
    by (simp add: read64_def le_join_def)
  show "read64 (xs @ ys @ zs) (length xs) = read64 ys 0" if "length ys = 8" for xs ys zs
    using le_join_nth_shift [OF that] by (simp add: r)
  show "read64 (append64 [] v) 0 = v" for v
    using le_join_map_upt [of 8 v] by (simp add: r append64_def)
qed (simp_all add: append64_def)

lemma absolute_branch_bytes:
  "appendAbsoluteBranch out a =
     out @ append32 [] kLoadIp1FromPcPlus8 @ append32 [] kBranchIp1 @ append64 [] a"
  unfolding appendAbsoluteBranch_def
  by (metis append.assoc le32.append_appends le64.append_appends)

lemma absolute_branch_reads:
  assumes "length out = k"
  shows "length (appendAbsoluteBranch out a) = k + 16"
    "read32 (appendAbsoluteBranch out a) k = kLoadIp1FromPcPlus8"
    "read32 (appendAbsoluteBranch out a) (k + 4) = kBranchIp1"
    "read64 (appendAbsoluteBranch out a) (k + 8) = a"
proof -
  show "length (appendAbsoluteBranch out a) = k + 16"
    by (simp add: absolute_branch_bytes assms le32.width_append le64.width_append)
  show "read32 (appendAbsoluteBranch out a) k = kLoadIp1FromPcPlus8"
    unfolding absolute_branch_bytes by (rule le32.read_at_offset [OF assms])
  show "read32 (appendAbsoluteBranch out a) (k + 4) = kBranchIp1"
    using le32.read_at_offset [of "out @ append32 [] kLoadIp1FromPcPlus8" "k + 4"] assms
    by (simp add: absolute_branch_bytes le32.width_append)
  show "read64 (appendAbsoluteBranch out a) (k + 8) = a"
    using le64.read_at_offset [of "out @ append32 [] kLoadIp1FromPcPlus8 @ append32 [] kBranchIp1" "k + 8" a "[]"] assms
    by (simp add: absolute_branch_bytes le32.width_append)
qed

lemma planner_shape:
  assumes "Arm64PatchPlan.status (planArm64InlineHook t r p) = kReady"
  shows "exactPlannerShape (planArm64InlineHook t r p)"
proof -
  note f = ready_plan_fields [OF assms]
  have hd: "length (append32 [] kBtiCall @ take 16 p) = 20"
    using f(2) by (simp add: le32.width_append)
  note e = absolute_branch_reads [of "[]" 0 r, simplified]
    and tr = absolute_branch_reads [OF hd, of "t + 16"]
  have "read32 (appendAbsoluteBranch (append32 [] kBtiCall @ take 16 p) (t + 16)) 0 = kBtiCall"
    unfolding absolute_branch_bytes append.assoc by (rule le32.read_at_start)
  moreover have "take 16 p = take 16 (drop 4
      (appendAbsoluteBranch (append32 [] kBtiCall @ take 16 p) (t + 16)))"
    using f(2) by (simp add: absolute_branch_bytes le32.width_append)
  ultimately show ?thesis
    using f(1,2) e tr
    by (simp add: exactPlannerShape_def f(4-8) hookable_addresses_def min.absorb2)
qed

lemma planner_plan_valid_iff:
  assumes ready: "Arm64PatchPlan.status (planArm64InlineHook t r p) = kReady"
  shows "validPlan (newTransaction t a (planArm64InlineHook t r p) b) \<longleftrightarrow>
    a \<noteq> 0 \<and> a AND 3 = 0 \<and> unat a + 36 < 2 ^ 64 \<and> (t + 16 \<le> a \<or> a + 36 \<le> t)"
proof -
  note f = ready_plan_fields [OF ready]
  have len: "length (append32 [] kBtiCall @ take 16 p) = 20"
    using f(2) by (simp add: le32.width_append)
  have rt: "rangeEnd t 16 = Some (t + 16)"
    using f(1) by (simp add: rangeEnd_Some_iff hookable_addresses_def)
  have ra: "rangeEnd a 36 = (if unat a + 36 < 2 ^ 64 then Some (a + 36) else None)"
    using rangeEnd_Some_iff [of a 36] by (cases "rangeEnd a 36") auto
  show ?thesis
    using f(1,2) planner_shape [OF ready] ready absolute_branch_reads(1) [OF len]
      absolute_branch_reads(1) [of "[]" 0 r]
    by (auto simp: validPlan_def newTransaction_def f(4-8) rt ra kAbsoluteBranchSize_def
        hookable_addresses_def min.absorb2)
qed


lemma commit_keeps:
  assumes "txn_contract mem t" "txn_inv t" "txn_state t = kPrepared" "commit t e = (r, t', e')"
  shows "same_setup t t'" "txn_inv t'"
proof -
  note p = prepared_facts [OF assms(2)]
  from commit_from_inside [OF assms]
  have "same_setup t t' \<and> txn_inv t'"
  proof (elim disjE exE conjE)
    assume "t' = t"
    then show ?thesis
      using assms(2) by simp
  next
    fix e1 r2 t2 e2
    assume post: "commit_post mem t e1 (r2, t2, e2)" and eq: "r = r2" "t' = t2"
    then have "same_setup t t'"
      by (simp add: commit_post_def)
    moreover have "txn_state t' = kCommitted \<Longrightarrow> length (txn_revalidationBuffer t') = 16"
      "txn_state t' \<noteq> kPrepared"
      using post eq by (auto simp: commit_post_def)
    ultimately show ?thesis
      using txn_inv_same_setup [of t t'] p assms(3)
      by (cases "txn_state t' = kCommitted") (auto simp: txn_inv_def)
  next
    fix e1 r2 t2 e2
    assume "commit_post mem t e1 (r2, t2, e2)" "same_setup t2 t'" "txn_state t' = kFailed"
    then show ?thesis
      by (simp add: commit_post_def same_setup_def txn_inv_def)
  qed
  then show "same_setup t t'" "txn_inv t'"
    by simp_all
qed


text \<open>A backend none of whose operations ever reports failure.\<close>

definition never_fails :: "'e PatchInstallBackend \<Rightarrow> bool" where
  "never_fails b \<longleftrightarrow> backendComplete b \<and>
     (\<forall>e a n. fst (the (readMemory b) e a n)) \<and>
     (\<forall>e a bs. length bs < 2 ^ 64 \<longrightarrow> fst (the (writeMemory b) e a bs)) \<and>
     (\<forall>e a n. fst (the (synchronizeInstructionCache b) e a n)) \<and>
     (\<forall>e. fst (the (enterExclusiveWindow b) e)) \<and>
     (\<forall>e. fst (the (leaveExclusiveWindow b) e)) \<and>
     (\<forall>e a. fst (the (publishOriginalTrampoline b) e a))"

lemma never_fails_rules:
  assumes "never_fails b"
  shows "the (readMemory b) e a n = (ok, buf, e') \<Longrightarrow> ok"
    "the (writeMemory b) e a bs = (ok, e') \<Longrightarrow> length bs < 2 ^ 64 \<Longrightarrow> ok"
    "the (synchronizeInstructionCache b) e a n = (ok, e') \<Longrightarrow> ok"
    "the (enterExclusiveWindow b) e = (ok, e') \<Longrightarrow> ok"
    "the (leaveExclusiveWindow b) e = (ok, e') \<Longrightarrow> ok"
    "the (publishOriginalTrampoline b) e a = (ok, e') \<Longrightarrow> ok"
  using assms unfolding never_fails_def by (metis fst_conv)+

lemma memory_backend_never_fails: "never_fails memory_backend"
  by (simp add: never_fails_def memory_backend_complete) (simp add: memory_backend_def)

lemma prepare_succeeds:
  assumes "txn_contract mem t" "never_fails (txn_backend t)" "validPlan t" "txn_state t = kEmpty"
    "target_bytes mem t e = originalBytes (txn_plan t)"
  shows "PatchInstallResult.status (fst (prepare t e)) = kOk"
proof -
  have b: "backend_contract mem (txn_backend t)" "backendComplete (txn_backend t)"
    using assms(1,2) by (simp_all add: txn_contract_def never_fails_def)
  obtain ok w e1 where rd: "the (readMemory (txn_backend t)) e (txn_targetAddress t) 16 = (ok, w, e1)"
    by (metis prod_cases3)
  then have "ok"
    by (rule never_fails_rules(1) [OF assms(2)])
  then have "w = originalBytes (txn_plan t)"
    using read_rule [OF b rd] assms(5) by (simp add: target_bytes_def)
  with \<open>ok\<close> show ?thesis
    using assms(3,4) rd b validPlan_facts(1,4) [OF assms(3)]
    by (simp add: prepare_def Let_def)
qed

lemma never_fails_body:
  assumes "never_fails (txn_backend t)" "validPlan t" "same_setup t t'"
    "\<not> txn_usesPrecompiledTrampoline t"
  shows "case installTrampoline t' x of (ro, t'', _) \<Rightarrow> ro = None \<and> t'' = t'"
    "publishAndPatchEntry t' x = (r, t'', x') \<Longrightarrow>
      PatchInstallResult.status r = kOk \<and> txn_backend t'' = txn_backend t"
  using assms(3,4) validPlan_facts(2,3) [OF assms(2)]
  by (auto simp: installTrampoline_def publishAndPatchEntry_def Let_def same_setup_def
      dest: never_fails_rules [OF assms(1)] split: prod.splits bool.splits)

lemma commit_succeeds:
  assumes "txn_contract mem t" "never_fails (txn_backend t)" "txn_inv t" "txn_state t = kPrepared"
    "\<not> txn_usesPrecompiledTrampoline t" "target_bytes mem t e = originalBytes (txn_plan t)"
  shows "PatchInstallResult.status (fst (commit t e)) = kOk"
proof -
  have b: "backend_contract mem (txn_backend t)" "backendComplete (txn_backend t)"
    using assms(1,2) by (simp_all add: txn_contract_def never_fails_def)
  have p: "validPlan t" "length (txn_revalidationBuffer t) = 16"
    using prepared_facts [OF assms(3)] assms(4) by simp_all
  note f = validPlan_facts(1-3) [OF p(1)]
  note nf = never_fails_rules [OF assms(2)]
  note inst = never_fails_body(1) [OF assms(2) p(1) _ assms(5)]
    and patch = never_fails_body(2) [OF assms(2) p(1) _ assms(5)]
  have inside: "case commitInside t x of (r, t'', _) \<Rightarrow>
      PatchInstallResult.status r = kOk \<and> txn_backend t'' = txn_backend t"
    if "target_bytes mem t x = originalBytes (txn_plan t)" for x
  proof -
    obtain ok w e2 where rd: "the (readMemory (txn_backend t)) x (txn_targetAddress t) 16 = (ok, w, e2)"
      by (metis prod_cases3)
    then have "ok"
      by (rule nf(1))
    then have "storeInto (txn_revalidationBuffer t) w = originalBytes (txn_plan t)"
      using read_rule [OF b rd] that p(2) f(1) by (simp add: target_bytes_def)
    then show ?thesis
      using \<open>ok\<close> rd p(2) inst [of "t\<lparr>txn_revalidationBuffer := originalBytes (txn_plan t)\<rparr>" e2]
        patch [of "t\<lparr>txn_revalidationBuffer := originalBytes (txn_plan t)\<rparr>"]
      by (auto simp: commitInside_def Let_def split: prod.splits)
  qed
  obtain ok e1 where en: "the (enterExclusiveWindow (txn_backend t)) e = (ok, e1)"
    by (metis surj_pair)
  then have "ok" "mem e1 = mem e"
    using nf(4) keep_rules(2) [OF b] by blast+
  then show ?thesis
    using en assms(4,6) inside [of e1]
    by (auto simp: commit_def finishExclusive_def target_bytes_def dest: nf
        split: prod.splits bool.splits)
qed

section \<open>Properties of an installation\<close>

lemma rollback_succeeds:
  assumes "txn_contract mem t" "never_fails (txn_backend t)" "txn_inv t" "txn_state t = kCommitted"
    "target_bytes mem t e = entryPatch (txn_plan t)"
  shows "PatchInstallResult.status (fst (rollback t e)) = kOk"
proof -
  have b: "backend_contract mem (txn_backend t)" "backendComplete (txn_backend t)"
    using assms(1,2) by (simp_all add: txn_contract_def never_fails_def)
  have p: "validPlan t" "length (txn_revalidationBuffer t) = 16"
    using prepared_facts [OF assms(3)] assms(4) by simp_all
  note f = validPlan_facts(1,2) [OF p(1)] and nf = never_fails_rules [OF assms(2)]
  obtain ok e1 where en: "the (enterExclusiveWindow (txn_backend t)) e = (ok, e1)"
    by (metis surj_pair)
  then have ok: "ok" "mem e1 = mem e"
    using nf(4) keep_rules(2) [OF b] by blast+
  obtain rk w e2 where rd: "the (readMemory (txn_backend t)) e1 (txn_targetAddress t) 16 = (rk, w, e2)"
    by (metis prod_cases3)
  then have "rk"
    by (rule nf(1))
  then have "storeInto (txn_revalidationBuffer t) w = entryPatch (txn_plan t)"
    using read_rule [OF b rd] ok assms(5) p(2) f(2) by (simp add: target_bytes_def)
  then show ?thesis
    using ok \<open>rk\<close> en rd p(2) f assms(4)
    by (auto simp: rollback_def rollbackInside_def finishExclusive_def Let_def dest: nf
        split: prod.splits bool.splits)
qed

lemma lifecycle_succeeds:
  assumes "txn_contract mem t" "never_fails (txn_backend t)" "validPlan t" "txn_state t = kEmpty"
    "\<not> txn_usesPrecompiledTrampoline t" "target_bytes mem t e = originalBytes (txn_plan t)"
    "prepare t e = (r1, t1, e1)" "commit t1 e1 = (r2, t2, e2)" "rollback t2 e2 = (r3, t3, e3)"
  shows "PatchInstallResult.status r1 = kOk" "PatchInstallResult.status r2 = kOk"
    "PatchInstallResult.status r3 = kOk"
proof -
  show r1: "PatchInstallResult.status r1 = kOk"
    using prepare_succeeds [OF assms(1-4,6)] assms(7) by simp
  have p: "mem e1 = mem e" "same_setup t t1" "txn_state t1 = kPrepared" "txn_inv t1"
    using prepare_effect [OF assms(1,7)] r1 by simp_all
  have c1: "txn_contract mem t1" "never_fails (txn_backend t1)" "\<not> txn_usesPrecompiledTrampoline t1"
      "target_bytes mem t1 e1 = originalBytes (txn_plan t1)"
    using assms(1,2,5,6) p by (simp_all add: txn_contract_def same_setup_def target_bytes_def)
  show r2: "PatchInstallResult.status r2 = kOk"
    using commit_succeeds [OF c1(1,2) p(4,3) c1(3,4)] assms(8) by simp
  note c = commit_memory(2) [OF c1(1) p(4,3) assms(8) r2] commit_keeps [OF c1(1) p(4,3) assms(8)]
  have c2: "txn_contract mem t2" "never_fails (txn_backend t2)"
      "target_bytes mem t2 e2 = entryPatch (txn_plan t2)"
    using c c1 by (simp_all add: txn_contract_def same_setup_def target_bytes_def)
  show "PatchInstallResult.status r3 = kOk"
    using rollback_succeeds [OF c2(1,2) c(3) _ c2(3)] c(1) assms(9) by simp
qed

definition nop_prologue :: bytes where
  "nop_prologue = concat (replicate 4 [0x1f, 0x20, 0x03, 0xd5])"

definition example_plan :: Arm64PatchPlan where
  "example_plan = planArm64InlineHook 0x1000 0x2000 nop_prologue"

definition example_txn :: "memory Arm64PatchInstallTransaction" where
  "example_txn = newTransaction 0x1000 0x3000 example_plan memory_backend"

definition example_memory :: memory where
  "example_memory = mem_write (\<lambda>_. 0) 0x1000 nop_prologue"

lemma example_plan_ready: "Arm64PatchPlan.status example_plan = kReady"
  unfolding example_plan_def by code_simp

lemma example_valid: "validPlan example_txn"
  using planner_plan_valid_iff [OF example_plan_ready [unfolded example_plan_def], of "0x3000" memory_backend]
  by (simp add: example_txn_def example_plan_def)

lemma example_setup:
  "txn_contract id example_txn" "never_fails (txn_backend example_txn)"
  "txn_state example_txn = kEmpty" "\<not> txn_usesPrecompiledTrampoline example_txn"
  by (simp_all add: txn_contract_def example_txn_def newTransaction_def memory_backend_contract
      memory_backend_never_fails bind_contract_def)

lemma length_nop_prologue: "length nop_prologue = 16"
  by code_simp

lemma example_target: "target_bytes id example_txn example_memory = originalBytes (txn_plan example_txn)"
  using ready_plan_fields(6) [OF example_plan_ready [unfolded example_plan_def]]
    mem_read_write [of nop_prologue "\<lambda>_. 0" "0x1000"] length_nop_prologue
  by (simp add: target_bytes_def example_txn_def newTransaction_def example_memory_def
      example_plan_def)

definition example_prepared :: "memory Arm64PatchInstallTransaction" where
  "example_prepared = fst (snd (prepare example_txn example_memory))"

lemma example_prepared_facts:
  "prepare example_txn example_memory = (r, t, m) \<Longrightarrow> PatchInstallResult.status r = kOk"
  "txn_contract id example_prepared" "never_fails (txn_backend example_prepared)"
  "txn_inv example_prepared" "txn_state example_prepared = kPrepared"
  "\<not> txn_usesPrecompiledTrampoline example_prepared"
  "target_bytes id example_prepared example_memory = originalBytes (txn_plan example_prepared)"
  "txn_plan example_prepared = example_plan" "txn_targetAddress example_prepared = 0x1000"
  "txn_trampolineAddress example_prepared = 0x3000"
proof -
  obtain r' t' m' where p: "prepare example_txn example_memory = (r', t', m')"
    by (metis prod_cases3)
  note ok = prepare_succeeds [OF example_setup(1,2) example_valid example_setup(3) example_target]
  then have r': "PatchInstallResult.status r' = kOk" and t': "example_prepared = t'"
    by (simp_all add: p example_prepared_def)
  then show "prepare example_txn example_memory = (r, t, m) \<Longrightarrow> PatchInstallResult.status r = kOk"
    using p by simp
  note eff = prepare_effect [OF example_setup(1) p]
  then show "txn_inv example_prepared" "txn_state example_prepared = kPrepared"
    using r' t' by simp_all
  have "same_setup example_txn example_prepared"
    using eff t' by simp
  then show "txn_contract id example_prepared" "never_fails (txn_backend example_prepared)"
    "\<not> txn_usesPrecompiledTrampoline example_prepared"
    "target_bytes id example_prepared example_memory = originalBytes (txn_plan example_prepared)"
    "txn_plan example_prepared = example_plan" "txn_targetAddress example_prepared = 0x1000"
    "txn_trampolineAddress example_prepared = 0x3000"
    using example_setup example_target
    by (auto simp: same_setup_def txn_contract_def target_bytes_def example_txn_def newTransaction_def)
qed

text \<open>
  C1. \<open>commit\<close> is atomic on the hooked function.  For every backend that keeps its
  documented contract and every answer of the callbacks: nothing outside the target and the
  trampoline changes; if \<open>commit\<close> reports success the target, which held the reviewed
  bytes, now holds the whole entry patch and the trampoline is complete; and with any other
  status than a failed rollback or a failed release of the window, the target bytes
  are those from before the call.
\<close>

theorem commit_atomic:
  assumes "txn_contract mem t" "txn_inv t" "txn_state t = kPrepared" "commit t e = (r, t', e')"
  shows "(\<forall>x. x \<notin> target_range t \<union> trampoline_range t \<longrightarrow> mem e' x = mem e x) \<and>
    (PatchInstallResult.status r = kOk \<longrightarrow>
       target_bytes mem t e = originalBytes (txn_plan t) \<and>
       target_bytes mem t e' = entryPatch (txn_plan t) \<and>
       (\<not> txn_usesPrecompiledTrampoline t \<longrightarrow>
         mem_read (mem e') (txn_trampolineAddress t) 36 = trampoline (txn_plan t))) \<and>
    (PatchInstallResult.status r \<notin> {kOk, kRollbackFailed, kCoordinationReleaseFailed} \<longrightarrow>
       target_bytes mem t e' = target_bytes mem t e)"
  using commit_memory [OF assms] unfolding mem_effect_def by blast

theorem commit_atomic_witness:
  "\<exists>r t' m'. commit example_prepared example_memory = (r, t', m') \<and>
     PatchInstallResult.status r = kOk \<and> mem_read m' 0x1000 16 = entryPatch example_plan"
proof -
  obtain r t' m' where c: "commit example_prepared example_memory = (r, t', m')"
    by (metis prod_cases3)
  moreover have "PatchInstallResult.status r = kOk"
    using commit_succeeds [OF example_prepared_facts(2-7)] c by simp
  ultimately show ?thesis
    using commit_atomic [OF example_prepared_facts(2,4,5) c]
    by (simp add: target_bytes_def example_prepared_facts(8,9))
qed

text \<open>
  C2. Installing and removing a hook leaves no trace in the hooked function: when
  \<open>prepare\<close>, \<open>commit\<close> and \<open>rollback\<close> all report success, the target
  holds its initial bytes again and memory differs from the initial memory at most in the
  storage of the trampoline.
\<close>

theorem install_remove_roundtrip:
  assumes "txn_contract mem t"
    and "prepare t e = (r1, t1, e1)" "PatchInstallResult.status r1 = kOk"
    and "commit t1 e1 = (r2, t2, e2)" "PatchInstallResult.status r2 = kOk"
    and "rollback t2 e2 = (r3, t3, e3)" "PatchInstallResult.status r3 = kOk"
  shows "target_bytes mem t e3 = target_bytes mem t e \<and>
    (\<forall>x. x \<notin> trampoline_range t \<longrightarrow> mem e3 x = mem e x) \<and> txn_state t3 = kRolledBack"
proof -
  have p: "mem e1 = mem e" "same_setup t t1" "txn_state t1 = kPrepared" "txn_inv t1"
      "target_bytes mem t e = originalBytes (txn_plan t)"
    using prepare_effect [OF assms(1,2)] assms(3) by simp_all
  have c1: "txn_contract mem t1"
    using assms(1) p(2) by (simp add: txn_contract_def same_setup_def)
  note c = commit_memory [OF c1 p(4,3) assms(4)] commit_keeps [OF c1 p(4,3) assms(4)]
  have c2: "txn_contract mem t2"
    using c1 c(4) by (simp add: txn_contract_def same_setup_def)
  have "txn_state t2 = kCommitted"
    using c(2) assms(5) by simp
  note b = rollback_from_inside [OF c2 c(5) this assms(6)]
  have "same_setup t t2"
    using p(2) c(4) by (simp add: same_setup_def)
  then have s: "target_bytes mem t2 = target_bytes mem t" "target_range t2 = target_range t"
      "trampoline_range t1 = trampoline_range t" "target_range t1 = target_range t"
      "txn_plan t2 = txn_plan t"
    using p(2) by (auto simp: same_setup_def target_bytes_def target_range_def trampoline_range_def)
  have tb: "target_bytes mem t e3 = target_bytes mem t e"
    using b assms(7) p(5) by (simp add: s)
  moreover have "mem e3 x = mem e x" if "x \<notin> trampoline_range t" for x
  proof (cases "x \<in> target_range t")
    case True
    then show ?thesis
      using tb by (auto simp: target_bytes_def mem_read_eq_iff target_range_def)
  next
    case False
    then show ?thesis
      using that b c(1) p(1) by (simp add: s mem_effect_def)
  qed
  ultimately show ?thesis
    using b assms(7) by blast
qed

theorem install_remove_roundtrip_witness:
  "\<exists>r1 t1 m1 r2 t2 m2 r3 t3 m3. prepare example_txn example_memory = (r1, t1, m1) \<and>
     commit t1 m1 = (r2, t2, m2) \<and> rollback t2 m2 = (r3, t3, m3) \<and>
     mem_read m3 0x1000 16 = mem_read example_memory 0x1000 16"
proof -
  obtain r1 t1 m1 where 1: "prepare example_txn example_memory = (r1, t1, m1)"
    by (metis prod_cases3)
  obtain r2 t2 m2 where 2: "commit t1 m1 = (r2, t2, m2)"
    by (metis prod_cases3)
  obtain r3 t3 m3 where 3: "rollback t2 m2 = (r3, t3, m3)"
    by (metis prod_cases3)
  note ok = lifecycle_succeeds [OF example_setup(1,2) example_valid example_setup(3,4) example_target 1 2 3]
  have "target_bytes id example_txn m3 = target_bytes id example_txn example_memory"
    using install_remove_roundtrip [OF example_setup(1) 1 ok(1) 2 ok(2) 3 ok(3)] by blast
  then show ?thesis
    using 1 2 3 by (auto simp: target_bytes_def example_txn_def newTransaction_def)
qed

text \<open>
  C5. A plan that the planner calls ready installs.  If the planner accepts a prologue that
  the target still holds, the trampoline storage is non-null, aligned, does not wrap and does
  not overlap the target, and no backend operation fails, then \<open>prepare\<close>,
  \<open>commit\<close> and a later \<open>rollback\<close> all report success.
\<close>

theorem planned_install_succeeds:
  assumes "Arm64PatchPlan.status (planArm64InlineHook t r p) = kReady"
    and "a \<noteq> 0" "a AND 3 = 0" "unat a + 36 < 2 ^ 64" "t + 16 \<le> a \<or> a + 36 \<le> t"
    and "backend_contract mem b" "never_fails b" "mem_read (mem e) t 16 = take 16 p"
    and "prepare (newTransaction t a (planArm64InlineHook t r p) b) e = (r1, t1, e1)"
    and "commit t1 e1 = (r2, t2, e2)" "rollback t2 e2 = (r3, t3, e3)"
  shows "PatchInstallResult.status r1 = kOk \<and> PatchInstallResult.status r2 = kOk \<and>
    PatchInstallResult.status r3 = kOk"
proof -
  let ?t = "newTransaction t a (planArm64InlineHook t r p) b"
  have "validPlan ?t"
    using planner_plan_valid_iff [OF assms(1)] assms(2-5) by blast
  moreover have "txn_contract mem ?t" "never_fails (txn_backend ?t)" "txn_state ?t = kEmpty"
      "\<not> txn_usesPrecompiledTrampoline ?t"
      "target_bytes mem ?t e = originalBytes (txn_plan ?t)"
    using assms(6-8) ready_plan_fields(6) [OF assms(1)]
    by (simp_all add: txn_contract_def newTransaction_def bind_contract_def target_bytes_def)
  ultimately show ?thesis
    using lifecycle_succeeds [OF _ _ _ _ _ _ assms(9-11), of mem] by blast
qed

theorem planned_install_succeeds_witness:
  "\<exists>r1 t1 m1 r2 t2 m2. prepare example_txn example_memory = (r1, t1, m1) \<and>
     commit t1 m1 = (r2, t2, m2) \<and> PatchInstallResult.status r2 = kOk"
proof -
  obtain r1 t1 m1 where 1: "prepare example_txn example_memory = (r1, t1, m1)"
    by (metis prod_cases3)
  obtain r2 t2 m2 where 2: "commit t1 m1 = (r2, t2, m2)"
    by (metis prod_cases3)
  obtain r3 t3 m3 where 3: "rollback t2 m2 = (r3, t3, m3)"
    by (metis prod_cases3)
  have m: "mem_read (id example_memory) 0x1000 16 = take 16 nop_prologue"
    using mem_read_write [of nop_prologue "\<lambda>_. 0" "0x1000"] length_nop_prologue
    by (simp add: example_memory_def)
  show ?thesis
    using planned_install_succeeds [OF example_plan_ready [unfolded example_plan_def] _ _ _ _
        memory_backend_contract memory_backend_never_fails m
        1 [unfolded example_txn_def example_plan_def] 2 3] 1 2
    by simp
qed


section \<open>Concrete runs of the state machine\<close>

lemma logged_memory_backend_complete: "backendComplete (logged_backend memory_backend)"
  by (simp add: backendComplete_def logged_backend_def memory_backend_def)


theorem terminal_states_absorb_witness:
  "\<exists>t' m'. txn_step\<^sup>*\<^sup>* (example_txn\<lparr>txn_state := kFailed\<rparr>, example_memory) (t', m') \<and>
     t' = example_txn\<lparr>txn_state := kFailed\<rparr> \<and> m' = example_memory"
proof -
  let ?t = "example_txn\<lparr>txn_state := kFailed\<rparr>"
  obtain r t' m' where "commit ?t example_memory = (r, t', m')"
    by (metis prod_cases3)
  then have run: "txn_step\<^sup>*\<^sup>* (?t, example_memory) (t', m')"
    by (intro r_into_rtranclp step_commit)
  have "t' = ?t \<and> m' = example_memory"
    by (rule terminal_states_absorb [OF run]) simp
  with run show ?thesis
    by blast
qed

end
