(* ===== verification/Arm64_Semantics.thy ===== *)
theory Arm64_Semantics
  imports Patch_Install
begin

text \<open>
  What the planned bytes do when a core executes them.  The reference is a small
  interpreter for the three A64 instructions the planner emits (the 64-bit literal load, the
  register branch and the branch-target hint), with the field layout of the architecture
  manual.  The lemmas connect it with every plan the install transaction accepts, not only
  with the ones that come from the planner.
\<close>

section \<open>A reference interpreter\<close>

record a64_state =
  a64_pc :: uint64
  a64_x :: "nat \<Rightarrow> uint64"

definition fetch32 :: "memory \<Rightarrow> uint64 \<Rightarrow> uint32" where
  "fetch32 m a = le_join (\<lambda>b. m (a + of_nat b)) 4"

definition load64 :: "memory \<Rightarrow> uint64 \<Rightarrow> uint64" where
  "load64 m a = le_join (\<lambda>b. m (a + of_nat b)) 8"

text \<open>The byte offset of a literal load: the signed 19-bit field at bit 5, scaled by four.\<close>

definition literal_offset :: "uint32 \<Rightarrow> uint64" where
  "literal_offset i =
     (let imm19 = take_bit 19 (drop_bit 5 (ucast i :: uint64)) in
      (if bit imm19 18 then imm19 - 2 ^ 19 else imm19) * 4)"

definition a64_step :: "memory \<Rightarrow> a64_state \<Rightarrow> a64_state option" where
  "a64_step m s =
     (let i = fetch32 m (a64_pc s); rt = unat (i AND 0x1f); rn = unat (drop_bit 5 i AND 0x1f) in
      if i AND 0xff000000 = 0x58000000 then
        Some (s\<lparr>a64_pc := a64_pc s + 4,
               a64_x := (if rt = 31 then a64_x s
                         else (a64_x s)(rt := load64 m (a64_pc s + literal_offset i)))\<rparr>)
      else if i AND 0xfffffc1f = 0xd61f0000 then Some (s\<lparr>a64_pc := a64_x s rn\<rparr>)
      else if i AND 0xffffff3f = 0xd503241f then Some (s\<lparr>a64_pc := a64_pc s + 4\<rparr>)
      else None)"

fun a64_run :: "memory \<Rightarrow> nat \<Rightarrow> a64_state \<Rightarrow> a64_state option" where
  "a64_run m 0 s = Some s"
| "a64_run m (Suc n) s = Option.bind (a64_step m s) (a64_run m n)"


section \<open>Executing an absolute branch\<close>

lemma fetch32_read32:
  assumes "k + 4 \<le> n"
  shows "fetch32 m (a + of_nat k) = read32 (mem_read m a n) k"
  unfolding fetch32_def read32_le_join
  using assms by (intro le_join_cong) (simp add: add.assoc)

lemma load64_read64:
  assumes "k + 8 \<le> n"
  shows "load64 m (a + of_nat k) = read64 (mem_read m a n) k"
proof -
  have "load64 m (a + of_nat k) = le_join (\<lambda>b. mem_read m a n ! (k + b)) 8"
    unfolding load64_def using assms by (intro le_join_cong) (simp add: add.assoc)
  then show ?thesis
    by (simp add: read64_def le_join_def)
qed

lemma literal_offset_ip1: "literal_offset kLoadIp1FromPcPlus8 = 8"
  by code_simp

lemma opcode_fields:
  "kLoadIp1FromPcPlus8 AND 0xff000000 = 0x58000000" "unat (kLoadIp1FromPcPlus8 AND 0x1f) = 17"
  "kBranchIp1 AND 0xff000000 \<noteq> 0x58000000" "kBranchIp1 AND 0xfffffc1f = 0xd61f0000"
  "unat (drop_bit 5 kBranchIp1 AND 0x1f) = 17"
  "kBtiCall AND 0xff000000 \<noteq> 0x58000000" "kBtiCall AND 0xfffffc1f \<noteq> 0xd61f0000"
  "kBtiCall AND 0xffffff3f = 0xd503241f"
  by code_simp+

lemma absolute_branch_jumps:
  assumes "k + 16 \<le> n"
    and "read32 (mem_read m a n) k = kLoadIp1FromPcPlus8"
    and "read32 (mem_read m a n) (k + 4) = kBranchIp1"
    and "read64 (mem_read m a n) (k + 8) = v"
    and "a64_pc s = a + of_nat k"
  shows "a64_run m 2 s = Some (s\<lparr>a64_pc := v, a64_x := (a64_x s)(17 := v)\<rparr>)"
proof -
  let ?s1 = "s\<lparr>a64_pc := a + of_nat (k + 4), a64_x := (a64_x s)(17 := v)\<rparr>"
  have "fetch32 m (a64_pc s) = kLoadIp1FromPcPlus8" "load64 m (a64_pc s + 8) = v"
    using fetch32_read32 [of k n m a] load64_read64 [of "k + 8" n m a] assms
    by (simp_all add: add.assoc)
  then have "a64_step m s = Some ?s1"
    using assms(5)
    by (simp add: a64_step_def Let_def opcode_fields literal_offset_ip1 add.assoc)
  moreover have "fetch32 m (a64_pc ?s1) = kBranchIp1"
    using fetch32_read32 [of "k + 4" n m a] assms by simp
  then have "a64_step m ?s1 = Some (?s1\<lparr>a64_pc := v\<rparr>)"
    by (simp add: a64_step_def Let_def opcode_fields)
  ultimately show ?thesis
    by (simp add: numeral_2_eq_2)
qed

lemma bti_falls_through:
  assumes "4 \<le> n" "read32 (mem_read m a n) 0 = kBtiCall" "a64_pc s = a"
  shows "a64_run m 1 s = Some (s\<lparr>a64_pc := a + 4\<rparr>)"
proof -
  have "fetch32 m a = kBtiCall"
    using fetch32_read32 [of 0 n m a] assms by simp
  then show ?thesis
    using assms(3) by (simp add: a64_step_def Let_def opcode_fields)
qed



section \<open>Which instructions the relocation check recognises\<close>

text \<open>
  The program-counter relative instruction classes of the base instruction set with their
  operand fields, and their encodings.
\<close>

datatype pc_relative =
    Adr uint32 uint32 uint32 uint32
  | LoadLiteral uint32 uint32 uint32 uint32
  | Branch uint32 uint32
  | BranchCond uint32 uint32
  | CompareBranch uint32 uint32 uint32 uint32
  | TestBranch uint32 uint32 uint32 uint32 uint32

definition field :: "nat \<Rightarrow> nat \<Rightarrow> uint32 \<Rightarrow> uint32" where
  "field pos width v = push_bit pos (take_bit width v)"

fun encode :: "pc_relative \<Rightarrow> uint32" where
  "encode (Adr page immlo immhi rd) =
     field 31 1 page OR field 29 2 immlo OR 0x10000000 OR
     field 5 19 immhi OR field 0 5 rd"
| "encode (LoadLiteral opc v imm19 rt) =
     field 30 2 opc OR 0x18000000 OR field 26 1 v OR
     field 5 19 imm19 OR field 0 5 rt"
| "encode (Branch link imm26) = field 31 1 link OR 0x14000000 OR field 0 26 imm26"
| "encode (BranchCond imm19 cond) = 0x54000000 OR field 5 19 imm19 OR field 0 4 cond"
| "encode (CompareBranch sf nz imm19 rt) =
     field 31 1 sf OR 0x34000000 OR field 24 1 nz OR
     field 5 19 imm19 OR field 0 5 rt"
| "encode (TestBranch b5 nz b40 imm14 rt) =
     field 31 1 b5 OR 0x36000000 OR field 24 1 nz OR
     field 19 5 b40 OR field 5 14 imm14 OR field 0 5 rt"

text \<open>
  A field that lies where the mask has no bit does not contribute; the masks are decomposed
  into the parts above and below the field.
\<close>

lemma field_masked:
  assumes "take_bit n (drop_bit k c) = 0"
  shows "field k n w AND c = 0"
proof (rule bit_word_eqI)
  fix i assume "i < LENGTH(32)"
  have "\<not> bit (take_bit n (drop_bit k c)) (i - k)"
    by (simp add: assms)
  then show "bit (field k n w AND c) i = bit (0 :: uint32) i"
    by (auto simp: field_def bit_simps)
qed

lemma encode_pc_relative: "isPcRelative (encode i)"
proof (cases i)
  case (Adr page immlo immhi rd)
  have "encode i AND 0x1f000000 = 0x10000000"
    by (simp add: Adr bit.conj_disj_distrib2 field_masked)
  then show ?thesis
    by (simp add: isPcRelative_def)
next
  case (LoadLiteral opc v imm19 rt)
  have "encode i AND 0x3b000000 = 0x18000000"
    by (simp add: LoadLiteral bit.conj_disj_distrib2 field_masked)
  then show ?thesis
    by (simp add: isPcRelative_def)
next
  case (Branch link imm26)
  have "encode i AND 0x7c000000 = 0x14000000"
    by (simp add: Branch bit.conj_disj_distrib2 field_masked)
  then show ?thesis
    by (simp add: isPcRelative_def)
next
  case (BranchCond imm19 cond)
  have "encode i AND 0xff000010 = 0x54000000"
    by (simp add: BranchCond bit.conj_disj_distrib2 field_masked)
  then show ?thesis
    by (simp add: isPcRelative_def)
next
  case (CompareBranch sf nz imm19 rt)
  have "encode i AND 0x7e000000 = 0x34000000"
    by (simp add: CompareBranch bit.conj_disj_distrib2 field_masked)
  then show ?thesis
    by (simp add: isPcRelative_def)
next
  case (TestBranch b5 nz b40 imm14 rt)
  have "encode i AND 0x7e000000 = 0x36000000"
    by (simp add: TestBranch bit.conj_disj_distrib2 field_masked)
  then show ?thesis
    by (simp add: isPcRelative_def)
qed



section \<open>Properties\<close>

text \<open>
  C6. The planner never relocates a displaced instruction that depends on the program
  counter: a prologue whose first sixteen bytes contain, at an instruction boundary, the
  encoding of any ADR, ADRP, literal load, B, BL, B.cond, CBZ, CBNZ, TBZ or TBNZ, with any
  operands, is rejected.
\<close>

theorem planner_rejects_pc_relative:
  assumes "k < 4" "read32 p (4 * k) = encode i"
  shows "Arm64PatchPlan.status (planArm64InlineHook t r p) \<noteq> kReady"
proof
  assume "Arm64PatchPlan.status (planArm64InlineHook t r p) = kReady"
  from ready_plan_fields(3) [OF this] assms have "\<not> isPcRelative (encode i)"
    by (metis relocatable_at_def)
  with encode_pc_relative show False
    by blast
qed

theorem planner_rejects_pc_relative_witness:
  "Arm64PatchPlan.status (planArm64InlineHook 0x1000 0x2000
     (append32 [] (encode (BranchCond 3 1)) @ nop_prologue)) \<noteq> kReady"
proof -
  have "read32 (append32 [] (encode (BranchCond 3 1)) @ nop_prologue) (4 * 0) = encode (BranchCond 3 1)"
    using le32.read_at_start by simp
  from planner_rejects_pc_relative [OF _ this] show ?thesis
    by simp
qed

text \<open>
  C7. The one branch the relocation check misses.  The consistent conditional branch BC.cond
  is B.cond with bit 4 set; the mask \<open>0xff000010\<close> with value \<open>0x54000000\<close>
  demands that bit to be clear, although the comment beside it names BC.cond.  With any
  offset and condition such an instruction is not recognised, and the planner declares a
  prologue that starts with one ready.
\<close>

theorem bc_cond_not_recognised:
  "\<not> isPcRelative (0x54000010 OR field 5 19 imm19 OR field 0 4 cond) \<and>
   Arm64PatchPlan.status (planArm64InlineHook 0x1000 0x2000
     (append32 [] (0x54000010 OR field 5 19 2) @ nop_prologue)) = kReady"
proof
  show "\<not> isPcRelative (0x54000010 OR field 5 19 imm19 OR field 0 4 cond)"
    by (simp add: isPcRelative_def bit.conj_disj_distrib2 field_masked)
  show "Arm64PatchPlan.status (planArm64InlineHook 0x1000 0x2000
     (append32 [] (0x54000010 OR field 5 19 2) @ nop_prologue)) = kReady"
    by code_simp
qed

text \<open>
  C8. A committed hook does what it is for.  After a successful \<open>commit\<close> of a planned
  patch with a written trampoline, a core that calls the target reaches the replacement in
  two instructions with nothing but the scratch register X17 changed; a core that calls the
  trampoline passes its landing pad, finds the sixteen displaced bytes next, and the branch
  behind them continues in the target right after the patch.
\<close>

theorem committed_hook_executes:
  assumes c: "txn_contract mem t" "txn_inv t" "txn_state t = kPrepared" "commit t e = (res, t', e')"
    and ok: "PatchInstallResult.status res = kOk"
    and plan: "txn_plan t = planArm64InlineHook (txn_targetAddress t) r p"
    and dyn: "\<not> txn_usesPrecompiledTrampoline t"
    and pcs: "a64_pc s0 = txn_targetAddress t" "a64_pc s1 = txn_trampolineAddress t"
      "a64_pc s2 = txn_trampolineAddress t + 20"
  shows "a64_run (mem e') 2 s0 = Some (s0\<lparr>a64_pc := r, a64_x := (a64_x s0)(17 := r)\<rparr>) \<and>
    a64_run (mem e') 1 s1 = Some (s1\<lparr>a64_pc := txn_trampolineAddress t + 4\<rparr>) \<and>
    mem_read (mem e') (txn_trampolineAddress t + 4) 16 = originalBytes (txn_plan t) \<and>
    a64_run (mem e') 2 s2 = Some (s2\<lparr>a64_pc := txn_targetAddress t + 16,
      a64_x := (a64_x s2)(17 := txn_targetAddress t + 16)\<rparr>)"
proof -
  have "validPlan t"
    using prepared_facts(1) [OF c(2)] c(3) by simp
  then have "Arm64PatchPlan.status (planArm64InlineHook (txn_targetAddress t) r p) = kReady"
    unfolding plan [symmetric] by (simp add: validPlan_def Let_def split: if_splits)
  note f = ready_plan_fields [OF this]
  have entry: "mem_read (mem e') (txn_targetAddress t) 16 = appendAbsoluteBranch [] r"
    using commit_memory(2) [OF c ok] plan f(7) by (simp add: target_bytes_def)
  define tr where "tr = appendAbsoluteBranch (append32 [] kBtiCall @ take 16 p) (txn_targetAddress t + 16)"
  have tramp: "mem_read (mem e') (txn_trampolineAddress t) 36 = tr"
    using commit_memory(2) [OF c ok] dyn plan f(8) by (simp add: tr_def)
  have hd: "length (append32 [] kBtiCall @ take 16 p) = 20"
    using f(2) by (simp add: le32.width_append)
  note tb = absolute_branch_reads [OF hd, of "txn_targetAddress t + 16", folded tr_def]
  have "read32 tr 0 = kBtiCall"
    unfolding tr_def absolute_branch_bytes append.assoc by (rule le32.read_at_start)
  moreover have "mem_read (mem e') (txn_trampolineAddress t + 4) 16 = take 16 (drop 4 tr)"
    unfolding tramp [symmetric]
    using mem_read_drop [of 4 16 36 "mem e'" "txn_trampolineAddress t"] by simp
  moreover have "take 16 (drop 4 tr) = take 16 p"
    using f(2) by (simp add: tr_def absolute_branch_bytes le32.width_append)
  ultimately show ?thesis
    using absolute_branch_jumps [of 0 16 "mem e'" "txn_targetAddress t" r s0]
      absolute_branch_reads [of "[]" 0 r] entry pcs plan f(6)
      bti_falls_through [of 36 "mem e'" "txn_trampolineAddress t" s1] tramp
      absolute_branch_jumps [of 20 36 "mem e'" "txn_trampolineAddress t" _ s2] tb
    by simp
qed

theorem committed_hook_executes_witness:
  "\<exists>res t' m'. commit example_prepared example_memory = (res, t', m') \<and>
     a64_run m' 2 \<lparr>a64_pc = 0x1000, a64_x = (\<lambda>_. 0)\<rparr> =
       Some \<lparr>a64_pc = 0x2000, a64_x = (\<lambda>_. 0)(17 := 0x2000)\<rparr>"
proof -
  obtain res t' m' where c: "commit example_prepared example_memory = (res, t', m')"
    by (metis prod_cases3)
  have ok: "PatchInstallResult.status res = kOk"
    using commit_succeeds [OF example_prepared_facts(2-7)] c by simp
  have plan: "txn_plan example_prepared =
      planArm64InlineHook (txn_targetAddress example_prepared) 0x2000 nop_prologue"
    by (simp add: example_prepared_facts(8,9) example_plan_def)
  show ?thesis
    using c committed_hook_executes [OF example_prepared_facts(2,4,5) c ok plan example_prepared_facts(6),
        of "\<lparr>a64_pc = 0x1000, a64_x = (\<lambda>_. 0)\<rparr>" "\<lparr>a64_pc = 0x3000, a64_x = (\<lambda>_. 0)\<rparr>"
          "\<lparr>a64_pc = 0x3014, a64_x = (\<lambda>_. 0)\<rparr>"]
    by (simp add: example_prepared_facts(9,10))
qed

end
