(* ===== verification/Thread_Quiescence.thy ===== *)
theory Thread_Quiescence
  imports Vcam_Prelude
begin

text \<open>
  Model of \<open>src/runtime/ThreadQuiescenceCoordinator.cpp\<close>: the protocol that parks
  every peer thread outside the patch range before code is modified.  Thread identifiers are
  integers (the code only compares them); the vectors keep their fixed size and carry an
  explicit element count, as in the code.  The backend callbacks act on an environment
  \<open>'e\<close>; a null callback is \<open>None\<close>.
\<close>

section \<open>Definitions\<close>

datatype ThreadQuiescenceState = kEmpty | kPrepared | kExclusive | kReleased | kFailed

datatype ThreadQuiescenceStatus =
    kOk
  | kInvalidState
  | kInvalidConfiguration
  | kInvalidBackend
  | kEnumerationFailed
  | kThreadCapacityExceeded
  | kThreadInventoryInvalid
  | kParkRequestFailed
  | kParkWaitFailed
  | kParkedInventoryMismatch
  | kParkedProgramCounterInvalid
  | kThreadInTargetRange
  | kThreadInventoryChanged
  | kThreadSetUnstable
  | kResumeFailed

record ThreadQuiescenceResult =
  qr_status :: ThreadQuiescenceStatus
  qr_state :: ThreadQuiescenceState
  qr_message :: string
  qr_parkedThreadCount :: nat
  unsafeThreadId :: int
  unsafeProgramCounter :: uintptr

record ParkedThreadSnapshot =
  threadId :: int
  programCounter :: uintptr
  snapshotEpoch :: uint32

record 'e ThreadQuiescenceBackend =
  enumerateThreads :: "('e \<Rightarrow> nat \<Rightarrow> bool \<times> int list \<times> nat \<times> 'e) option"
  requestThreadPark :: "('e \<Rightarrow> int \<Rightarrow> uint32 \<Rightarrow> bool \<times> 'e) option"
  waitForParkedThreads ::
    "('e \<Rightarrow> uint32 \<Rightarrow> int list \<Rightarrow> nat \<Rightarrow> uint32 \<Rightarrow>
      bool \<times> ParkedThreadSnapshot list \<times> nat \<times> 'e) option"
  resumeParkedThreads :: "('e \<Rightarrow> uint32 \<Rightarrow> bool \<times> 'e) option"

record ThreadQuiescenceConfiguration =
  cfg_targetAddress :: uintptr
  cfg_targetSize :: size_t
  cfg_currentThreadId :: int
  cfg_epoch :: uint32
  cfg_maximumThreads :: nat
  cfg_maximumStabilizationPasses :: nat
  cfg_waitTimeoutMilliseconds :: uint32

record 'e ThreadQuiescenceCoordinator =
  q_configuration :: ThreadQuiescenceConfiguration
  q_backend :: "'e ThreadQuiescenceBackend"
  q_inventory :: "int list"
  q_finalInventory :: "int list"
  q_requestedThreadIds :: "int list"
  q_parkedThreads :: "ParkedThreadSnapshot list"
  q_requestedThreadCount :: nat
  q_parkedThreadCount :: nat
  q_parkAttempted :: bool
  q_state :: ThreadQuiescenceState

type_synonym 'e quiescence_outcome =
  "ThreadQuiescenceResult \<times> 'e ThreadQuiescenceCoordinator \<times> 'e"

definition kMaximumSupportedThreads :: nat where
  "kMaximumSupportedThreads = 4096"

definition kMaximumSupportedStabilizationPasses :: nat where
  "kMaximumSupportedStabilizationPasses = 16"

definition newCoordinator ::
  "ThreadQuiescenceConfiguration \<Rightarrow> 'e ThreadQuiescenceBackend \<Rightarrow> 'e ThreadQuiescenceCoordinator" where
  "newCoordinator configuration backend =
     \<lparr>q_configuration = configuration, q_backend = backend, q_inventory = [],
      q_finalInventory = [], q_requestedThreadIds = [], q_parkedThreads = [],
      q_requestedThreadCount = 0, q_parkedThreadCount = 0, q_parkAttempted = False,
      q_state = kEmpty\<rparr>"

definition destroyCoordinator :: "'e ThreadQuiescenceCoordinator \<Rightarrow> 'e \<Rightarrow> 'e" where
  "destroyCoordinator q e =
     (case resumeParkedThreads (q_backend q) of
        None \<Rightarrow> e
      | Some resume \<Rightarrow>
          if q_parkAttempted q then snd (resume e (cfg_epoch (q_configuration q))) else e)"

definition quiescenceResult ::
  "'e ThreadQuiescenceCoordinator \<Rightarrow> ThreadQuiescenceStatus \<Rightarrow> string \<Rightarrow> ThreadQuiescenceResult" where
  "quiescenceResult q st msg =
     \<lparr>qr_status = st, qr_state = q_state q, qr_message = msg,
      qr_parkedThreadCount = q_parkedThreadCount q, unsafeThreadId = - 1,
      unsafeProgramCounter = 0\<rparr>"

definition readInventory ::
  "'e ThreadQuiescenceCoordinator \<Rightarrow> int list \<Rightarrow> 'e \<Rightarrow> bool \<times> int list \<times> nat \<times> 'e" where
  "readInventory q buffer e =
     (case the (enumerateThreads (q_backend q)) e (length buffer) of
        (ok, written, count, e) \<Rightarrow> (ok, storeInto buffer written, count, e))"

text \<open>\<open>std::adjacent_find\<close> finds a pair of equal neighbours.\<close>

fun adjacentDuplicate :: "'a list \<Rightarrow> bool" where
  "adjacentDuplicate (x # y # zs) = (x = y \<or> adjacentDuplicate (y # zs))"
| "adjacentDuplicate _ = False"

definition validInventory ::
  "ThreadQuiescenceConfiguration \<Rightarrow> int list \<Rightarrow> nat \<Rightarrow> bool \<times> int list" where
  "validInventory cfg buffer count =
     (if count = 0 \<or> count > length buffer then (False, buffer)
      else let buffer = sortPrefix count buffer; xs = take count buffer in
        if buffer ! 0 \<le> 0 \<or> adjacentDuplicate xs \<or> (\<exists>t \<in> set xs. t \<le> 0) then (False, buffer)
        else (binarySearch xs (cfg_currentThreadId cfg), buffer))"

definition finalInventoryContainsEveryRequested ::
  "'e ThreadQuiescenceCoordinator \<Rightarrow> nat \<Rightarrow> bool" where
  "finalInventoryContainsEveryRequested q finalCount \<longleftrightarrow>
     (\<forall>t \<in> set (take (q_requestedThreadCount q) (q_requestedThreadIds q)).
        binarySearch (take finalCount (q_finalInventory q)) t)"

text \<open>
  The comparison loop of \<open>finalInventoryIsExact\<close>: \<open>requested\<close> is what
  \<open>requestedIndex\<close> has not consumed yet.
\<close>

fun exactLoop :: "int \<Rightarrow> int list \<Rightarrow> int list \<Rightarrow> bool" where
  "exactLoop current [] requested = (requested = [])"
| "exactLoop current (t # final) requested =
     (if t = current then exactLoop current final requested
      else case requested of
        [] \<Rightarrow> False
      | r # rest \<Rightarrow> if r \<noteq> t then False else exactLoop current final rest)"

definition finalInventoryIsExact :: "'e ThreadQuiescenceCoordinator \<Rightarrow> nat \<Rightarrow> bool" where
  "finalInventoryIsExact q finalCount \<longleftrightarrow>
     finalCount = q_requestedThreadCount q + 1 \<and>
     exactLoop (cfg_currentThreadId (q_configuration q))
       (take finalCount (q_finalInventory q))
       (take (q_requestedThreadCount q) (q_requestedThreadIds q))"

definition quiescenceBackendComplete :: "'e ThreadQuiescenceBackend \<Rightarrow> bool" where
  "quiescenceBackendComplete b \<longleftrightarrow>
     enumerateThreads b \<noteq> None \<and> requestThreadPark b \<noteq> None \<and>
     waitForParkedThreads b \<noteq> None \<and> resumeParkedThreads b \<noteq> None"

definition validConfiguration :: "ThreadQuiescenceConfiguration \<Rightarrow> bool" where
  "validConfiguration cfg \<longleftrightarrow>
     \<not> (cfg_targetAddress cfg = 0 \<or> cfg_targetAddress cfg AND 3 \<noteq> 0 \<or>
        rangeEnd (cfg_targetAddress cfg) (cfg_targetSize cfg) = None \<or>
        cfg_currentThreadId cfg \<le> 0 \<or> cfg_epoch cfg = 0 \<or>
        cfg_maximumThreads cfg = 0 \<or> cfg_maximumThreads cfg > kMaximumSupportedThreads \<or>
        cfg_maximumStabilizationPasses cfg = 0 \<or>
        cfg_maximumStabilizationPasses cfg > kMaximumSupportedStabilizationPasses \<or>
        cfg_waitTimeoutMilliseconds cfg = 0)"

definition prepareQuiescence ::
  "'e ThreadQuiescenceCoordinator \<Rightarrow> 'e \<Rightarrow> 'e quiescence_outcome" where
  "prepareQuiescence q e =
     (let cfg = q_configuration q; failed = q\<lparr>q_state := kFailed\<rparr>; n = cfg_maximumThreads cfg in
      if q_state q \<noteq> kEmpty then
        (quiescenceResult q kInvalidState ''thread quiescence can only be prepared once'', q, e)
      else if \<not> validConfiguration cfg then
        (quiescenceResult failed kInvalidConfiguration
           ''target range, epoch, limits or current thread is invalid'', failed, e)
      else if \<not> quiescenceBackendComplete (q_backend q) then
        (quiescenceResult failed kInvalidBackend ''thread quiescence backend is incomplete'', failed, e)
      else
        let q = q\<lparr>q_inventory := replicate n 0, q_finalInventory := replicate n 0,
                 q_requestedThreadIds := replicate n 0,
                 q_parkedThreads := replicate n \<lparr>threadId = - 1, programCounter = 0, snapshotEpoch = 0\<rparr>\<rparr>
        in case readInventory q (q_inventory q) e of
          (ok, buffer, count, e) \<Rightarrow>
            (let q = q\<lparr>q_inventory := buffer\<rparr>; failed = q\<lparr>q_state := kFailed\<rparr> in
             if \<not> ok then
               (if count > n
                then quiescenceResult failed kThreadCapacityExceeded
                       ''thread inventory exceeds the prepared capacity''
                else quiescenceResult failed kEnumerationFailed ''initial thread enumeration failed'',
                failed, e)
             else case validInventory cfg buffer count of
               (valid, buffer) \<Rightarrow>
                 (let q = q\<lparr>q_inventory := buffer\<rparr>; failed = q\<lparr>q_state := kFailed\<rparr> in
                  if \<not> valid then
                    (quiescenceResult failed kThreadInventoryInvalid
                       ''initial thread inventory is empty, duplicated or missing the caller'', failed, e)
                  else
                    let q = q\<lparr>q_state := kPrepared\<rparr> in
                    (quiescenceResult q kOk
                       ''thread quiescence buffers prepared without stopping a thread'', q, e))))"

definition abortEnter ::
  "'e ThreadQuiescenceCoordinator \<Rightarrow> 'e \<Rightarrow> ThreadQuiescenceStatus \<Rightarrow> string \<Rightarrow> 'e quiescence_outcome" where
  "abortEnter q e st msg =
     (let failed = q\<lparr>q_state := kFailed\<rparr> in
      if q_parkAttempted q then
        (case the (resumeParkedThreads (q_backend q)) e (cfg_epoch (q_configuration q)) of
           (False, e) \<Rightarrow>
             (quiescenceResult failed kResumeFailed
                ''thread quiescence failed and parked threads could not be resumed'', failed, e)
         | (True, e) \<Rightarrow>
             (let failed = failed\<lparr>q_parkAttempted := False\<rparr> in
              (quiescenceResult failed st msg, failed, e)))
      else (quiescenceResult failed st msg, failed, e))"


text \<open>
  \<open>enter\<close> in its parts.  \<open>parkPeers\<close> is the loop that asks every thread of
  the current inventory to park (\<open>Some\<close> is an early return), \<open>waitPeers\<close> the
  wait for all of them, \<open>checkParked\<close> the loop over the snapshots,
  \<open>confirmInventory\<close> the second enumeration, and \<open>enterPasses\<close> the
  stabilisation loop, counting the passes that are left.
\<close>

type_synonym 'e enter_step =
  "'e quiescence_outcome option \<times> 'e ThreadQuiescenceCoordinator \<times> 'e"

fun parkPeers :: "int list \<Rightarrow> 'e ThreadQuiescenceCoordinator \<Rightarrow> 'e \<Rightarrow> 'e enter_step" where
  "parkPeers [] q e = (None, q, e)"
| "parkPeers (t # rest) q e =
     (let n = q_requestedThreadCount q; cfg = q_configuration q in
      if t = cfg_currentThreadId cfg \<or> binarySearch (take n (q_requestedThreadIds q)) t then
        parkPeers rest q e
      else if n = length (q_requestedThreadIds q) then
        (Some (abortEnter q e kThreadCapacityExceeded
           ''park request set exceeds the prepared capacity''), q, e)
      else
        let q = q\<lparr>q_parkAttempted := True\<rparr> in
        case the (requestThreadPark (q_backend q)) e t (cfg_epoch cfg) of
          (False, e) \<Rightarrow>
            (Some (abortEnter q e kParkRequestFailed
               ''a peer thread park request failed or was uncertain''), q, e)
        | (True, e) \<Rightarrow>
            parkPeers rest
              (q\<lparr>q_requestedThreadIds := sortPrefix (Suc n) ((q_requestedThreadIds q)[n := t]),
                 q_requestedThreadCount := Suc n\<rparr>) e)"

definition sortSnapshots :: "nat \<Rightarrow> ParkedThreadSnapshot list \<Rightarrow> ParkedThreadSnapshot list" where
  "sortSnapshots n xs = sort_key threadId (take n xs) @ drop n xs"

definition waitPeers :: "'e ThreadQuiescenceCoordinator \<Rightarrow> 'e \<Rightarrow> 'e enter_step" where
  "waitPeers q e =
     (let cfg = q_configuration q; n = q_requestedThreadCount q;
          q = q\<lparr>q_parkedThreadCount := 0\<rparr>;
          (ok, q, e) =
            (if n \<noteq> 0 then
               (case the (waitForParkedThreads (q_backend q)) e (cfg_epoch cfg)
                       (take n (q_requestedThreadIds q)) (length (q_parkedThreads q))
                       (cfg_waitTimeoutMilliseconds cfg) of
                  (ok, written, count, e) \<Rightarrow>
                    (ok, q\<lparr>q_parkedThreads := storeInto (q_parkedThreads q) written,
                           q_parkedThreadCount := count\<rparr>, e))
             else (True, q, e))
      in if \<not> ok then
           (Some (abortEnter q e kParkWaitFailed
              ''not every requested thread parked before the timeout''), q, e)
         else if q_parkedThreadCount q \<noteq> n then
           (Some (abortEnter q e kParkedInventoryMismatch
              ''parked snapshot count does not match the request set''), q, e)
         else (None, q\<lparr>q_parkedThreads := sortSnapshots n (q_parkedThreads q)\<rparr>, e))"

definition unsafeResult :: "ParkedThreadSnapshot \<Rightarrow> 'e quiescence_outcome \<Rightarrow> 'e quiescence_outcome" where
  "unsafeResult parked out =
     (case out of (r, q, e) \<Rightarrow>
        (r\<lparr>unsafeThreadId := threadId parked, unsafeProgramCounter := programCounter parked\<rparr>, q, e))"

fun checkParked ::
  "uintptr \<Rightarrow> (ParkedThreadSnapshot \<times> int) list \<Rightarrow> 'e ThreadQuiescenceCoordinator \<Rightarrow> 'e \<Rightarrow>
   'e quiescence_outcome option" where
  "checkParked targetEnd [] q e = None"
| "checkParked targetEnd ((parked, requested) # rest) q e =
     (let cfg = q_configuration q; pc = programCounter parked in
      if threadId parked \<noteq> requested \<or> snapshotEpoch parked \<noteq> cfg_epoch cfg then
        Some (abortEnter q e kParkedInventoryMismatch
          ''parked snapshots do not exactly match the request epoch'')
      else if pc = 0 \<or> pc AND 3 \<noteq> 0 then
        Some (unsafeResult parked (abortEnter q e kParkedProgramCounterInvalid
          ''a parked thread reported an invalid ARM64 program counter''))
      else if cfg_targetAddress cfg \<le> pc \<and> pc < targetEnd then
        Some (unsafeResult parked (abortEnter q e kThreadInTargetRange
          ''a parked thread is executing inside the entry patch range''))
      else checkParked targetEnd rest q e)"

text \<open>
  The second enumeration: an early return, success (\<open>kExclusive\<close>), or
  \<open>None\<close> when another pass is needed, together with the new inventory size.
\<close>

definition confirmInventory ::
  "bool \<Rightarrow> 'e ThreadQuiescenceCoordinator \<Rightarrow> 'e \<Rightarrow>
   'e quiescence_outcome option \<times> nat \<times> 'e ThreadQuiescenceCoordinator \<times> 'e" where
  "confirmInventory lastPass q e =
     (case readInventory q (q_finalInventory q) e of
        (ok, buffer, finalCount, e) \<Rightarrow>
          (let cfg = q_configuration q; q = q\<lparr>q_finalInventory := buffer\<rparr> in
           if \<not> ok then
             (Some (if finalCount > cfg_maximumThreads cfg
                    then abortEnter q e kThreadCapacityExceeded
                           ''final thread inventory exceeds the prepared capacity''
                    else abortEnter q e kEnumerationFailed
                           ''thread enumeration failed while peers were parked''), finalCount, q, e)
           else case validInventory cfg buffer finalCount of
             (valid, buffer) \<Rightarrow>
               (let q = q\<lparr>q_finalInventory := buffer\<rparr> in
                if \<not> valid then
                  (Some (abortEnter q e kThreadInventoryInvalid
                     ''final thread inventory is invalid while peers are parked''), finalCount, q, e)
                else if \<not> finalInventoryContainsEveryRequested q finalCount then
                  (Some (abortEnter q e kThreadInventoryChanged
                     ''a requested parked thread disappeared from the final inventory''),
                   finalCount, q, e)
                else if finalInventoryIsExact q finalCount then
                  (let q = q\<lparr>q_state := kExclusive\<rparr> in
                   (Some (quiescenceResult q kOk
                      ''all peer threads are parked outside the target range'', q, e), finalCount, q, e))
                else if lastPass then
                  (Some (abortEnter q e kThreadSetUnstable
                     ''thread set did not stabilize within the configured passes''), finalCount, q, e)
                else
                  (None, finalCount,
                   q\<lparr>q_inventory := storeInto (q_inventory q) (take finalCount (q_finalInventory q))\<rparr>,
                   e))))"

fun enterPasses ::
  "nat \<Rightarrow> nat \<Rightarrow> 'e ThreadQuiescenceCoordinator \<Rightarrow> 'e \<Rightarrow> 'e quiescence_outcome" where
  "enterPasses 0 inventoryCount q e =
     abortEnter q e kThreadSetUnstable ''thread set did not stabilize''"
| "enterPasses (Suc left) inventoryCount q e =
     (case parkPeers (take inventoryCount (q_inventory q)) q e of
        (Some out, _, _) \<Rightarrow> out
      | (None, q, e) \<Rightarrow>
          (case waitPeers q e of
             (Some out, _, _) \<Rightarrow> out
           | (None, q, e) \<Rightarrow>
               (let cfg = q_configuration q; n = q_parkedThreadCount q;
                    targetEnd = (case rangeEnd (cfg_targetAddress cfg) (cfg_targetSize cfg) of
                                   None \<Rightarrow> 0 | Some x \<Rightarrow> x)
                in case checkParked targetEnd
                          (zip (take n (q_parkedThreads q)) (take n (q_requestedThreadIds q))) q e of
                     Some out \<Rightarrow> out
                   | None \<Rightarrow>
                       (case confirmInventory (left = 0) q e of
                          (Some out, _, _, _) \<Rightarrow> out
                        | (None, finalCount, q, e) \<Rightarrow> enterPasses left finalCount q e))))"

definition enter :: "'e ThreadQuiescenceCoordinator \<Rightarrow> 'e \<Rightarrow> 'e quiescence_outcome" where
  "enter q e =
     (if q_state q \<noteq> kPrepared then
        (quiescenceResult q kInvalidState ''thread quiescence is not prepared'', q, e)
      else
        let cfg = q_configuration q; q = q\<lparr>q_requestedThreadCount := 0, q_parkedThreadCount := 0\<rparr>
        in case readInventory q (q_inventory q) e of
          (ok, buffer, count, e) \<Rightarrow>
            (let q = q\<lparr>q_inventory := buffer\<rparr> in
             if \<not> ok then
               (if count > cfg_maximumThreads cfg
                then abortEnter q e kThreadCapacityExceeded
                       ''thread inventory exceeds the prepared capacity''
                else abortEnter q e kEnumerationFailed ''thread enumeration failed before parking'')
             else case validInventory cfg buffer count of
               (valid, buffer) \<Rightarrow>
                 (let q = q\<lparr>q_inventory := buffer\<rparr> in
                  if \<not> valid then
                    abortEnter q e kThreadInventoryInvalid
                      ''thread inventory became invalid before parking''
                  else enterPasses (cfg_maximumStabilizationPasses cfg) count q e)))"

definition leave :: "'e ThreadQuiescenceCoordinator \<Rightarrow> 'e \<Rightarrow> 'e quiescence_outcome" where
  "leave q e =
     (if q_state q \<noteq> kExclusive then
        (quiescenceResult q kInvalidState ''thread quiescence is not exclusive'', q, e)
      else
        let (resumed, e) =
          (if q_parkAttempted q
           then the (resumeParkedThreads (q_backend q)) e (cfg_epoch (q_configuration q))
           else (True, e))
        in if \<not> resumed then
             (let q = q\<lparr>q_state := kFailed\<rparr> in
              (quiescenceResult q kResumeFailed ''parked threads could not be resumed'', q, e))
           else
             (let q = q\<lparr>q_parkAttempted := False, q_state := kReleased\<rparr> in
              (quiescenceResult q kOk
                 ''all parked threads were released from the exclusive window'', q, e)))"

fun threadQuiescenceStateName :: "ThreadQuiescenceState \<Rightarrow> string" where
  "threadQuiescenceStateName kEmpty = ''empty''"
| "threadQuiescenceStateName kPrepared = ''prepared''"
| "threadQuiescenceStateName kExclusive = ''exclusive''"
| "threadQuiescenceStateName kReleased = ''released''"
| "threadQuiescenceStateName kFailed = ''failed''"

fun threadQuiescenceStatusName :: "ThreadQuiescenceStatus \<Rightarrow> string" where
  "threadQuiescenceStatusName kOk = ''ok''"
| "threadQuiescenceStatusName kInvalidState = ''invalid_state''"
| "threadQuiescenceStatusName kInvalidConfiguration = ''invalid_configuration''"
| "threadQuiescenceStatusName kInvalidBackend = ''invalid_backend''"
| "threadQuiescenceStatusName kEnumerationFailed = ''enumeration_failed''"
| "threadQuiescenceStatusName kThreadCapacityExceeded = ''thread_capacity_exceeded''"
| "threadQuiescenceStatusName kThreadInventoryInvalid = ''thread_inventory_invalid''"
| "threadQuiescenceStatusName kParkRequestFailed = ''park_request_failed''"
| "threadQuiescenceStatusName kParkWaitFailed = ''park_wait_failed''"
| "threadQuiescenceStatusName kParkedInventoryMismatch = ''parked_inventory_mismatch''"
| "threadQuiescenceStatusName kParkedProgramCounterInvalid = ''parked_program_counter_invalid''"
| "threadQuiescenceStatusName kThreadInTargetRange = ''thread_in_target_range''"
| "threadQuiescenceStatusName kThreadInventoryChanged = ''thread_inventory_changed''"
| "threadQuiescenceStatusName kThreadSetUnstable = ''thread_set_unstable''"
| "threadQuiescenceStatusName kResumeFailed = ''resume_failed''"



section \<open>Inventories\<close>

lemma adjacentDuplicate_sorted: "sorted xs \<Longrightarrow> adjacentDuplicate xs \<longleftrightarrow> \<not> distinct xs"
  by (induction xs rule: adjacentDuplicate.induct) auto

lemma exactLoop_iff: "exactLoop current final requested \<longleftrightarrow> filter (\<lambda>t. t \<noteq> current) final = requested"
  by (induction current final requested rule: exactLoop.induct) (auto split: list.splits)

lemma validInventory_True:
  assumes "validInventory cfg buffer count = (True, buffer')"
  shows "0 < count" "count \<le> length buffer" "length buffer' = length buffer"
    "sorted (take count buffer')" "distinct (take count buffer')"
    "cfg_currentThreadId cfg \<in> set (take count buffer')" "\<forall>t \<in> set (take count buffer'). 0 < t"
    "set (take count buffer') = set (take count buffer)"
proof -
  have c: "0 < count" "count \<le> length buffer" "buffer' = sortPrefix count buffer"
      "\<not> adjacentDuplicate (take count buffer')" "\<forall>t \<in> set (take count buffer'). 0 < t"
      "binarySearch (take count buffer') (cfg_currentThreadId cfg)"
    using assms by (auto simp: validInventory_def Let_def not_le split: if_splits)
  have t: "take count buffer' = sort (take count buffer)"
    using c(2,3) by (simp add: take_sortPrefix)
  then have srt: "sorted (take count buffer')"
    by simp
  show "0 < count" "count \<le> length buffer" "length buffer' = length buffer"
    "sorted (take count buffer')" "distinct (take count buffer')"
    "cfg_currentThreadId cfg \<in> set (take count buffer')" "\<forall>t \<in> set (take count buffer'). 0 < t"
    using c srt adjacentDuplicate_sorted [OF srt] binarySearch_iff [OF srt] by simp_all
  show "set (take count buffer') = set (take count buffer)"
    by (simp add: t)
qed

lemma validInventory_length:
  "validInventory cfg buffer count = (v, buffer') \<Longrightarrow> length buffer' = length buffer"
  by (auto simp: validInventory_def Let_def split: if_splits)

lemma readInventory_length:
  "readInventory q buffer e = (ok, buffer', count, e') \<Longrightarrow> length buffer' = length buffer"
  by (auto simp: readInventory_def split: prod.splits)


section \<open>The invariant of the coordinator\<close>

definition requested :: "'e ThreadQuiescenceCoordinator \<Rightarrow> int list" where
  "requested q = take (q_requestedThreadCount q) (q_requestedThreadIds q)"

definition parked_snapshots :: "'e ThreadQuiescenceCoordinator \<Rightarrow> ParkedThreadSnapshot list" where
  "parked_snapshots q = take (q_parkedThreadCount q) (q_parkedThreads q)"

definition prepared_q :: "'e ThreadQuiescenceCoordinator \<Rightarrow> bool" where
  "prepared_q q \<longleftrightarrow>
     validConfiguration (q_configuration q) \<and> quiescenceBackendComplete (q_backend q) \<and>
     length (q_inventory q) = cfg_maximumThreads (q_configuration q) \<and>
     length (q_finalInventory q) = cfg_maximumThreads (q_configuration q) \<and>
     length (q_requestedThreadIds q) = cfg_maximumThreads (q_configuration q) \<and>
     length (q_parkedThreads q) = cfg_maximumThreads (q_configuration q)"

definition requests_ok :: "'e ThreadQuiescenceCoordinator \<Rightarrow> bool" where
  "requests_ok q \<longleftrightarrow>
     q_requestedThreadCount q \<le> length (q_requestedThreadIds q) \<and>
     sorted (requested q) \<and> distinct (requested q) \<and>
     cfg_currentThreadId (q_configuration q) \<notin> set (requested q) \<and>
     (requested q \<noteq> [] \<longrightarrow> q_parkAttempted q)"

definition same_coordinator ::
  "'e ThreadQuiescenceCoordinator \<Rightarrow> 'e ThreadQuiescenceCoordinator \<Rightarrow> bool" where
  "same_coordinator q q' \<longleftrightarrow>
     q_configuration q' = q_configuration q \<and> q_backend q' = q_backend q"

text \<open>An early return of \<open>enter\<close>: a failure, with the parked threads released.\<close>

definition aborted :: "'e ThreadQuiescenceCoordinator \<Rightarrow> 'e quiescence_outcome \<Rightarrow> bool" where
  "aborted q out \<longleftrightarrow>
     (case out of (r, q', e') \<Rightarrow>
        same_coordinator q q' \<and> qr_status r \<noteq> kOk \<and> qr_state r = kFailed \<and> q_state q' = kFailed \<and>
        (qr_status r = kResumeFailed \<longleftrightarrow> q_parkAttempted q'))"

lemma quiescenceResult_simps [status_simps, simp]:
  "qr_status (quiescenceResult q st msg) = st"
  "qr_state (quiescenceResult q st msg) = q_state q"
  by (simp_all add: quiescenceResult_def)

lemma same_coordinator_refl [simp]: "same_coordinator q q"
  by (simp add: same_coordinator_def)

lemma same_coordinator_trans:
  "same_coordinator q q' \<Longrightarrow> same_coordinator q' q'' \<Longrightarrow> same_coordinator q q''"
  by (simp add: same_coordinator_def)

lemma aborted_trans: "same_coordinator q q' \<Longrightarrow> aborted q' out \<Longrightarrow> aborted q out"
  by (auto simp: aborted_def intro: same_coordinator_trans)

lemma abortEnter_aborted:
  assumes "st \<noteq> kOk" "st \<noteq> kResumeFailed"
  shows "aborted q (abortEnter q e st msg)"
  using assms
  by (auto simp: aborted_def abortEnter_def Let_def same_coordinator_def split: prod.splits bool.splits)

lemma unsafeResult_aborted: "aborted q out \<Longrightarrow> aborted q (unsafeResult parked out)"
  by (auto simp: aborted_def unsafeResult_def split: prod.splits)

lemma requests_ok_insert:
  assumes "requests_ok q" "t \<noteq> cfg_currentThreadId (q_configuration q)"
    "t \<notin> set (requested q)" "q_requestedThreadCount q < length (q_requestedThreadIds q)"
    and "q' = q\<lparr>q_parkAttempted := True,
        q_requestedThreadIds :=
          sortPrefix (Suc (q_requestedThreadCount q)) ((q_requestedThreadIds q)[q_requestedThreadCount q := t]),
        q_requestedThreadCount := Suc (q_requestedThreadCount q)\<rparr>"
  shows "requests_ok q'" "set (requested q') = insert t (set (requested q))"
proof -
  let ?n = "q_requestedThreadCount q"
  have "take (Suc ?n) ((q_requestedThreadIds q)[?n := t]) = requested q @ [t]"
    using assms(4) by (simp add: requested_def take_Suc_conv_app_nth)
  then have r: "requested q' = sort (requested q @ [t])"
    using assms(4) by (simp add: assms(5) requested_def take_sortPrefix)
  show "set (requested q') = insert t (set (requested q))"
    unfolding r by simp
  show "requests_ok q'"
    using assms(1-4) unfolding requests_ok_def r by (simp add: assms(5))
qed



section \<open>The parts of \<open>enter\<close>\<close>

definition keeps_buffers ::
  "'e ThreadQuiescenceCoordinator \<Rightarrow> 'e ThreadQuiescenceCoordinator \<Rightarrow> bool" where
  "keeps_buffers q q' \<longleftrightarrow>
     same_coordinator q q' \<and> (prepared_q q \<longrightarrow> prepared_q q') \<and> q_state q' = q_state q \<and>
     (q_parkAttempted q \<longrightarrow> q_parkAttempted q')"

lemma keeps_buffers_refl [simp]: "keeps_buffers q q"
  by (simp add: keeps_buffers_def)

lemma keeps_buffers_trans: "keeps_buffers q q' \<Longrightarrow> keeps_buffers q' q'' \<Longrightarrow> keeps_buffers q q''"
  by (auto simp: keeps_buffers_def intro: same_coordinator_trans)

definition park_post ::
  "'e ThreadQuiescenceCoordinator \<Rightarrow> int list \<Rightarrow> 'e enter_step \<Rightarrow> bool" where
  "park_post q ts step \<longleftrightarrow>
     (case step of
        (Some out, _, _) \<Rightarrow> aborted q out
      | (None, q', _) \<Rightarrow> keeps_buffers q q' \<and> requests_ok q' \<and>
          set (requested q') = set (requested q) \<union> (set ts - {cfg_currentThreadId (q_configuration q)}))"

lemma park_post_step:
  assumes "keeps_buffers q q1" "park_post q1 rest step"
    "set (requested q1) \<union> (set rest - {cfg_currentThreadId (q_configuration q)}) =
     set (requested q) \<union> (set (t # rest) - {cfg_currentThreadId (q_configuration q)})"
  shows "park_post q (t # rest) step"
proof -
  have "same_coordinator q q1" "q_configuration q1 = q_configuration q"
    using assms(1) by (simp_all add: keeps_buffers_def same_coordinator_def)
  then show ?thesis
    using assms(2,3) keeps_buffers_trans [OF assms(1)] aborted_trans [of q q1]
    by (auto simp: park_post_def split: prod.splits option.splits)
qed

lemma parkPeers_post: "requests_ok q \<Longrightarrow> park_post q ts (parkPeers ts q e)"
proof (induction ts arbitrary: q e)
  case Nil
  then show ?case by (simp add: park_post_def)
next
  case (Cons t rest)
  let ?cur = "cfg_currentThreadId (q_configuration q)" and ?n = "q_requestedThreadCount q"
  have bs: "binarySearch (take ?n (q_requestedThreadIds q)) t \<longleftrightarrow> t \<in> set (requested q)"
    using Cons.prems by (simp add: requested_def requests_ok_def binarySearch_iff)
  consider (skip) "t = ?cur \<or> t \<in> set (requested q)"
    | (full) "\<not> (t = ?cur \<or> t \<in> set (requested q))" "?n = length (q_requestedThreadIds q)"
    | (ask) "t \<noteq> ?cur" "t \<notin> set (requested q)" "?n \<noteq> length (q_requestedThreadIds q)"
    by blast
  then show ?case
  proof cases
    case skip
    then show ?thesis
      using bs Cons.IH [OF Cons.prems, of e] by (auto simp: Let_def intro: park_post_step [of q q])
  next
    case full
    then show ?thesis
      using bs by (auto simp: Let_def park_post_def intro!: abortEnter_aborted)
  next
    case ask
    have lt: "?n < length (q_requestedThreadIds q)"
      using ask Cons.prems by (simp add: requests_ok_def)
    define q1 where "q1 = q\<lparr>q_parkAttempted := True,
        q_requestedThreadIds := sortPrefix (Suc ?n) ((q_requestedThreadIds q)[?n := t]),
        q_requestedThreadCount := Suc ?n\<rparr>"
    note ins = requests_ok_insert [OF Cons.prems ask(1,2) lt q1_def]
    have kb: "keeps_buffers q q1"
      by (auto simp: q1_def keeps_buffers_def same_coordinator_def prepared_q_def)
    obtain ok e1 where rq: "the (requestThreadPark (q_backend q)) e t (cfg_epoch (q_configuration q)) = (ok, e1)"
      by (metis surj_pair)
    show ?thesis
    proof (cases ok)
      case False
      then show ?thesis
        using ask bs rq
        by (auto simp: Let_def park_post_def same_coordinator_def
            intro!: aborted_trans [OF _ abortEnter_aborted])
    next
      case True
      have "park_post q (t # rest) (parkPeers rest q1 e1)"
        using ask(1) ins(2) by (intro park_post_step [OF kb Cons.IH [OF ins(1)]]) auto
      then show ?thesis
        using ask bs rq True by (simp add: Let_def q1_def)
    qed
  qed
qed

text \<open>What the snapshots of the parked threads must look like.\<close>

definition snapshot_ok :: "ThreadQuiescenceConfiguration \<Rightarrow> ParkedThreadSnapshot \<Rightarrow> bool" where
  "snapshot_ok cfg p \<longleftrightarrow>
     snapshotEpoch p = cfg_epoch cfg \<and> programCounter p \<noteq> 0 \<and> programCounter p AND 3 = 0 \<and>
     programCounter p \<notin> range_bytes (cfg_targetAddress cfg) (unat (cfg_targetSize cfg))"

definition exclusive_post :: "'e ThreadQuiescenceCoordinator \<Rightarrow> bool" where
  "exclusive_post q \<longleftrightarrow>
     q_state q = kExclusive \<and> requests_ok q \<and>
     set (take (Suc (q_requestedThreadCount q)) (q_finalInventory q)) =
       insert (cfg_currentThreadId (q_configuration q)) (set (requested q)) \<and>
     map threadId (parked_snapshots q) = requested q \<and>
     (\<forall>p \<in> set (parked_snapshots q). snapshot_ok (q_configuration q) p)"

lemma waitPeers_post:
  assumes "requests_ok q" "prepared_q q"
  shows "case waitPeers q e of
      (Some out, _, _) \<Rightarrow> aborted q out
    | (None, q', _) \<Rightarrow> keeps_buffers q q' \<and> requests_ok q' \<and> requested q' = requested q \<and>
        q_inventory q' = q_inventory q \<and> q_finalInventory q' = q_finalInventory q \<and>
        q_parkedThreadCount q' = q_requestedThreadCount q' \<and>
        q_requestedThreadCount q' = q_requestedThreadCount q"
proof -
  have len: "length (sortSnapshots n xs) = length xs" for n xs
    by (simp add: sortSnapshots_def)
  have ab: "aborted q (abortEnter q' e' st msg)"
    if "same_coordinator q q'" "st \<noteq> kOk" "st \<noteq> kResumeFailed" for q' e' st msg
    using aborted_trans [OF that(1) abortEnter_aborted] that(2,3) .
  show ?thesis
    using assms
    by (auto simp: waitPeers_def Let_def len keeps_buffers_def same_coordinator_def prepared_q_def
        requests_ok_def requested_def intro!: ab split: prod.splits)
qed

definition pair_ok :: "ThreadQuiescenceConfiguration \<Rightarrow> uintptr \<Rightarrow> ParkedThreadSnapshot \<Rightarrow> int \<Rightarrow> bool" where
  "pair_ok cfg targetEnd p r \<longleftrightarrow>
     threadId p = r \<and> snapshotEpoch p = cfg_epoch cfg \<and>
     programCounter p \<noteq> 0 \<and> programCounter p AND 3 = 0 \<and>
     \<not> (cfg_targetAddress cfg \<le> programCounter p \<and> programCounter p < targetEnd)"

lemma checkParked_Cons:
  "checkParked targetEnd ((p, r) # prs) q e =
     (if pair_ok (q_configuration q) targetEnd p r then checkParked targetEnd prs q e
      else checkParked targetEnd [(p, r)] q e)"
  by (auto simp: pair_ok_def Let_def)

lemma checkParked_single: "\<not> pair_ok (q_configuration q) targetEnd p r \<Longrightarrow>
    case checkParked targetEnd [(p, r)] q e of None \<Rightarrow> False | Some out \<Rightarrow> aborted q out"
  by (auto simp: pair_ok_def Let_def unsafeResult_aborted abortEnter_aborted)

lemma checkParked_post:
  "case checkParked targetEnd prs q e of
     Some out \<Rightarrow> aborted q out
   | None \<Rightarrow> (\<forall>(p, r) \<in> set prs. pair_ok (q_configuration q) targetEnd p r)"
proof (induction prs)
  case (Cons pr prs)
  obtain p r where "pr = (p, r)"
    by (metis surj_pair)
  show ?case
  proof (cases "pair_ok (q_configuration q) targetEnd p r")
    case True
    with checkParked_Cons [of targetEnd p r prs q e] Cons \<open>pr = (p, r)\<close> show ?thesis
      by (auto simp del: checkParked.simps split: option.splits)
  next
    case False
    with checkParked_Cons [of targetEnd p r prs q e] \<open>pr = (p, r)\<close> checkParked_single [OF False, of e]
    show ?thesis
      by (auto simp del: checkParked.simps split: option.splits)
  qed
qed simp

lemma checkParked_aborted: "checkParked targetEnd prs q e = Some out \<Longrightarrow> aborted q out"
  using checkParked_post [where targetEnd = targetEnd and prs = prs and q = q and e = e] by simp

lemma snapshots_ok:
  assumes "validConfiguration cfg" "rangeEnd (cfg_targetAddress cfg) (cfg_targetSize cfg) = Some targetEnd"
    and "\<forall>(p, r) \<in> set (zip ps rs). pair_ok cfg targetEnd p r" "length ps = length rs"
  shows "map threadId ps = rs" "\<forall>p \<in> set ps. snapshot_ok cfg p"
proof -
  have pair: "pair_ok cfg targetEnd (ps ! i) (rs ! i)" if "i < length ps" for i
    using assms(3,4) that by (auto simp: set_zip)
  then show "map threadId ps = rs"
    using assms(4) by (auto simp: pair_ok_def intro: nth_equalityI)
  note re = rangeEnd_unat(1) [OF assms(2)]
  have lim: "unat (cfg_targetAddress cfg) + unat (cfg_targetSize cfg) < 2 ^ 64"
    using assms(2) by (simp add: rangeEnd_Some_iff)
  show "\<forall>p \<in> set ps. snapshot_ok cfg p"
    using pair
    by (auto simp: in_set_conv_nth snapshot_ok_def pair_ok_def range_bytes_iff [OF lim]
        word_le_nat_alt word_less_nat_alt re)
qed

lemma exact_inventory:
  assumes "validInventory (q_configuration q) b n = (True, b')" "finalInventoryIsExact (q\<lparr>q_finalInventory := b'\<rparr>) n"
  shows "set (take (Suc (q_requestedThreadCount q)) b') =
    insert (cfg_currentThreadId (q_configuration q)) (set (requested q))"
proof -
  have n: "n = Suc (q_requestedThreadCount q)"
    and f: "filter (\<lambda>t. t \<noteq> cfg_currentThreadId (q_configuration q)) (take n b') = requested q"
    using assms(2) by (auto simp: finalInventoryIsExact_def exactLoop_iff requested_def)
  have "set (requested q) = set (take n b') - {cfg_currentThreadId (q_configuration q)}"
    unfolding f [symmetric] by auto
  then show ?thesis
    using validInventory_True(6) [OF assms(1)] n by auto
qed

definition confirmed :: "'e ThreadQuiescenceCoordinator \<Rightarrow> 'e quiescence_outcome \<Rightarrow> bool" where
  "confirmed q out \<longleftrightarrow>
     (case out of (r, q', e') \<Rightarrow>
        qr_status r = kOk \<and> qr_state r = kExclusive \<and>
        (\<exists>b. q' = q\<lparr>q_finalInventory := b, q_state := kExclusive\<rparr> \<and> length b = length (q_finalInventory q) \<and>
           set (take (Suc (q_requestedThreadCount q)) b) =
             insert (cfg_currentThreadId (q_configuration q)) (set (requested q))))"

lemma confirmInventory_post:
  assumes "prepared_q q"
  shows "case confirmInventory lastPass q e of
      (Some out, _, _, _) \<Rightarrow> aborted q out \<or> confirmed q out
    | (None, _, q', _) \<Rightarrow> keeps_buffers q q' \<and> (requests_ok q \<longrightarrow> requests_ok q') \<and>
        requested q' = requested q \<and> \<not> lastPass"
proof -
  obtain ok b n e1 where rd: "readInventory q (q_finalInventory q) e = (ok, b, n, e1)"
    by (metis prod_cases4)
  obtain v b' where vi: "validInventory (q_configuration q) b n = (v, b')"
    by (metis surj_pair)
  have len: "length b = length (q_finalInventory q)" "length b' = length b"
    using readInventory_length [OF rd] validInventory_length [OF vi] by simp_all
  have ab: "aborted q (abortEnter (q\<lparr>q_finalInventory := x\<rparr>) e' st msg)"
    if "st \<noteq> kOk" "st \<noteq> kResumeFailed" for x e' st msg
    by (rule aborted_trans [OF _ abortEnter_aborted]) (use that in \<open>simp_all add: same_coordinator_def\<close>)
  have conf: "confirmed q (quiescenceResult (q\<lparr>q_finalInventory := b', q_state := kExclusive\<rparr>) kOk msg,
      q\<lparr>q_finalInventory := b', q_state := kExclusive\<rparr>, e1)"
    if "v" "finalInventoryIsExact (q\<lparr>q_finalInventory := b'\<rparr>) n" for msg
    using exact_inventory [of q b n b'] vi that len by (auto simp: confirmed_def intro: exI [of _ b'])
  note red = confirmInventory_def rd vi Let_def prod.case
  let ?q = "q\<lparr>q_finalInventory := b'\<rparr>"
  consider "\<not> ok" | "ok" "\<not> v \<or> \<not> finalInventoryContainsEveryRequested ?q n"
    | "ok" "v" "finalInventoryContainsEveryRequested ?q n" "finalInventoryIsExact ?q n"
    | "ok" "v" "finalInventoryContainsEveryRequested ?q n" "\<not> finalInventoryIsExact ?q n" "lastPass"
    | "ok" "v" "finalInventoryContainsEveryRequested ?q n" "\<not> finalInventoryIsExact ?q n" "\<not> lastPass"
    by blast
  then show ?thesis
  proof cases
    case 1
    then show ?thesis by (simp add: red ab)
  next
    case 2
    then show ?thesis by (auto simp: red ab)
  next
    case 3
    then show ?thesis by (simp add: red conf)
  next
    case 4
    then show ?thesis by (simp add: red ab)
  next
    case 5
    then show ?thesis
      using assms len by (simp add: red keeps_buffers_def prepared_q_def same_coordinator_def
          requests_ok_def requested_def)
  qed
qed

definition enter_post :: "'e ThreadQuiescenceCoordinator \<Rightarrow> 'e quiescence_outcome \<Rightarrow> bool" where
  "enter_post q out \<longleftrightarrow>
     aborted q out \<or>
     (case out of (r, q', e') \<Rightarrow>
        qr_status r = kOk \<and> qr_state r = kExclusive \<and> same_coordinator q q' \<and> exclusive_post q')"

lemma enter_post_trans: "same_coordinator q q' \<Longrightarrow> enter_post q' out \<Longrightarrow> enter_post q out"
  by (auto simp: enter_post_def intro: aborted_trans same_coordinator_trans)

lemma confirmed_exclusive:
  assumes "confirmed q out" "requests_ok q" "map threadId (parked_snapshots q) = requested q"
    "\<forall>p \<in> set (parked_snapshots q). snapshot_ok (q_configuration q) p"
  shows "enter_post q out"
  using assms
  by (auto simp: confirmed_def enter_post_def exclusive_post_def requests_ok_def requested_def
      parked_snapshots_def same_coordinator_def)

lemma snapshots_of_check:
  assumes "prepared_q q" "requests_ok q" "q_parkedThreadCount q = q_requestedThreadCount q"
    and "checkParked
      (case rangeEnd (cfg_targetAddress (q_configuration q)) (cfg_targetSize (q_configuration q)) of
         None \<Rightarrow> 0 | Some x \<Rightarrow> x)
      (zip (take (q_parkedThreadCount q) (q_parkedThreads q))
        (take (q_parkedThreadCount q) (q_requestedThreadIds q))) q e = None"
  shows "map threadId (parked_snapshots q) = requested q"
    "\<forall>p \<in> set (parked_snapshots q). snapshot_ok (q_configuration q) p"
proof -
  have vc: "validConfiguration (q_configuration q)"
    using assms(1) by (simp add: prepared_q_def)
  then obtain te where te: "rangeEnd (cfg_targetAddress (q_configuration q))
      (cfg_targetSize (q_configuration q)) = Some te"
    by (auto simp: validConfiguration_def)
  have pairs: "\<forall>(p, r) \<in> set (zip (parked_snapshots q) (requested q)). pair_ok (q_configuration q) te p r"
    using checkParked_post [where targetEnd = te and prs = "zip (parked_snapshots q) (requested q)" and q = q and e = e]
      assms(3,4) te
    by (simp add: parked_snapshots_def requested_def)
  have len: "length (parked_snapshots q) = length (requested q)"
    using assms(1-3) by (simp add: parked_snapshots_def requested_def requests_ok_def prepared_q_def)
  show "map threadId (parked_snapshots q) = requested q"
    "\<forall>p \<in> set (parked_snapshots q). snapshot_ok (q_configuration q) p"
    using snapshots_ok [OF vc te pairs len] by blast+
qed

abbreviation snapshot_check :: "'e ThreadQuiescenceCoordinator \<Rightarrow> 'e \<Rightarrow> 'e quiescence_outcome option" where
  "snapshot_check q e \<equiv> checkParked
     (case rangeEnd (cfg_targetAddress (q_configuration q)) (cfg_targetSize (q_configuration q)) of
        None \<Rightarrow> 0 | Some x \<Rightarrow> x)
     (zip (take (q_parkedThreadCount q) (q_parkedThreads q))
       (take (q_parkedThreadCount q) (q_requestedThreadIds q))) q e"

lemma pass_tail_post:
  assumes "prepared_q q" "requests_ok q" "q_parkedThreadCount q = q_requestedThreadCount q"
    and ci: "confirmInventory lp q e = (s, n, q', e')"
    and rest: "prepared_q q' \<Longrightarrow> requests_ok q' \<Longrightarrow> enter_post q' rest"
  shows "enter_post q (case snapshot_check q e of Some out \<Rightarrow> out
    | None \<Rightarrow> (case s of Some out \<Rightarrow> out | None \<Rightarrow> rest))"
proof (cases "snapshot_check q e")
  case (Some out)
  then show ?thesis
    by (simp add: enter_post_def checkParked_aborted)
next
  case None
  note snaps = snapshots_of_check [OF assms(1-3) None]
    and conf = confirmInventory_post [OF assms(1), of lp e, unfolded ci prod.case]
  show ?thesis
  proof (cases s)
    case (Some out)
    then show ?thesis
      using conf confirmed_exclusive [OF _ assms(2) snaps, of out] None
      by (auto simp: enter_post_def)
  next
    case none: None
    then have "same_coordinator q q'" "prepared_q q'" "requests_ok q'"
      using conf assms(1,2) by (simp_all add: keeps_buffers_def)
    then show ?thesis
      using enter_post_trans rest None none by simp
  qed
qed

lemma enterPasses_post:
  "prepared_q q \<Longrightarrow> requests_ok q \<Longrightarrow> enter_post q (enterPasses left n q e)"
proof (induction left arbitrary: n q e)
  case 0
  then show ?case
    by (simp add: enter_post_def abortEnter_aborted)
next
  case (Suc left)
  obtain s1 q1 e1 where pk: "parkPeers (take n (q_inventory q)) q e = (s1, q1, e1)"
    by (metis prod_cases3)
  note p1 = parkPeers_post [OF Suc.prems(2), of "take n (q_inventory q)" e, unfolded pk park_post_def prod.case]
  show ?case
  proof (cases s1)
    case (Some out)
    with p1 pk show ?thesis
      by (simp add: enter_post_def)
  next
    case None
    then have q1: "prepared_q q1" "requests_ok q1" "same_coordinator q q1"
      using p1 Suc.prems by (simp_all add: keeps_buffers_def)
    obtain s2 q2 e2 where wt: "waitPeers q1 e1 = (s2, q2, e2)"
      by (metis prod_cases3)
    note p2 = waitPeers_post [OF q1(2,1), of e1, unfolded wt prod.case]
    have "enter_post q1 (enterPasses (Suc left) n q e)"
    proof (cases s2)
      case (Some out)
      with p2 wt pk None show ?thesis
        by (simp add: enter_post_def)
    next
      case none2: None
      then have q2: "prepared_q q2" "requests_ok q2" "same_coordinator q1 q2"
          "q_parkedThreadCount q2 = q_requestedThreadCount q2"
        using p2 q1 by (simp_all add: keeps_buffers_def)
      obtain s3 n3 q3 e3 where ci: "confirmInventory (left = 0) q2 e2 = (s3, n3, q3, e3)"
        by (metis prod_cases4)
      have "enterPasses (Suc left) n q e = (case snapshot_check q2 e2 of Some out \<Rightarrow> out
          | None \<Rightarrow> (case s3 of Some out \<Rightarrow> out | None \<Rightarrow> enterPasses left n3 q3 e3))"
        using pk wt None none2 ci by (simp add: Let_def split: option.splits)
      then have "enter_post q2 (enterPasses (Suc left) n q e)"
        using pass_tail_post [OF q2(1,2,4) ci Suc.IH] by simp
      with q2(3) show ?thesis
        by (rule enter_post_trans)
    qed
    with q1(3) show ?thesis
      by (rule enter_post_trans)
  qed
qed

lemma enter_post_enter:
  assumes "prepared_q q" "q_state q = kPrepared"
  shows "enter_post q (enter q e)"
proof -
  let ?q = "q\<lparr>q_requestedThreadCount := 0, q_parkedThreadCount := 0\<rparr>"
  obtain ok b n e1 where rd: "readInventory ?q (q_inventory q) e = (ok, b, n, e1)"
    by (metis prod_cases4)
  obtain v b' where vi: "validInventory (q_configuration q) b n = (v, b')"
    by (metis surj_pair)
  have len: "length b = length (q_inventory q)" "length b' = length b"
    using readInventory_length [OF rd] validInventory_length [OF vi] by simp_all
  have ab: "enter_post q (abortEnter (?q\<lparr>q_inventory := x\<rparr>) e' st msg)"
    if "st \<noteq> kOk" "st \<noteq> kResumeFailed" for x e' st msg
    using that by (auto simp: enter_post_def same_coordinator_def
        intro!: aborted_trans [OF _ abortEnter_aborted])
  have "prepared_q (?q\<lparr>q_inventory := b'\<rparr>)" "requests_ok (?q\<lparr>q_inventory := b'\<rparr>)"
    using assms(1) len by (simp_all add: prepared_q_def requests_ok_def requested_def)
  from enterPasses_post [OF this]
  have ps: "enter_post q (enterPasses k m (?q\<lparr>q_inventory := b'\<rparr>) e')" for k m e'
    by (rule enter_post_trans [rotated]) (simp add: same_coordinator_def)
  show ?thesis
    using assms(2) ab ps by (auto simp: enter_def Let_def rd vi)
qed

lemma prepareQuiescence_post:
  assumes "prepareQuiescence q e = (r, q', e')"
  shows "same_coordinator q q'" "qr_state r = q_state q'"
    "qr_status r = kOk \<Longrightarrow> q_state q = kEmpty \<and> q_state q' = kPrepared \<and> prepared_q q'"
    "q_parkAttempted q' = q_parkAttempted q"
proof -
  obtain ok b n e1 where rd: "readInventory (q\<lparr>q_inventory := replicate (cfg_maximumThreads (q_configuration q)) 0,
      q_finalInventory := replicate (cfg_maximumThreads (q_configuration q)) 0,
      q_requestedThreadIds := replicate (cfg_maximumThreads (q_configuration q)) 0,
      q_parkedThreads := replicate (cfg_maximumThreads (q_configuration q))
        \<lparr>threadId = - 1, programCounter = 0, snapshotEpoch = 0\<rparr>\<rparr>)
      (replicate (cfg_maximumThreads (q_configuration q)) 0) e = (ok, b, n, e1)"
    by (metis prod_cases4)
  obtain v b' where vi: "validInventory (q_configuration q) b n = (v, b')"
    by (metis surj_pair)
  have len: "length b' = cfg_maximumThreads (q_configuration q)"
    using readInventory_length [OF rd] validInventory_length [OF vi] by simp
  show "same_coordinator q q'" "qr_state r = q_state q'"
    "qr_status r = kOk \<Longrightarrow> q_state q = kEmpty \<and> q_state q' = kPrepared \<and> prepared_q q'"
    "q_parkAttempted q' = q_parkAttempted q"
    using assms len
    by (auto simp: prepareQuiescence_def Let_def rd vi same_coordinator_def prepared_q_def
        split: if_splits)
qed

end
