(* ===== verification/Quiescence_World.thy ===== *)
theory Quiescence_World
  imports Thread_Quiescence
begin

text \<open>
  The stop-the-world protocol against a world of threads.  The environment of the backend
  is viewed through the set of live threads and the set of parked threads; the contract is
  what the header documents of the four callbacks.  From it follows that an exclusive
  window really holds every peer, and that a failed \<open>enter\<close> and a successful
  \<open>leave\<close> really let every thread go.
\<close>

section \<open>The contract of the backend\<close>

definition thread_world ::
  "('e \<Rightarrow> int set) \<Rightarrow> ('e \<Rightarrow> int set) \<Rightarrow> 'e ThreadQuiescenceBackend \<Rightarrow> bool" where
  "thread_world live parked b \<longleftrightarrow>
     (\<forall>f e n ok w c e'. enumerateThreads b = Some f \<and> f e n = (ok, w, c, e') \<longrightarrow>
        parked e' = parked e \<and> (ok \<and> c \<le> n \<longrightarrow> c = length w \<and> set w = live e')) \<and>
     (\<forall>f e t ep ok e'. requestThreadPark b = Some f \<and> f e t ep = (ok, e') \<longrightarrow>
        parked e \<subseteq> parked e') \<and>
     (\<forall>f e ep ts n tm ok w c e'. waitForParkedThreads b = Some f \<and> f e ep ts n tm = (ok, w, c, e') \<longrightarrow>
        parked e \<subseteq> parked e' \<and> (ok \<longrightarrow> set ts \<subseteq> parked e')) \<and>
     (\<forall>f e ep ok e'. resumeParkedThreads b = Some f \<and> f e ep = (ok, e') \<longrightarrow>
        (ok \<longrightarrow> parked e' = {}))"

text \<open>As long as no park has been attempted, nothing is parked.\<close>

definition unparked_inv :: "('e \<Rightarrow> int set) \<Rightarrow> 'e ThreadQuiescenceCoordinator \<Rightarrow> 'e \<Rightarrow> bool" where
  "unparked_inv parked q e \<longleftrightarrow> (\<not> q_parkAttempted q \<longrightarrow> parked e = {})"

definition released :: "('e \<Rightarrow> int set) \<Rightarrow> 'e quiescence_outcome \<Rightarrow> bool" where
  "released parked out \<longleftrightarrow>
     (case out of (r, q', e') \<Rightarrow> qr_status r \<noteq> kResumeFailed \<longrightarrow> parked e' = {})"

lemma world_rules:
  assumes "thread_world live parked b" "quiescenceBackendComplete b"
  shows "the (enumerateThreads b) e n = (ok, w, c, e') \<Longrightarrow>
      parked e' = parked e \<and> (ok \<and> c \<le> n \<longrightarrow> c = length w \<and> set w = live e')"
    "the (requestThreadPark b) e t ep = (ok, e') \<Longrightarrow> parked e \<subseteq> parked e'"
    "the (waitForParkedThreads b) e ep ts n tm = (ok, ps, c, e') \<Longrightarrow>
      parked e \<subseteq> parked e' \<and> (ok \<longrightarrow> set ts \<subseteq> parked e')"
    "the (resumeParkedThreads b) e ep = (ok, e') \<Longrightarrow> ok \<Longrightarrow> parked e' = {}"
  using assms unfolding quiescenceBackendComplete_def thread_world_def
  by (metis option.collapse)+

lemma abortEnter_released:
  assumes "thread_world live parked (q_backend q)" "quiescenceBackendComplete (q_backend q)"
    "unparked_inv parked q e"
  shows "released parked (abortEnter q e st msg)"
  using assms(3) world_rules(4) [OF assms(1,2)]
  by (auto simp: released_def abortEnter_def Let_def unparked_inv_def split: prod.splits bool.splits)

lemma unsafeResult_released: "released parked out \<Longrightarrow> released parked (unsafeResult p out)"
  by (auto simp: released_def unsafeResult_def split: prod.splits)

lemma checkParked_released:
  assumes "thread_world live parked (q_backend q)" "quiescenceBackendComplete (q_backend q)"
    "unparked_inv parked q e" "checkParked te prs q e = Some out"
  shows "released parked out"
  using assms(4)
proof (induction prs)
  case (Cons pr prs)
  then show ?case
    by (cases pr) (auto simp: Let_def intro: unsafeResult_released abortEnter_released [OF assms(1-3)]
        split: if_splits)
qed simp

lemma parkPeers_world:
  assumes "thread_world live parked (q_backend q)" "quiescenceBackendComplete (q_backend q)"
    "unparked_inv parked q e"
  shows "case parkPeers ts q e of
      (Some out, _, _) \<Rightarrow> released parked out
    | (None, q', e') \<Rightarrow> unparked_inv parked q' e' \<and> parked e \<subseteq> parked e'"
  using assms
proof (induction ts arbitrary: q e)
  case (Cons t rest)
  let ?q = "q\<lparr>q_parkAttempted := True\<rparr>"
  obtain ok e1 where rq: "the (requestThreadPark (q_backend q)) e t (cfg_epoch (q_configuration q)) = (ok, e1)"
    by (metis surj_pair)
  have sub: "parked e \<subseteq> parked e1"
    using world_rules(2) [OF Cons.prems(1,2) rq] .
  have rel: "released parked (abortEnter ?q e1 st msg)" for st msg
    using Cons.prems by (intro abortEnter_released) (auto simp: unparked_inv_def)
  have IH: "case parkPeers rest (?q\<lparr>q_requestedThreadIds := ids, q_requestedThreadCount := k\<rparr>) e1 of
      (Some out, _, _) \<Rightarrow> released parked out
    | (None, q', e') \<Rightarrow> unparked_inv parked q' e' \<and> parked e \<subseteq> parked e'" for ids k
    using Cons.IH [of "?q\<lparr>q_requestedThreadIds := ids, q_requestedThreadCount := k\<rparr>" e1] Cons.prems sub
    by (auto simp: unparked_inv_def split: prod.splits option.splits)
  show ?case
    using Cons.IH [OF Cons.prems] IH rel abortEnter_released [OF Cons.prems] rq
    by (cases ok) (simp_all add: Let_def)
qed simp

lemma waitPeers_world:
  assumes "thread_world live parked (q_backend q)" "quiescenceBackendComplete (q_backend q)"
    "unparked_inv parked q e" "requests_ok q"
  shows "case waitPeers q e of
      (Some out, _, _) \<Rightarrow> released parked out
    | (None, q', e') \<Rightarrow> unparked_inv parked q' e' \<and> set (requested q) \<subseteq> parked e'"
proof -
  have rel: "released parked (abortEnter q' e' st msg)"
    if "q_backend q' = q_backend q" "unparked_inv parked q' e'" for q' e' st msg
    using abortEnter_released [of live parked q' e'] assms that by simp
  have att: "q_requestedThreadCount q \<noteq> 0 \<Longrightarrow> requested q \<noteq> [] \<and> q_parkAttempted q"
    using assms(4) by (auto simp: requests_ok_def requested_def)
  show ?thesis
  proof (cases "q_requestedThreadCount q = 0")
    case True
    then show ?thesis
      using assms(3) by (auto simp: waitPeers_def Let_def unparked_inv_def requested_def)
  next
    case False
    obtain ok w c e1 where wt: "the (waitForParkedThreads (q_backend q)) e (cfg_epoch (q_configuration q))
        (requested q) (length (q_parkedThreads q)) (cfg_waitTimeoutMilliseconds (q_configuration q)) = (ok, w, c, e1)"
      by (metis prod_cases4)
    have "ok \<Longrightarrow> set (requested q) \<subseteq> parked e1"
      using world_rules(3) [OF assms(1,2) wt] by simp
    with False att wt show ?thesis
      by (auto simp: waitPeers_def Let_def unparked_inv_def requested_def intro!: rel)
  qed
qed

text \<open>An outcome of \<open>enter\<close> that is sound for the world.\<close>

definition held :: "('e \<Rightarrow> int set) \<Rightarrow> ('e \<Rightarrow> int set) \<Rightarrow> 'e quiescence_outcome \<Rightarrow> bool" where
  "held live parked out \<longleftrightarrow>
     (case out of (r, q', e') \<Rightarrow>
        if qr_status r = kOk
        then live e' \<subseteq> insert (cfg_currentThreadId (q_configuration q')) (parked e') \<and>
             unparked_inv parked q' e'
        else released parked out)"

lemma held_abort:
  "st \<noteq> kOk \<Longrightarrow> released parked (abortEnter q e st msg) \<Longrightarrow> held live parked (abortEnter q e st msg)"
  by (auto simp: held_def abortEnter_def Let_def split: prod.splits bool.splits)

lemma held_unsafe: "aborted q out \<Longrightarrow> released parked out \<Longrightarrow> held live parked out"
  by (auto simp: held_def aborted_def)

lemma readInventory_live:
  assumes "thread_world live parked (q_backend q)" "quiescenceBackendComplete (q_backend q)"
    "readInventory q buffer e = (ok, b, n, e1)"
  shows "parked e1 = parked e" "ok \<Longrightarrow> n \<le> length buffer \<Longrightarrow> set (take n b) = live e1"
  using assms(3) world_rules(1) [OF assms(1,2)]
  by (auto simp: readInventory_def storeInto_def split: prod.splits)

lemma confirmInventory_world:
  assumes c: "thread_world live parked (q_backend q)" "quiescenceBackendComplete (q_backend q)"
    "unparked_inv parked q e" "set (requested q) \<subseteq> parked e"
  shows "case confirmInventory lp q e of
      (Some out, _, _, _) \<Rightarrow> held live parked out
    | (None, _, q', e') \<Rightarrow> unparked_inv parked q' e' \<and> q_backend q' = q_backend q"
proof -
  obtain ok b n e1 where rd: "readInventory q (q_finalInventory q) e = (ok, b, n, e1)"
    by (metis prod_cases4)
  obtain v b' where vi: "validInventory (q_configuration q) b n = (v, b')"
    by (metis surj_pair)
  note rl = readInventory_live [OF c(1,2) rd]
  have inv: "unparked_inv parked (q\<lparr>q_finalInventory := x\<rparr>) e1" for x
    using c(3) rl(1) by (simp add: unparked_inv_def)
  have ab: "held live parked (abortEnter (q\<lparr>q_finalInventory := x\<rparr>) e1 st msg)"
    if "st \<noteq> kOk" for x st msg
    using c(1,2) inv by (intro held_abort [OF that] abortEnter_released) auto
  let ?q = "q\<lparr>q_finalInventory := b'\<rparr>"
  have live: "live e1 \<subseteq> insert (cfg_currentThreadId (q_configuration q)) (parked e1)"
    if "ok" "v" "finalInventoryIsExact ?q n"
  proof -
    have "live e1 = set (take n b')"
      using that vi rl(2) validInventory_True(2,8) [of "q_configuration q" b n b']
        readInventory_length [OF rd] by auto
    also have "\<dots> = insert (cfg_currentThreadId (q_configuration q)) (set (requested q))"
      using exact_inventory [of q b n b'] vi that by (auto simp: finalInventoryIsExact_def)
    finally show ?thesis
      using c(4) rl(1) by auto
  qed
  show ?thesis
    unfolding confirmInventory_def rd vi Let_def prod.case
    using ab live inv
    by (auto simp: held_def unparked_inv_def)
qed

lemma enterPasses_world:
  assumes "thread_world live parked (q_backend q)" "prepared_q q" "requests_ok q" "unparked_inv parked q e"
  shows "held live parked (enterPasses left n q e)"
  using assms
proof (induction left arbitrary: n q e)
  case 0
  then show ?case
    by (simp add: held_abort abortEnter_released prepared_q_def)
next
  case (Suc left)
  have bc: "quiescenceBackendComplete (q_backend q)"
    using Suc.prems(2) by (simp add: prepared_q_def)
  obtain s1 q1 e1 where pk: "parkPeers (take n (q_inventory q)) q e = (s1, q1, e1)"
    by (metis prod_cases3)
  note p1 = parkPeers_post [OF Suc.prems(3), of "take n (q_inventory q)" e, unfolded pk park_post_def prod.case]
    and w1 = parkPeers_world [OF Suc.prems(1) bc Suc.prems(4), of "take n (q_inventory q)", unfolded pk prod.case]
  show ?case
  proof (cases s1)
    case (Some out)
    with p1 w1 pk show ?thesis
      by (auto intro: held_unsafe)
  next
    case None
    then have q1: "prepared_q q1" "requests_ok q1" "q_backend q1 = q_backend q" "unparked_inv parked q1 e1"
      using p1 w1 Suc.prems(2) by (simp_all add: keeps_buffers_def same_coordinator_def)
    obtain s2 q2 e2 where wt: "waitPeers q1 e1 = (s2, q2, e2)"
      by (metis prod_cases3)
    note p2 = waitPeers_post [OF q1(2,1), of e1, unfolded wt prod.case]
      and w2 = waitPeers_world [OF _ _ q1(4,2), of live, unfolded q1(3) wt prod.case, OF Suc.prems(1) bc]
    show ?thesis
    proof (cases s2)
      case (Some out)
      with p2 w2 wt pk None show ?thesis
        by (auto intro: held_unsafe)
    next
      case none2: None
      then have q2: "prepared_q q2" "requests_ok q2" "q_backend q2 = q_backend q"
          "unparked_inv parked q2 e2" "set (requested q2) \<subseteq> parked e2"
        using p2 w2 q1 by (simp_all add: keeps_buffers_def same_coordinator_def)
      obtain s3 n3 q3 e3 where ci: "confirmInventory (left = 0) q2 e2 = (s3, n3, q3, e3)"
        by (metis prod_cases4)
      note p3 = confirmInventory_post [OF q2(1), of "left = 0" e2, unfolded ci prod.case]
        and w3 = confirmInventory_world [OF _ _ q2(4,5), of live "left = 0", unfolded q2(3) ci prod.case,
            OF Suc.prems(1) bc]
      have chk: "held live parked out" if "snapshot_check q2 e2 = Some out" for out
        by (rule held_unsafe [OF checkParked_aborted [OF that] checkParked_released [OF _ _ q2(4) that]])
           (use Suc.prems(1) bc q2(3) in simp_all)
      have rest: "held live parked (enterPasses left n3 q3 e3)" if "s3 = None"
        using that p3 w3 q2 Suc.prems(1) by (intro Suc.IH) (auto simp: keeps_buffers_def)
      show ?thesis
        using pk wt None none2 ci chk rest w3 by (auto simp: Let_def split: option.splits)
    qed
  qed
qed

lemma enter_world:
  assumes "thread_world live parked (q_backend q)" "prepared_q q" "q_state q = kPrepared"
    "unparked_inv parked q e"
  shows "held live parked (enter q e)"
proof -
  let ?q = "q\<lparr>q_requestedThreadCount := 0, q_parkedThreadCount := 0\<rparr>"
  have bc: "quiescenceBackendComplete (q_backend q)"
    using assms(2) by (simp add: prepared_q_def)
  obtain ok b n e1 where rd: "readInventory ?q (q_inventory q) e = (ok, b, n, e1)"
    by (metis prod_cases4)
  obtain v b' where vi: "validInventory (q_configuration q) b n = (v, b')"
    by (metis surj_pair)
  have "parked e1 = parked e"
    using readInventory_live(1) [of live parked ?q] assms(1) bc rd by simp
  then have inv: "unparked_inv parked (?q\<lparr>q_inventory := x\<rparr>) e1" for x
    using assms(4) by (simp add: unparked_inv_def)
  have ab: "held live parked (abortEnter (?q\<lparr>q_inventory := x\<rparr>) e1 st msg)" if "st \<noteq> kOk" for x st msg
    using assms(1) bc inv by (intro held_abort [OF that] abortEnter_released) auto
  have "prepared_q (?q\<lparr>q_inventory := b'\<rparr>)" "requests_ok (?q\<lparr>q_inventory := b'\<rparr>)"
    using assms(2) readInventory_length [OF rd] validInventory_length [OF vi]
    by (simp_all add: prepared_q_def requests_ok_def requested_def)
  then have "held live parked (enterPasses k n (?q\<lparr>q_inventory := b'\<rparr>) e1)" for k
    using assms(1) inv by (intro enterPasses_world) auto
  with ab assms(3) show ?thesis
    by (auto simp: enter_def Let_def rd vi)
qed

lemma prepareQuiescence_reads:
  assumes "prepareQuiescence q e = (r, q', e')"
  shows "e' = e \<or> (\<exists>q0 buf ok b n. q_backend q0 = q_backend q \<and> readInventory q0 buf e = (ok, b, n, e'))"
proof -
  let ?n = "cfg_maximumThreads (q_configuration q)"
  define q0 where "q0 = q\<lparr>q_inventory := replicate ?n 0, q_finalInventory := replicate ?n 0,
      q_requestedThreadIds := replicate ?n 0,
      q_parkedThreads := replicate ?n \<lparr>threadId = - 1, programCounter = 0, snapshotEpoch = 0\<rparr>\<rparr>"
  obtain ok b n e1 where rd: "readInventory q0 (q_inventory q0) e = (ok, b, n, e1)"
    by (metis prod_cases4)
  have "e' = e \<or> e' = e1"
    using assms rd by (auto simp: prepareQuiescence_def Let_def q0_def split: if_splits prod.splits)
  moreover have "q_backend q0 = q_backend q"
    by (simp add: q0_def)
  ultimately show ?thesis
    using rd by blast
qed

lemma prepare_world:
  assumes "thread_world live parked b" "parked e0 = {}"
    "prepareQuiescence (newCoordinator cfg b) e0 = (r, q, e)" "qr_status r = kOk"
  shows "q_backend q = b" "q_configuration q = cfg" "prepared_q q" "q_state q = kPrepared"
    "unparked_inv parked q e" "\<not> q_parkAttempted q"
proof -
  note p = prepareQuiescence_post [OF assms(3)]
  show b: "q_backend q = b" "q_configuration q = cfg" "prepared_q q" "q_state q = kPrepared"
    "\<not> q_parkAttempted q"
    using p assms(4) by (simp_all add: same_coordinator_def newCoordinator_def)
  have bc: "quiescenceBackendComplete b"
    using b(1,3) by (simp add: prepared_q_def)
  have "parked e = parked e0"
    using prepareQuiescence_reads [OF assms(3)] readInventory_live(1) assms(1) bc
    by (metis newCoordinator_def ThreadQuiescenceCoordinator.select_convs(2))
  then show "unparked_inv parked q e"
    using assms(2) by (simp add: unparked_inv_def)
qed


section \<open>A concrete world of threads\<close>

type_synonym demo_world = "int list \<times> int list"

definition demo_backend :: "demo_world ThreadQuiescenceBackend" where
  "demo_backend =
     \<lparr>enumerateThreads = Some (\<lambda>e n. (length (fst e) \<le> n, take n (fst e), length (fst e), e)),
      requestThreadPark = Some (\<lambda>e t ep. (True, e)),
      waitForParkedThreads = Some (\<lambda>e ep ts n tm.
        (True, map (\<lambda>t. \<lparr>threadId = t, programCounter = 0x8000, snapshotEpoch = ep\<rparr>) ts,
         length ts, (fst e, snd e @ ts))),
      resumeParkedThreads = Some (\<lambda>e ep. (True, (fst e, [])))\<rparr>"

definition demo_config :: ThreadQuiescenceConfiguration where
  "demo_config = \<lparr>cfg_targetAddress = 0x1000, cfg_targetSize = 16, cfg_currentThreadId = 7,
     cfg_epoch = 1, cfg_maximumThreads = 4, cfg_maximumStabilizationPasses = 2,
     cfg_waitTimeoutMilliseconds = 100\<rparr>"

lemma demo_world: "thread_world (\<lambda>e. set (fst e)) (\<lambda>e. set (snd e)) demo_backend"
  by (auto simp: thread_world_def demo_backend_def)

definition demo_prepared :: "demo_world quiescence_outcome" where
  "demo_prepared = prepareQuiescence (newCoordinator demo_config demo_backend) ([9, 7, 8], [])"

definition demo_entered :: "demo_world quiescence_outcome" where
  "demo_entered = (case demo_prepared of (_, q, e) \<Rightarrow> enter q e)"

lemma demo_runs:
  "qr_status (fst demo_prepared) = kOk" "qr_status (fst demo_entered) = kOk"
  "qr_status (fst (case demo_entered of (_, q, e) \<Rightarrow> leave q e)) = kOk"
  by code_simp+


section \<open>Properties\<close>

text \<open>
  C9. The exclusive window holds every peer.  Take a fresh coordinator whose backend keeps
  its contract, prepare it, and let \<open>enter\<close> report success: then every live thread
  other than the caller is parked, the final inventory is exactly the caller and the
  requested threads, and every parked thread was seen in the right epoch at a non-null,
  aligned program counter outside the patch range.
\<close>

theorem enter_holds_every_peer:
  assumes "thread_world live parked b" "parked e0 = {}"
    and "prepareQuiescence (newCoordinator cfg b) e0 = (r0, q, e)" "qr_status r0 = kOk"
    and "enter q e = (r, q', e')" "qr_status r = kOk"
  shows "live e' \<subseteq> insert (cfg_currentThreadId cfg) (parked e') \<and> q_state q' = kExclusive \<and>
    set (take (Suc (q_requestedThreadCount q')) (q_finalInventory q')) =
      insert (cfg_currentThreadId cfg) (set (requested q')) \<and>
    map threadId (parked_snapshots q') = requested q' \<and>
    (\<forall>p \<in> set (parked_snapshots q').
       snapshotEpoch p = cfg_epoch cfg \<and> programCounter p \<noteq> 0 \<and> programCounter p AND 3 = 0 \<and>
       programCounter p \<notin> range_bytes (cfg_targetAddress cfg) (unat (cfg_targetSize cfg)))"
proof -
  note p = prepare_world [OF assms(1-4)]
  have "same_coordinator q q'" "exclusive_post q'"
    using enter_post_enter [OF p(3,4), of e] assms(5,6) by (auto simp: enter_post_def aborted_def)
  moreover have "held live parked (r, q', e')"
    using enter_world [of live parked q e] p assms(1,5) by simp
  ultimately show ?thesis
    using p(2) assms(6) by (simp add: held_def exclusive_post_def same_coordinator_def snapshot_ok_def)
qed

theorem enter_holds_every_peer_witness:
  "\<exists>r q' e'. demo_entered = (r, q', e') \<and> set (fst e') \<subseteq> insert 7 (set (snd e'))"
proof -
  obtain r0 q e where p: "demo_prepared = (r0, q, e)"
    by (metis prod_cases3)
  obtain r q' e' where en: "demo_entered = (r, q', e')"
    by (metis prod_cases3)
  have "qr_status r0 = kOk" "qr_status r = kOk" "enter q e = (r, q', e')"
    using demo_runs(1,2) p en unfolding demo_entered_def by (metis fst_conv prod.case)+
  then have "set (fst e') \<subseteq> insert 7 (set (snd e'))"
    using enter_holds_every_peer [OF demo_world _ p [unfolded demo_prepared_def], of r q' e']
    by (simp add: demo_config_def)
  with en show ?thesis
    by blast
qed

text \<open>
  C10. No failure of \<open>enter\<close> leaves a thread stopped: whenever it reports anything but
  success, the coordinator is in its failed state, and unless the report is that resuming
  itself failed, no thread is parked any more and the destructor will not touch the backend.
\<close>

theorem failed_enter_releases:
  assumes "thread_world live parked b" "parked e0 = {}"
    and "prepareQuiescence (newCoordinator cfg b) e0 = (r0, q, e)" "qr_status r0 = kOk"
    and "enter q e = (r, q', e')" "qr_status r \<noteq> kOk"
  shows "q_state q' = kFailed \<and>
    (if qr_status r = kResumeFailed then q_parkAttempted q'
     else parked e' = {} \<and> destroyCoordinator q' e' = e')"
proof -
  note p = prepare_world [OF assms(1-4)]
  have "aborted q (r, q', e')"
    using enter_post_enter [OF p(3,4), of e] assms(5,6) by (auto simp: enter_post_def)
  moreover have "held live parked (r, q', e')"
    using enter_world [of live parked q e] p assms(1,5) by simp
  ultimately show ?thesis
    using assms(6)
    by (auto simp: held_def aborted_def released_def destroyCoordinator_def split: option.splits)
qed

text \<open>
  C11. A complete cycle stops and restarts the process: after a successful \<open>prepare\<close>,
  \<open>enter\<close> and \<open>leave\<close> the coordinator is released, no thread is parked, and a
  second \<open>enter\<close> or \<open>leave\<close> is refused without reaching the backend.
\<close>

theorem quiescence_cycle:
  assumes "thread_world live parked b" "parked e0 = {}"
    and "prepareQuiescence (newCoordinator cfg b) e0 = (r0, q, e)" "qr_status r0 = kOk"
    and "enter q e = (r1, q1, e1)" "qr_status r1 = kOk"
    and "leave q1 e1 = (r2, q2, e2)" "qr_status r2 = kOk"
  shows "q_state q2 = kReleased \<and> parked e2 = {} \<and> destroyCoordinator q2 e2 = e2 \<and>
    snd (enter q2 e2) = (q2, e2) \<and> snd (leave q2 e2) = (q2, e2)"
proof -
  note p = prepare_world [OF assms(1-4)]
  have q1: "same_coordinator q q1" "exclusive_post q1"
    using enter_post_enter [OF p(3,4), of e] assms(5,6) by (auto simp: enter_post_def aborted_def)
  have "held live parked (r1, q1, e1)"
    using enter_world [of live parked q e] p assms(1,5) by simp
  then have inv: "unparked_inv parked q1 e1"
    using assms(6) by (simp add: held_def)
  have "quiescenceBackendComplete (q_backend q1)" "thread_world live parked (q_backend q1)"
    using p q1 assms(1) by (simp_all add: same_coordinator_def prepared_q_def)
  note resume = world_rules(4) [OF this(2,1)]
  have l: "q_state q2 = kReleased" "\<not> q_parkAttempted q2" "parked e2 = {}"
    using assms(7,8) q1(2) inv resume
    by (auto simp: leave_def Let_def exclusive_post_def unparked_inv_def split: if_splits prod.splits)
  then show ?thesis
    by (simp add: enter_def leave_def destroyCoordinator_def split: option.splits)
qed

theorem quiescence_cycle_witness:
  "\<exists>r2 q2 e2. (case demo_entered of (_, q1, e1) \<Rightarrow> leave q1 e1) = (r2, q2, e2) \<and>
     q_state q2 = kReleased \<and> snd e2 = []"
proof -
  obtain r0 q e where p: "demo_prepared = (r0, q, e)"
    by (metis prod_cases3)
  obtain r1 q1 e1 where en: "demo_entered = (r1, q1, e1)"
    by (metis prod_cases3)
  obtain r2 q2 e2 where lv: "leave q1 e1 = (r2, q2, e2)"
    by (metis prod_cases3)
  have "qr_status r0 = kOk" "qr_status r1 = kOk" "enter q e = (r1, q1, e1)"
    using demo_runs(1,2) p en unfolding demo_entered_def by (metis fst_conv prod.case)+
  moreover have "qr_status r2 = kOk"
    using demo_runs(3) unfolding en prod.case lv fst_conv .
  ultimately have "q_state q2 = kReleased \<and> set (snd e2) = {}"
    using quiescence_cycle [OF demo_world _ p [unfolded demo_prepared_def] _ _ _ lv] by auto
  then show ?thesis
    unfolding en prod.case lv by auto
qed

text \<open>A world in which thread 8 is inside the patch range: \<open>enter\<close> refuses and releases.\<close>

definition busy_backend :: "demo_world ThreadQuiescenceBackend" where
  "busy_backend = demo_backend\<lparr>waitForParkedThreads := Some (\<lambda>e ep ts n tm.
     (True, map (\<lambda>t. \<lparr>threadId = t, programCounter = (if t = 8 then 0x1004 else 0x8000),
        snapshotEpoch = ep\<rparr>) ts, length ts, (fst e, snd e @ ts)))\<rparr>"

lemma busy_world: "thread_world (\<lambda>e. set (fst e)) (\<lambda>e. set (snd e)) busy_backend"
  by (auto simp: thread_world_def demo_backend_def busy_backend_def)

definition busy_prepared :: "demo_world quiescence_outcome" where
  "busy_prepared = prepareQuiescence (newCoordinator demo_config busy_backend) ([9, 7, 8], [])"

lemma busy_runs:
  "qr_status (fst busy_prepared) = kOk"
  "qr_status (fst (case busy_prepared of (_, q, e) \<Rightarrow> enter q e)) = kThreadInTargetRange"
  by code_simp+

theorem failed_enter_releases_witness:
  "\<exists>r q' e'. (case busy_prepared of (_, q, e) \<Rightarrow> enter q e) = (r, q', e') \<and>
     qr_status r = kThreadInTargetRange \<and> snd e' = []"
proof -
  obtain r0 q e where p: "busy_prepared = (r0, q, e)"
    by (metis prod_cases3)
  obtain r q' e' where en: "enter q e = (r, q', e')"
    by (metis prod_cases3)
  have "qr_status r0 = kOk" "qr_status r = kThreadInTargetRange"
    using busy_runs unfolding p prod.case en fst_conv by blast+
  then have "set (snd e') = {}"
    using failed_enter_releases [OF busy_world _ p [unfolded busy_prepared_def] _ en] by auto
  then show ?thesis
    unfolding p prod.case en using \<open>qr_status r = kThreadInTargetRange\<close> by auto
qed

end
