(* ===== verification/Sha256.thy ===== *)
theory Sha256
  imports Text_Parsing
begin

text \<open>
  The SHA-256 hasher of \<open>src/runtime/RuntimeAbiGuard.cpp\<close> (class \<open>Sha256\<close>): the
  incremental object with its 64-byte buffer, next to the standard's definition of the hash
  (padding, message schedule, compression), and the proof that feeding a message in chunks
  of any sizes computes the latter.
\<close>

section \<open>The hasher\<close>

text \<open>The table, one list per line of the source's table.\<close>

definition kSha256Constants :: "uint32 list" where
  "kSha256Constants = concat
    [[0x428a2f98, 0x71374491, 0xb5c0fbcf, 0xe9b5dba5, 0x3956c25b, 0x59f111f1],
     [0x923f82a4, 0xab1c5ed5, 0xd807aa98, 0x12835b01, 0x243185be, 0x550c7dc3],
     [0x72be5d74, 0x80deb1fe, 0x9bdc06a7, 0xc19bf174, 0xe49b69c1, 0xefbe4786],
     [0x0fc19dc6, 0x240ca1cc, 0x2de92c6f, 0x4a7484aa, 0x5cb0a9dc, 0x76f988da],
     [0x983e5152, 0xa831c66d, 0xb00327c8, 0xbf597fc7, 0xc6e00bf3, 0xd5a79147],
     [0x06ca6351, 0x14292967, 0x27b70a85, 0x2e1b2138, 0x4d2c6dfc, 0x53380d13],
     [0x650a7354, 0x766a0abb, 0x81c2c92e, 0x92722c85, 0xa2bfe8a1, 0xa81a664b],
     [0xc24b8b70, 0xc76c51a3, 0xd192e819, 0xd6990624, 0xf40e3585, 0x106aa070],
     [0x19a4c116, 0x1e376c08, 0x2748774c, 0x34b0bcb5, 0x391c0cb3, 0x4ed8aa4a],
     [0x5b9cca4f, 0x682e6ff3, 0x748f82ee, 0x78a5636f, 0x84c87814, 0x8cc70208],
     [0x90befffa, 0xa4506ceb, 0xbef9a3f7, 0xc67178f2]]"

definition rotateRight :: "uint32 \<Rightarrow> nat \<Rightarrow> uint32" where
  "rotateRight v n = drop_bit n v OR push_bit (32 - n) v"

record Sha256 =
  sha_state :: "uint32 list"
  block :: bytes
  blockSize :: nat
  totalBytes :: uint64

definition sha256_init :: Sha256 where
  "sha256_init = \<lparr>sha_state =
      [0x6a09e667, 0xbb67ae85, 0x3c6ef372, 0xa54ff53a,
       0x510e527f, 0x9b05688c, 0x1f83d9ab, 0x5be0cd19],
    block = replicate 64 0, blockSize = 0, totalBytes = 0\<rparr>"

definition loadWord :: "bytes \<Rightarrow> nat \<Rightarrow> uint32" where
  "loadWord bs i =
     push_bit 24 (ucast (bs ! (i * 4))) OR push_bit 16 (ucast (bs ! (i * 4 + 1))) OR
     push_bit 8 (ucast (bs ! (i * 4 + 2))) OR ucast (bs ! (i * 4 + 3))"

definition extendWord :: "nat \<Rightarrow> uint32 list \<Rightarrow> uint32 list" where
  "extendWord i words =
     (let s0 = rotateRight (words ! (i - 15)) 7 XOR rotateRight (words ! (i - 15)) 18 XOR
               drop_bit 3 (words ! (i - 15));
          s1 = rotateRight (words ! (i - 2)) 17 XOR rotateRight (words ! (i - 2)) 19 XOR
               drop_bit 10 (words ! (i - 2))
      in words[i := words ! (i - 16) + s0 + words ! (i - 7) + s1])"

definition messageWords :: "bytes \<Rightarrow> uint32 list" where
  "messageWords bs = fold extendWord [16..<64] (map (loadWord bs) [0..<16] @ replicate 48 0)"

type_synonym registers = "uint32 \<times> uint32 \<times> uint32 \<times> uint32 \<times> uint32 \<times> uint32 \<times> uint32 \<times> uint32"

fun shaRound :: "uint32 \<Rightarrow> uint32 \<Rightarrow> registers \<Rightarrow> registers" where
  "shaRound k w (a, b, c, d, e, f, g, h) =
     (let sum1 = rotateRight e 6 XOR rotateRight e 11 XOR rotateRight e 25;
          choice = (e AND f) XOR (NOT e AND g);
          temp1 = h + sum1 + choice + k + w;
          sum0 = rotateRight a 2 XOR rotateRight a 13 XOR rotateRight a 22;
          majority = (a AND b) XOR (a AND c) XOR (b AND c);
          temp2 = sum0 + majority
      in (temp1 + temp2, a, b, c, d + temp1, e, f, g))"

definition compressBlock :: "uint32 list \<Rightarrow> bytes \<Rightarrow> uint32 list" where
  "compressBlock st bs =
     (let words = messageWords bs;
          (a, b, c, d, e, f, g, h) =
            fold (\<lambda>i. shaRound (kSha256Constants ! i) (words ! i)) [0..<64]
              (st ! 0, st ! 1, st ! 2, st ! 3, st ! 4, st ! 5, st ! 6, st ! 7)
      in [st ! 0 + a, st ! 1 + b, st ! 2 + c, st ! 3 + d, st ! 4 + e, st ! 5 + f, st ! 6 + g, st ! 7 + h])"

definition transform :: "Sha256 \<Rightarrow> Sha256" where
  "transform s = s\<lparr>sha_state := compressBlock (sha_state s) (block s)\<rparr>"

partial_function (option) updateLoop :: "Sha256 \<Rightarrow> bytes \<Rightarrow> Sha256 option" where
  "updateLoop s input =
     (if input = [] then Some s
      else let copied = min (length input) (64 - blockSize s);
               s1 = s\<lparr>block := take (blockSize s) (block s) @ take copied input @
                               drop (blockSize s + copied) (block s),
                      blockSize := blockSize s + copied\<rparr>;
               s2 = (if blockSize s1 = 64 then (transform s1)\<lparr>blockSize := 0\<rparr> else s1)
           in updateLoop s2 (drop copied input))"

definition update :: "Sha256 \<Rightarrow> bytes \<Rightarrow> Sha256 option" where
  "update s input = updateLoop (s\<lparr>totalBytes := totalBytes s + of_nat (length input)\<rparr>) input"

definition fillZero :: "nat \<Rightarrow> nat \<Rightarrow> bytes \<Rightarrow> bytes" where
  "fillZero a b bs = take a bs @ replicate (b - a) 0 @ drop b bs"

definition digestBytes :: "uint32 list \<Rightarrow> bytes" where
  "digestBytes st = concat (map (\<lambda>w. map (\<lambda>j. ucast (drop_bit (24 - j * 8) w)) [0..<4]) st)"

definition finish :: "Sha256 \<Rightarrow> bytes" where
  "finish s =
     (let bitCount = totalBytes s * 8;
          s1 = s\<lparr>block := (block s)[blockSize s := 0x80], blockSize := blockSize s + 1\<rparr>;
          s2 = (if blockSize s1 > 56
                then (transform (s1\<lparr>block := fillZero (blockSize s1) 64 (block s1)\<rparr>))\<lparr>blockSize := 0\<rparr>
                else s1);
          s3 = s2\<lparr>block := fillZero (blockSize s2) 56 (block s2)\<rparr>;
          s4 = s3\<lparr>block := fold (\<lambda>i bs. bs[63 - i := ucast (drop_bit (i * 8) bitCount)]) [0..<8] (block s3)\<rparr>
      in digestBytes (sha_state (transform s4)))"

text \<open>The whole computation of a caller that feeds the chunks in order.\<close>

fun updateAll :: "Sha256 \<Rightarrow> bytes list \<Rightarrow> Sha256 option" where
  "updateAll s [] = Some s"
| "updateAll s (c # cs) = (case update s c of None \<Rightarrow> None | Some s' \<Rightarrow> updateAll s' cs)"


section \<open>The standard\<close>

text \<open>
  FIPS 180-4: the functions of section 4.1.2, the message schedule \<open>W\<close> as the recurrence of
  section 6.2.2, the padding of section 5.1.1 and the iterated compression.
\<close>

function schedule :: "bytes \<Rightarrow> nat \<Rightarrow> uint32" where
  "schedule m t =
     (if t < 16 then foldl (\<lambda>w b. push_bit 8 w OR ucast b) 0 (take 4 (drop (4 * t) m))
      else (let x = schedule m (t - 2) in word_rotr 17 x XOR word_rotr 19 x XOR drop_bit 10 x)
           + schedule m (t - 7)
           + (let x = schedule m (t - 15) in word_rotr 7 x XOR word_rotr 18 x XOR drop_bit 3 x)
           + schedule m (t - 16))"
  by pat_completeness auto
termination
  by (relation "measure snd") auto

declare schedule.simps [simp del]

fun fipsRound :: "bytes \<Rightarrow> nat \<Rightarrow> registers \<Rightarrow> registers" where
  "fipsRound m t (a, b, c, d, e, f, g, h) =
     (let t1 = h + (word_rotr 6 e XOR word_rotr 11 e XOR word_rotr 25 e) + ((e AND f) XOR (NOT e AND g))
               + kSha256Constants ! t + schedule m t;
          t2 = (word_rotr 2 a XOR word_rotr 13 a XOR word_rotr 22 a)
               + ((a AND b) XOR (a AND c) XOR (b AND c))
      in (t1 + t2, a, b, c, d + t1, e, f, g))"

fun registerList :: "registers \<Rightarrow> uint32 list" where
  "registerList (a, b, c, d, e, f, g, h) = [a, b, c, d, e, f, g, h]"

definition fipsCompress :: "registers \<Rightarrow> bytes \<Rightarrow> registers" where
  "fipsCompress st m =
     (case (st, fold (fipsRound m) [0..<64] st) of
        ((a, b, c, d, e, f, g, h), (a', b', c', d', e', f', g', h')) \<Rightarrow>
          (a + a', b + b', c + c', d + d', e + e', f + f', g + g', h + h'))"

definition fipsInitial :: registers where
  "fipsInitial =
     (0x6a09e667, 0xbb67ae85, 0x3c6ef372, 0xa54ff53a, 0x510e527f, 0x9b05688c, 0x1f83d9ab, 0x5be0cd19)"

function blocks64 :: "bytes \<Rightarrow> bytes list" where
  "blocks64 m = (if length m < 64 then [] else take 64 m # blocks64 (drop 64 m))"
  by pat_completeness auto
termination
  by (relation "measure length") auto

declare blocks64.simps [simp del]

definition lengthField :: "nat \<Rightarrow> bytes" where
  "lengthField n = map (\<lambda>j. ucast (drop_bit (56 - 8 * j) (of_nat (8 * n) :: uint64))) [0..<8]"

definition padMessage :: "bytes \<Rightarrow> bytes" where
  "padMessage m = m @ 0x80 # replicate ((119 - length m mod 64) mod 64) 0 @ lengthField (length m)"

definition fipsSha256 :: "bytes \<Rightarrow> bytes" where
  "fipsSha256 m = digestBytes (registerList (foldl fipsCompress fipsInitial (blocks64 (padMessage m))))"


section \<open>The compression function is the standard's\<close>

lemma rotateRight_rotr: "0 < n \<Longrightarrow> n < 32 \<Longrightarrow> rotateRight v n = word_rotr n v"
proof (rule bit_word_eqI)
  fix i
  assume n: "0 < n" "n < 32" and "i < LENGTH(32)"
  then have i: "i < 32"
    by simp
  show "bit (rotateRight v n) i = bit (word_rotr n v) i"
  proof (cases "i + n < 32")
    case True
    then have "\<not> 32 - n \<le> i"
      using n by simp
    with True show ?thesis
      using n by (simp add: rotateRight_def bit_simps bit_word_rotr_iff ac_simps)
  next
    case False
    then have "\<not> bit v (n + i)" "(i + n) mod 32 = i - (32 - n)" "32 - n \<le> i"
      using n i by (auto simp: mod_if dest: bit_imp_le_length)
    then show ?thesis
      using False n i by (simp add: rotateRight_def bit_simps bit_word_rotr_iff ac_simps)
  qed
qed

lemmas rotr_simps =
  rotateRight_rotr [where n = 2, simplified] rotateRight_rotr [where n = 6, simplified]
  rotateRight_rotr [where n = 7, simplified] rotateRight_rotr [where n = 11, simplified]
  rotateRight_rotr [where n = 13, simplified] rotateRight_rotr [where n = 17, simplified]
  rotateRight_rotr [where n = 18, simplified] rotateRight_rotr [where n = 19, simplified]
  rotateRight_rotr [where n = 22, simplified] rotateRight_rotr [where n = 25, simplified]

lemma take4_nth: "4 * t + 4 \<le> length m \<Longrightarrow>
    take 4 (drop (4 * t) m) = [m ! (4 * t), m ! (4 * t + 1), m ! (4 * t + 2), m ! (4 * t + 3)]"
  by (rule nth_equalityI) (auto simp: nth_Cons' less_Suc_eq numeral_eq_Suc)

lemma loadWord_schedule: "t < 16 \<Longrightarrow> length m = 64 \<Longrightarrow> loadWord m t = schedule m t"
  unfolding loadWord_def
  by (subst schedule.simps, simp add: take4_nth mult.commute [of t 4] push_bit_or)
     (simp only: or.assoc)

lemma extendWord_schedule:
  assumes "16 \<le> i" "i < 64" "length ws = 64" "\<forall>t < i. ws ! t = schedule m t"
  shows "length (extendWord i ws) = 64 \<and> (\<forall>t < Suc i. extendWord i ws ! t = schedule m t)"
proof -
  have "extendWord i ws ! i = schedule m i"
    using assms
    by (subst schedule.simps) (simp add: extendWord_def Let_def rotr_simps add_ac)
  moreover have "extendWord i ws ! t = ws ! t" if "t < i" for t
    using that by (simp add: extendWord_def Let_def)
  ultimately show ?thesis
    using assms by (auto simp: extendWord_def Let_def less_Suc_eq)
qed

lemma fold_extendWord:
  assumes "length m = 64" "n \<le> 48"
  shows "length (fold extendWord [16..<16 + n] (map (loadWord m) [0..<16] @ replicate 48 0)) = 64 \<and>
    (\<forall>t < 16 + n. fold extendWord [16..<16 + n] (map (loadWord m) [0..<16] @ replicate 48 0) ! t = schedule m t)"
  using assms(2)
proof (induction n)
  case 0
  then show ?case
    using assms(1) by (simp add: nth_append loadWord_schedule)
next
  case (Suc n)
  have "[16..<16 + Suc n] = [16..<16 + n] @ [16 + n]"
    using upt_Suc_append [of 16 "16 + n"] by simp
  then show ?case
    using Suc extendWord_schedule [of "16 + n" "fold extendWord [16..<16 + n] (map (loadWord m) [0..<16] @ replicate 48 0)" m]
    by (simp del: upt_Suc)
qed

lemma messageWords_schedule: "length m = 64 \<Longrightarrow> t < 64 \<Longrightarrow> messageWords m ! t = schedule m t"
  using fold_extendWord [of m 48] by (simp add: messageWords_def)

lemma registers_cases: obtains a b c d e f g h where "(r :: registers) = (a, b, c, d, e, f, g, h)"
  by (metis surj_pair)

lemma shaRound_fips: "length m = 64 \<Longrightarrow> t < 64 \<Longrightarrow>
    shaRound (kSha256Constants ! t) (messageWords m ! t) r = fipsRound m t r"
  by (cases r rule: registers_cases) (simp add: rotr_simps messageWords_schedule Let_def)

lemma compressBlock_fips:
  assumes "length m = 64"
  shows "compressBlock (registerList r) m = registerList (fipsCompress r m)"
proof -
  obtain a b c d e f g h where r: "r = (a, b, c, d, e, f, g, h)"
    by (rule registers_cases)
  have "fold (\<lambda>i. shaRound (kSha256Constants ! i) (messageWords m ! i)) [0..<64] r = fold (fipsRound m) [0..<64] r"
    using assms by (intro fold_cong) (auto simp: shaRound_fips fun_eq_iff simp del: shaRound.simps fipsRound.simps)
  then show ?thesis
    by (simp add: compressBlock_def fipsCompress_def r numeral_nat split: prod.split del: upt_Suc)
qed


section \<open>Streaming\<close>

lemma blocks64_append: "64 dvd length a \<Longrightarrow> blocks64 (a @ b) = blocks64 a @ blocks64 b"
proof (induction a rule: blocks64.induct)
  case (1 a)
  show ?case
  proof (cases "length a < 64")
    case True
    then have "a = []"
      using 1(2) by auto
    then show ?thesis
      by (simp add: blocks64.simps [of "[]"])
  next
    case False
    then have "64 dvd length (drop 64 a)"
      using 1(2) by (simp add: dvd_diff_nat)
    then show ?thesis
      using False 1(1) by (subst (1 2) blocks64.simps) simp
  qed
qed

lemma blocks64_one: "length b = 64 \<Longrightarrow> blocks64 b = [b]"
  by (subst blocks64.simps) (simp add: blocks64.simps [of "[]"])

text \<open>
  The abstraction relation: the hasher has absorbed \<open>m\<close> when its registers hold the
  compression of the whole blocks of \<open>m\<close> and its buffer the bytes after them.
\<close>

definition sha_repr :: "Sha256 \<Rightarrow> bytes \<Rightarrow> bool" where
  "sha_repr s m \<longleftrightarrow> length (block s) = 64 \<and> blockSize s < 64 \<and>
     (\<exists>full. 64 dvd length full \<and> m = full @ take (blockSize s) (block s) \<and>
        sha_state s = registerList (foldl fipsCompress fipsInitial (blocks64 full)))"

lemma sha_repr_init: "sha_repr sha256_init []"
  by (auto simp: sha_repr_def sha256_init_def fipsInitial_def blocks64.simps [of "[]"])

lemma sha_repr_flush:
  assumes "length b = 64" "64 dvd length full"
    and "sha_state s = registerList (foldl fipsCompress fipsInitial (blocks64 full))" "block s = b"
  shows "sha_state (transform s) = registerList (foldl fipsCompress fipsInitial (blocks64 (full @ b)))"
  using assms by (simp add: transform_def blocks64_append blocks64_one compressBlock_fips)

lemma updateLoop_repr:
  "sha_repr s m \<Longrightarrow> \<exists>s'. updateLoop s input = Some s' \<and> sha_repr s' (m @ input) \<and> totalBytes s' = totalBytes s"
proof (induction "length input" arbitrary: s m input rule: less_induct)
  case less
  obtain full where full: "64 dvd length full" "m = full @ take (blockSize s) (block s)"
      "sha_state s = registerList (foldl fipsCompress fipsInitial (blocks64 full))"
    and len: "length (block s) = 64" "blockSize s < 64"
    using less(2) by (auto simp: sha_repr_def)
  define n where "n = 64 - blockSize s"
  show ?case
  proof (cases "input = []")
    case True
    then show ?thesis
      using less(2) by (simp add: updateLoop.simps [of s])
  next
    case False
    show ?thesis
    proof (cases "length input < n")
      case True
      then have "blockSize s + length input \<noteq> 64"
        by (simp add: n_def)
      then have "updateLoop s input =
          updateLoop (s\<lparr>block := take (blockSize s) (block s) @ input @ drop (blockSize s + length input) (block s),
            blockSize := blockSize s + length input\<rparr>) []"
        using False True len by (subst updateLoop.simps) (simp add: Let_def n_def)
      then show ?thesis
        using True full len
        by (auto simp: updateLoop.simps [of _ "[]"] sha_repr_def n_def)
    next
      case ge: False
      define s2 where "s2 = (transform (s\<lparr>block := take (blockSize s) (block s) @ take n input, blockSize := 64\<rparr>))
        \<lparr>blockSize := 0\<rparr>"
      have step: "updateLoop s input = updateLoop s2 (drop n input)"
        using False ge len by (subst updateLoop.simps) (simp add: Let_def n_def s2_def min_def)
      have n: "0 < n" "n \<le> length input"
        using len ge by (auto simp: n_def)
      have b: "length (take (blockSize s) (block s) @ take n input) = 64"
        using len n by (simp add: n_def)
      have "sha_state s2 = registerList (foldl fipsCompress fipsInitial
          (blocks64 (full @ take (blockSize s) (block s) @ take n input)))"
        unfolding s2_def using sha_repr_flush [OF b full(1)] full(3) by simp
      moreover have "64 dvd length (full @ take (blockSize s) (block s) @ take n input)"
        using b full(1) by (simp add: dvd_add)
      ultimately have "sha_repr s2 (m @ take n input)"
        using b unfolding sha_repr_def s2_def transform_def
        by (intro conjI exI [of _ "full @ take (blockSize s) (block s) @ take n input"]) (auto simp: full(2))
      moreover have "totalBytes s2 = totalBytes s"
        by (simp add: s2_def transform_def)
      ultimately show ?thesis
        using less(1) [of "drop n input" s2 "m @ take n input"] n step by simp
    qed
  qed
qed

lemma lengthField_written:
  assumes "length b = 64"
  shows "fold (\<lambda>i bs. bs[63 - i := ucast (drop_bit (i * 8) w)]) [0..<8] b =
    take 56 b @ map (\<lambda>j. ucast (drop_bit (56 - 8 * j) (w :: uint64))) [0..<8]"
proof -
  obtain p q where b: "b = p @ q" and p: "length p = 56" and "length q = 8"
    using assms by (intro that [of "take 56 b" "drop 56 b"]) simp_all
  then obtain x0 x1 x2 x3 x4 x5 x6 x7 where "q = [x0, x1, x2, x3, x4, x5, x6, x7]"
    by (auto simp: length_Suc_conv numeral_eq_Suc)
  then show ?thesis
    using p by (simp add: b list_update_append upt_rec)
qed

lemma lengthField_totalBytes:
  "map (\<lambda>j. ucast (drop_bit (56 - 8 * j) ((of_nat n :: uint64) * 8))) [0..<8] = lengthField n"
  by (simp add: lengthField_def mult.commute)

lemma take_written: "r < length b \<Longrightarrow> take (Suc r) (b[r := x]) = take r b @ [x]"
  by (simp add: take_Suc_conv_app_nth)

lemma finish_repr:
  assumes "sha_repr s m" "totalBytes s = of_nat (length m)"
  shows "finish s = fipsSha256 m"
proof -
  define r where "r = blockSize s"
  define t where "t = take r (block s)"
  define tail where "tail = t @ 0x80 # replicate ((119 - length m mod 64) mod 64) 0 @ lengthField (length m)"
  obtain full where full: "64 dvd length full" "m = full @ t"
      "sha_state s = registerList (foldl fipsCompress fipsInitial (blocks64 full))"
    and len: "length (block s) = 64" "r < 64" "length t = r"
    using assms(1) by (auto simp: sha_repr_def r_def t_def)
  have lf: "length (lengthField (length m)) = 8"
    by (simp add: lengthField_def)
  have mod: "length m mod 64 = r"
    using full len by (auto simp: mod_add_eq dvd_def)
  have pad: "fipsSha256 m = digestBytes (registerList (foldl fipsCompress fipsInitial (blocks64 (full @ tail))))"
    by (simp add: fipsSha256_def padMessage_def full(2) tail_def)
  have w: "take (Suc r) ((block s)[r := 0x80]) = t @ [0x80]"
    using len by (simp add: take_written t_def)
  show ?thesis
  proof (cases "Suc r > 56")
    case False
    define b where "b = t @ [0x80] @ replicate (55 - r) 0 @ lengthField (length m)"
    have k: "(119 - r) mod 64 = 55 - r"
      using False by (simp add: mod_if)
    have "length b = 64" "tail = b"
      using False len lf by (simp_all add: b_def tail_def mod k)
    moreover have "finish s = digestBytes (sha_state (transform (s\<lparr>block := b, blockSize := Suc r\<rparr>)))"
      using False len w Suc_diff_le [of r 55]
      by (simp add: finish_def Let_def fillZero_def lengthField_written assms(2) lengthField_totalBytes b_def
          transform_def flip: r_def)
    ultimately show ?thesis
      using sha_repr_flush [of b full "s\<lparr>block := b, blockSize := Suc r\<rparr>"] full pad by simp
  next
    case True
    define b1 where "b1 = t @ [0x80] @ replicate (63 - r) 0"
    define b2 where "b2 = replicate 56 0 @ lengthField (length m)"
    define s1 where "s1 = transform (s\<lparr>block := b1, blockSize := Suc r\<rparr>)"
    have k: "119 - r = 63 - r + 56"
      using True len by simp
    have rep: "replicate (119 - r) 0 = replicate (63 - r) 0 @ replicate 56 (0 :: uint8)"
      by (simp only: k replicate_add)
    have lens: "length b1 = 64" "length b2 = 64" "tail = b1 @ b2"
      using True len lf by (simp_all add: b1_def b2_def tail_def mod rep)
    have fin: "finish s = digestBytes (sha_state (transform (s1\<lparr>blockSize := 0, block := b2\<rparr>)))"
      using True len w
      by (simp add: finish_def Let_def fillZero_def lengthField_written assms(2) lengthField_totalBytes b1_def b2_def
          s1_def transform_def flip: r_def)
    have "sha_state s1 = registerList (foldl fipsCompress fipsInitial (blocks64 (full @ b1)))"
      unfolding s1_def using sha_repr_flush [OF lens(1) full(1)] full(3) by simp
    then show ?thesis
      using sha_repr_flush [of b2 "full @ b1" "s1\<lparr>blockSize := 0, block := b2\<rparr>"] full(1) lens fin pad
      by (simp add: dvd_add)
  qed
qed

lemma updateAll_repr:
  "sha_repr s m \<Longrightarrow> totalBytes s = of_nat (length m) \<Longrightarrow>
   \<exists>s'. updateAll s chunks = Some s' \<and> sha_repr s' (m @ concat chunks) \<and>
        totalBytes s' = of_nat (length (m @ concat chunks))"
proof (induction chunks arbitrary: s m)
  case (Cons c cs)
  have "sha_repr (s\<lparr>totalBytes := totalBytes s + of_nat (length c)\<rparr>) m"
    using Cons.prems by (simp add: sha_repr_def)
  from updateLoop_repr [OF this, of c] obtain s1 where
    s1: "update s c = Some s1" "sha_repr s1 (m @ c)" "totalBytes s1 = of_nat (length (m @ c))"
    using Cons.prems(2) by (auto simp: update_def)
  from Cons.IH [OF s1(2,3)] show ?case
    by (simp add: s1(1))
qed simp


lemma updateAll_finish:
  "\<exists>s. updateAll sha256_init chunks = Some s \<and> finish s = fipsSha256 (concat chunks)"
  using updateAll_repr [OF sha_repr_init, of chunks] finish_repr
  by (fastforce simp: sha256_init_def)


section \<open>Properties\<close>


end
