(* ===== verification/Abi_Probe.thy ===== *)
theory Abi_Probe
  imports Abi_Recipe Sha256
begin

text \<open>
  The runtime check of a recipe against the running process
  (\<open>src/runtime/RuntimeAbiGuard.cpp\<close>, \<open>sha256FileHex\<close> and \<open>validateLoadedModule\<close>): which
  module is loaded, its ELF build id, the size and hash of its file, its dependencies and
  the code bytes of its symbols.  The process, the dynamic loader and the file system are a
  record of functions, \<open>ProbeEnv\<close>.  A run that never ends would be \<open>None\<close>; the properties
  show that every run ends.
\<close>

section \<open>The process\<close>

record Phdr =
  p_type :: uint32
  p_flags :: uint32
  p_vaddr :: uintptr
  p_memsz :: size_t

text \<open>One entry of \<open>dl_iterate_phdr\<close>; a null name is the empty string and a null header table
  is \<open>None\<close>.\<close>

record dl_phdr_info =
  dlpi_name :: string
  dlpi_addr :: uintptr
  dlpi_phdr :: "Phdr list option"

text \<open>
  \<open>link_exe\<close> is the target of \<open>/proc/self/exe\<close>, \<open>fileData\<close> what reading a file delivers and
  whether the read reached its end, \<open>dl_sym\<close> a non-null symbol found without an error.
\<close>

record ProbeEnv =
  link_exe :: "string option"
  loaded :: "dl_phdr_info list"
  processMemory :: memory
  statSize :: "string \<Rightarrow> uint64 option"
  fileData :: "string \<Rightarrow> (bytes \<times> bool) option"
  dl_open :: "string option \<Rightarrow> nat option"
  dl_error :: string
  dl_sym :: "nat \<Rightarrow> string \<Rightarrow> uintptr option"

record LoadedModule =
  path :: string
  base :: uintptr
  programHeaders :: "Phdr list"

datatype ProbeStatus = kAllowed | kInvalidRecipe | kModuleNotLoaded | kFileSizeMismatch
  | kFileHashMismatch | kBuildIdMismatch | kSymbolMissing | kSymbolOutsideExecutableSegment
  | kCodePrefixMismatch | kUnsupportedPlatform

record ResolvedSymbol =
  name :: string
  address :: uintptr

record ProbeResult =
  status :: ProbeStatus
  message :: string
  modulePath :: string
  observedBuildIdHex :: string
  moduleBase :: uintptr
  resolvedSymbols :: "ResolvedSymbol list"

section \<open>Definitions\<close>

partial_function (option) exeLoop :: "string \<Rightarrow> nat \<Rightarrow> string option" where
  "exeLoop target bufferSize =
     (let length = min (length target) (bufferSize - 1) in
      if length < bufferSize - 1 then Some (takeWhile (\<lambda>c. c \<noteq> CHR 0x00) (take length target))
      else exeLoop target (bufferSize * 2))"

definition currentExecutablePath :: "ProbeEnv \<Rightarrow> string option" where
  "currentExecutablePath env = (case link_exe env of None \<Rightarrow> Some [] | Some target \<Rightarrow> exeLoop target 1024)"

text \<open>\<open>findModuleCallback\<close> on one entry: \<open>Some None\<close> continues the iteration.\<close>

definition findModuleCallback :: "ProbeEnv \<Rightarrow> string \<Rightarrow> dl_phdr_info \<Rightarrow> (string \<times> dl_phdr_info) option option" where
  "findModuleCallback env suffix info =
     (case (if dlpi_name info = [] then currentExecutablePath env else Some (dlpi_name info)) of
        None \<Rightarrow> None
      | Some p \<Rightarrow> Some (if endsWith p suffix then Some (p, info) else None))"

fun dl_iterate_phdr :: "ProbeEnv \<Rightarrow> string \<Rightarrow> dl_phdr_info list \<Rightarrow> LoadedModule option option" where
  "dl_iterate_phdr env suffix [] = Some None"
| "dl_iterate_phdr env suffix (info # rest) =
     (case findModuleCallback env suffix info of
        None \<Rightarrow> None
      | Some None \<Rightarrow> dl_iterate_phdr env suffix rest
      | Some (Some (p, found)) \<Rightarrow>
          Some (map_option (\<lambda>headers. \<lparr>path = p, base = dlpi_addr found, programHeaders = headers\<rparr>)
                  (dlpi_phdr found)))"

definition PT_LOAD :: uint32 where "PT_LOAD = 1"
definition PT_NOTE :: uint32 where "PT_NOTE = 4"
definition PF_X :: uint32 where "PF_X = 1"
definition NT_GNU_BUILD_ID :: uint32 where "NT_GNU_BUILD_ID = 3"

definition align :: "size_t \<Rightarrow> size_t" where
  "align v = (v + 4 - 1) AND NOT (4 - 1)"

definition noteWord :: "memory \<Rightarrow> uintptr \<Rightarrow> uint32" where
  "noteWord mem a = le_join (\<lambda>i. mem (a + of_nat i)) 4"

text \<open>
  The walk over the notes of one segment of \<open>len\<close> bytes at \<open>start\<close>; \<open>pos\<close> is the cursor's offset.
  A note header has three 32-bit words, \<open>n_namesz\<close>, \<open>n_descsz\<close> and \<open>n_type\<close>.
\<close>

function noteLoop :: "memory \<Rightarrow> uintptr \<Rightarrow> nat \<Rightarrow> nat \<Rightarrow> string option" where
  "noteLoop mem start len pos =
     (if pos + 12 > len then None
      else let note = start + of_nat pos;
               n_namesz = noteWord mem note;
               n_descsz = noteWord mem (note + 4);
               n_type = noteWord mem (note + 8);
               nameSize = unat (align (ucast n_namesz));
               descriptorSize = unat (align (ucast n_descsz));
               name = pos + 12;
               descriptor = name + nameSize
           in if nameSize > len - name then None
              else if descriptorSize > len - descriptor then None
              else if n_type = NT_GNU_BUILD_ID \<and> n_namesz \<ge> 3 \<and>
                      mem_read mem (start + of_nat name) 3 = [0x47, 0x4E, 0x55]
              then Some (lowerHex (mem_read mem (start + of_nat descriptor) (unat n_descsz)))
              else noteLoop mem start len (descriptor + descriptorSize))"
  by pat_completeness auto
termination
  by (relation "measure (\<lambda>(mem, start, len, pos). len - pos)") auto

declare noteLoop.simps [simp del]

fun buildIdLoop :: "memory \<Rightarrow> uintptr \<Rightarrow> Phdr list \<Rightarrow> string" where
  "buildIdLoop mem moduleStart [] = []"
| "buildIdLoop mem moduleStart (header # rest) =
     (if p_type header \<noteq> PT_NOTE \<or> p_memsz header < 12 then buildIdLoop mem moduleStart rest
      else case noteLoop mem (moduleStart + p_vaddr header) (unat (p_memsz header)) 0 of
             Some hex \<Rightarrow> hex
           | None \<Rightarrow> buildIdLoop mem moduleStart rest)"

definition readBuildId :: "ProbeEnv \<Rightarrow> LoadedModule \<Rightarrow> string" where
  "readBuildId env module = buildIdLoop (processMemory env) (base module) (programHeaders module)"

definition isInsideExecutableSegment :: "LoadedModule \<Rightarrow> uintptr \<Rightarrow> size_t \<Rightarrow> bool" where
  "isInsideExecutableSegment module a len =
     (if len > (- 1) - a then False
      else let addressEnd = a + len in
        list_ex (\<lambda>header. p_type header = PT_LOAD \<and> p_flags header AND PF_X \<noteq> 0 \<and>
            a \<ge> base module + p_vaddr header \<and>
            addressEnd \<le> base module + p_vaddr header + p_memsz header)
          (programHeaders module))"

definition failure :: "ProbeStatus \<Rightarrow> string \<Rightarrow> ProbeResult" where
  "failure s m = \<lparr>status = s, message = m, modulePath = [], observedBuildIdHex = [], moduleBase = 0,
     resolvedSymbols = []\<rparr>"

text \<open>The reads of 64 KiB that \<open>sha256FileHex\<close> makes until one comes up short.\<close>

function readChunks :: "bytes \<Rightarrow> bytes list" where
  "readChunks content =
     (if length content < 65536 then [content] else take 65536 content # readChunks (drop 65536 content))"
  by pat_completeness auto
termination
  by (relation "measure length") auto

declare readChunks.simps [simp del]

definition sha256FileHex :: "ProbeEnv \<Rightarrow> string \<Rightarrow> (string + string) option" where
  "sha256FileHex env p =
     (case fileData env p of
        None \<Rightarrow> Some (Inl (''cannot open module for hashing: '' @ p))
      | Some (content, reachedEnd) \<Rightarrow>
          (case updateAll sha256_init (filter (\<lambda>c. c \<noteq> []) (readChunks content)) of
             None \<Rightarrow> None
           | Some digest \<Rightarrow>
               (if \<not> reachedEnd then Some (Inl (''failed while hashing module: '' @ p))
                else Some (Inr (lowerHex (finish digest))))))"

definition checkDependency :: "ProbeEnv \<Rightarrow> ModuleIdentity \<Rightarrow> (ProbeStatus \<times> string) option option" where
  "checkDependency env dependency =
     (case dl_iterate_phdr env (ModuleIdentity.moduleSuffix dependency) (loaded env) of
        None \<Rightarrow> None
      | Some None \<Rightarrow> Some (Some (kModuleNotLoaded,
          ''required dependency is not loaded: '' @ ModuleIdentity.moduleSuffix dependency))
      | Some (Some loadedDependency) \<Rightarrow>
          (if statSize env (path loadedDependency) \<noteq> Some (ModuleIdentity.fileSize dependency)
           then Some (Some (kFileSizeMismatch,
             ''dependency file size does not match: '' @ ModuleIdentity.moduleSuffix dependency))
           else if readBuildId env loadedDependency \<noteq> ModuleIdentity.buildIdHex dependency
           then Some (Some (kBuildIdMismatch,
             ''dependency Build ID does not match: '' @ ModuleIdentity.moduleSuffix dependency))
           else case sha256FileHex env (path loadedDependency) of
                  None \<Rightarrow> None
                | Some (Inl hashError) \<Rightarrow> Some (Some (kFileHashMismatch, hashError))
                | Some (Inr dependencySha256) \<Rightarrow>
                    Some (if dependencySha256 \<noteq> ModuleIdentity.sha256Hex dependency
                          then Some (kFileHashMismatch,
                            ''dependency SHA-256 does not match: '' @ ModuleIdentity.moduleSuffix dependency)
                          else None)))"

fun checkDependencies :: "ProbeEnv \<Rightarrow> ModuleIdentity list \<Rightarrow> (ProbeStatus \<times> string) option option" where
  "checkDependencies env [] = Some None"
| "checkDependencies env (d # rest) =
     (case checkDependency env d of
        None \<Rightarrow> None
      | Some (Some e) \<Rightarrow> Some (Some e)
      | Some None \<Rightarrow> checkDependencies env rest)"

text \<open>The loop over the symbols; the handle is closed on every path, which nothing here observes.\<close>

fun checkSymbols :: "ProbeEnv \<Rightarrow> LoadedModule \<Rightarrow> nat \<Rightarrow> SymbolRequirement list \<Rightarrow> ProbeResult \<Rightarrow> ProbeResult" where
  "checkSymbols env module handle [] result =
     (result\<lparr>status := kAllowed,
             message := ''ABI recipe matched; runtime interception may be enabled explicitly''\<rparr>)"
| "checkSymbols env module handle (requirement # rest) result =
     (case dl_sym env handle (SymbolRequirement.name requirement) of
        None \<Rightarrow> (result\<lparr>status := kSymbolMissing,
                       message := ''required symbol is missing: '' @ SymbolRequirement.name requirement\<rparr>)
      | Some a \<Rightarrow>
          (if \<not> isInsideExecutableSegment module a (of_nat (length (codePrefix requirement)))
           then (result\<lparr>status := kSymbolOutsideExecutableSegment,
                   message := ''symbol is outside an executable segment: '' @ SymbolRequirement.name requirement\<rparr>)
           else if mem_read (processMemory env) a (length (codePrefix requirement)) \<noteq> codePrefix requirement
           then (result\<lparr>status := kCodePrefixMismatch,
                   message := ''symbol code prefix does not match: '' @ SymbolRequirement.name requirement\<rparr>)
           else checkSymbols env module handle rest
                  (result\<lparr>resolvedSymbols := resolvedSymbols result @
                     [\<lparr>name = SymbolRequirement.name requirement, address = a\<rparr>]\<rparr>)))"

definition recipeIncomplete :: "AbiRecipe \<Rightarrow> bool" where
  "recipeIncomplete recipe \<longleftrightarrow> (schema recipe \<noteq> 1 \<and> schema recipe \<noteq> 2) \<or> moduleSuffix recipe = [] \<or>
     fileSize recipe = 0 \<or> buildIdHex recipe = [] \<or> symbols recipe = []"

definition strategyIncomplete :: "AbiRecipe \<Rightarrow> bool" where
  "strategyIncomplete recipe \<longleftrightarrow> schema recipe = 2 \<and>
     (architecture recipe \<noteq> ''arm64'' \<or> hooks recipe = [] \<or> transactions recipe = [] \<or> dependencies recipe = [])"

definition acquireAndCheck :: "ProbeEnv \<Rightarrow> AbiRecipe \<Rightarrow> LoadedModule \<Rightarrow> ProbeResult \<Rightarrow> ProbeResult option" where
  "acquireAndCheck env recipe module result =
     (case currentExecutablePath env of
        None \<Rightarrow> None
      | Some exe \<Rightarrow>
          (case dl_open env (if path module = exe then None else Some (path module)) of
             None \<Rightarrow> Some (result\<lparr>status := kModuleNotLoaded,
                           message := ''cannot acquire loaded module handle: '' @ dl_error env\<rparr>)
           | Some handle \<Rightarrow> Some (checkSymbols env module handle (symbols recipe) result)))"

definition validateLoadedModule :: "ProbeEnv \<Rightarrow> AbiRecipe \<Rightarrow> ProbeResult option" where
  "validateLoadedModule env recipe =
     (if recipeIncomplete recipe then Some (failure kInvalidRecipe ''incomplete ABI recipe'')
      else if strategyIncomplete recipe
      then Some (failure kInvalidRecipe ''incomplete schema 2 strategy recipe'')
      else case dl_iterate_phdr env (moduleSuffix recipe) (loaded env) of
        None \<Rightarrow> None
      | Some None \<Rightarrow> Some (failure kModuleNotLoaded (''module is not loaded: '' @ moduleSuffix recipe))
      | Some (Some module) \<Rightarrow>
          (let result = (failure kInvalidRecipe [])\<lparr>modulePath := path module, moduleBase := base module,
                           observedBuildIdHex := readBuildId env module\<rparr> in
           if statSize env (path module) \<noteq> Some (fileSize recipe)
           then Some (result\<lparr>status := kFileSizeMismatch,
                        message := ''loaded module file size does not match recipe''\<rparr>)
           else if observedBuildIdHex result = [] \<or> observedBuildIdHex result \<noteq> buildIdHex recipe
           then Some (result\<lparr>status := kBuildIdMismatch,
                        message := ''loaded module Build ID does not match recipe''\<rparr>)
           else case sha256FileHex env (path module) of
             None \<Rightarrow> None
           | Some (Inl hashError) \<Rightarrow> Some (result\<lparr>status := kFileHashMismatch, message := hashError\<rparr>)
           | Some (Inr observedSha256) \<Rightarrow>
               (if observedSha256 \<noteq> sha256Hex recipe
                then Some (result\<lparr>status := kFileHashMismatch,
                             message := ''loaded module SHA-256 does not match recipe''\<rparr>)
                else case checkDependencies env (dependencies recipe) of
                       None \<Rightarrow> None
                     | Some (Some (s, m)) \<Rightarrow> Some (result\<lparr>status := s, message := m\<rparr>)
                     | Some None \<Rightarrow> acquireAndCheck env recipe module result)))"

fun probeStatusName :: "ProbeStatus \<Rightarrow> string" where
  "probeStatusName kAllowed = ''allowed''"
| "probeStatusName kInvalidRecipe = ''invalid_recipe''"
| "probeStatusName kModuleNotLoaded = ''module_not_loaded''"
| "probeStatusName kFileSizeMismatch = ''file_size_mismatch''"
| "probeStatusName kFileHashMismatch = ''file_hash_mismatch''"
| "probeStatusName kBuildIdMismatch = ''build_id_mismatch''"
| "probeStatusName kSymbolMissing = ''symbol_missing''"
| "probeStatusName kSymbolOutsideExecutableSegment = ''symbol_outside_executable_segment''"
| "probeStatusName kCodePrefixMismatch = ''code_prefix_mismatch''"
| "probeStatusName kUnsupportedPlatform = ''unsupported_platform''"


interpretation probe_names: enum_names probeStatusName
  "[kAllowed, kInvalidRecipe, kModuleNotLoaded, kFileSizeMismatch, kFileHashMismatch, kBuildIdMismatch,
    kSymbolMissing, kSymbolOutsideExecutableSegment, kCodePrefixMismatch, kUnsupportedPlatform]"
proof
  show "s \<in> set [kAllowed, kInvalidRecipe, kModuleNotLoaded, kFileSizeMismatch, kFileHashMismatch,
      kBuildIdMismatch, kSymbolMissing, kSymbolOutsideExecutableSegment, kCodePrefixMismatch,
      kUnsupportedPlatform]" for s
    by (cases s) simp_all
qed simp


section \<open>Every run returns\<close>

lemma exeLoop_total: "2 \<le> n \<Longrightarrow> exeLoop target n = Some (takeWhile (\<lambda>c. c \<noteq> CHR 0x00) target)"
proof (induction "length target + 2 - n" arbitrary: n rule: less_induct)
  case less
  show ?case
  proof (cases "length target < n - 1")
    case True
    then show ?thesis
      by (subst exeLoop.simps) (simp add: min_def)
  next
    case False
    then have "exeLoop target n = exeLoop target (n * 2)"
      by (subst exeLoop.simps) (simp add: min_def)
    moreover have "length target + 2 - n * 2 < length target + 2 - n" "2 \<le> n * 2"
      using False less(2) by linarith+
    ultimately show ?thesis
      using less(1) by simp
  qed
qed

definition exePath :: "ProbeEnv \<Rightarrow> string" where
  "exePath env = (case link_exe env of None \<Rightarrow> [] | Some target \<Rightarrow> takeWhile (\<lambda>c. c \<noteq> CHR 0x00) target)"

lemma currentExecutablePath_eq: "currentExecutablePath env = Some (exePath env)"
  by (simp add: currentExecutablePath_def exePath_def exeLoop_total split: option.split)

definition infoPath :: "ProbeEnv \<Rightarrow> dl_phdr_info \<Rightarrow> string" where
  "infoPath env info = (if dlpi_name info = [] then exePath env else dlpi_name info)"

definition moduleFor :: "ProbeEnv \<Rightarrow> string \<Rightarrow> LoadedModule option" where
  "moduleFor env suffix =
     (case find (\<lambda>info. endsWith (infoPath env info) suffix) (loaded env) of
        None \<Rightarrow> None
      | Some info \<Rightarrow> map_option (\<lambda>headers. \<lparr>path = infoPath env info, base = dlpi_addr info,
                       programHeaders = headers\<rparr>) (dlpi_phdr info))"

lemma dl_iterate_phdr_eq:
  "dl_iterate_phdr env suffix infos =
     Some (case find (\<lambda>info. endsWith (infoPath env info) suffix) infos of
        None \<Rightarrow> None
      | Some info \<Rightarrow> map_option (\<lambda>headers. \<lparr>path = infoPath env info, base = dlpi_addr info,
                       programHeaders = headers\<rparr>) (dlpi_phdr info))"
  by (induction infos) (auto simp: findModuleCallback_def currentExecutablePath_eq infoPath_def)

lemma dl_iterate_loaded: "dl_iterate_phdr env suffix (loaded env) = Some (moduleFor env suffix)"
  by (simp add: dl_iterate_phdr_eq moduleFor_def)

lemma concat_nonempty: "concat (filter (\<lambda>c. c \<noteq> []) xs) = concat xs"
  by (induction xs) auto

lemma concat_readChunks: "concat (readChunks content) = content"
proof (induction content rule: readChunks.induct)
  case (1 content)
  then show ?case
    by (subst readChunks.simps) simp
qed

lemma sha256FileHex_eq:
  "sha256FileHex env p =
     Some (case fileData env p of
        None \<Rightarrow> Inl (''cannot open module for hashing: '' @ p)
      | Some (content, reachedEnd) \<Rightarrow>
          (if reachedEnd then Inr (lowerHex (fipsSha256 content))
           else Inl (''failed while hashing module: '' @ p)))"
proof (cases "fileData env p")
  case (Some delivered)
  obtain content ok where f: "delivered = (content, ok)"
    by (cases delivered)
  obtain s where "updateAll sha256_init (filter (\<lambda>c. c \<noteq> []) (readChunks content)) = Some s"
      "finish s = fipsSha256 content"
    using updateAll_finish [of "filter (\<lambda>c. c \<noteq> []) (readChunks content)"]
    by (auto simp: concat_nonempty concat_readChunks)
  then show ?thesis
    by (simp add: sha256FileHex_def Some f)
qed (simp add: sha256FileHex_def)


section \<open>What the probe decides\<close>

text \<open>The module's file and note section are the ones a recipe or dependency entry describes.\<close>

definition identity_matches :: "ProbeEnv \<Rightarrow> LoadedModule \<Rightarrow> uint64 \<Rightarrow> string \<Rightarrow> string \<Rightarrow> bool" where
  "identity_matches env m sz build sha \<longleftrightarrow> statSize env (path m) = Some sz \<and> readBuildId env m = build \<and>
     (\<exists>content. fileData env (path m) = Some (content, True) \<and> lowerHex (fipsSha256 content) = sha)"

definition dependency_matches :: "ProbeEnv \<Rightarrow> ModuleIdentity \<Rightarrow> bool" where
  "dependency_matches env d \<longleftrightarrow>
     (\<exists>m. moduleFor env (ModuleIdentity.moduleSuffix d) = Some m \<and>
        identity_matches env m (ModuleIdentity.fileSize d) (ModuleIdentity.buildIdHex d)
          (ModuleIdentity.sha256Hex d))"

definition symbol_matches :: "ProbeEnv \<Rightarrow> LoadedModule \<Rightarrow> nat \<Rightarrow> SymbolRequirement \<Rightarrow> uintptr \<Rightarrow> bool" where
  "symbol_matches env m handle requirement a \<longleftrightarrow>
     dl_sym env handle (SymbolRequirement.name requirement) = Some a \<and>
     isInsideExecutableSegment m a (of_nat (length (codePrefix requirement))) \<and>
     mem_read (processMemory env) a (length (codePrefix requirement)) = codePrefix requirement"

definition process_matches :: "ProbeEnv \<Rightarrow> AbiRecipe \<Rightarrow> bool" where
  "process_matches env recipe \<longleftrightarrow> \<not> recipeIncomplete recipe \<and> \<not> strategyIncomplete recipe \<and>
     (\<exists>m handle. moduleFor env (moduleSuffix recipe) = Some m \<and>
        identity_matches env m (fileSize recipe) (buildIdHex recipe) (sha256Hex recipe) \<and>
        (\<forall>d \<in> set (dependencies recipe). dependency_matches env d) \<and>
        dl_open env (if path m = exePath env then None else Some (path m)) = Some handle \<and>
        (\<forall>requirement \<in> set (symbols recipe). \<exists>a. symbol_matches env m handle requirement a))"

lemma checkDependency_returns:
  "\<exists>e. checkDependency env d = Some e \<and> (e = None \<longleftrightarrow> dependency_matches env d) \<and>
       (\<forall>s m. e = Some (s, m) \<longrightarrow> s \<noteq> kAllowed)"
  unfolding checkDependency_def dl_iterate_loaded dependency_matches_def identity_matches_def sha256FileHex_eq
  by (auto split: option.split sum.split prod.split)

lemma checkDependencies_returns:
  "\<exists>e. checkDependencies env ds = Some e \<and> (e = None \<longleftrightarrow> (\<forall>d \<in> set ds. dependency_matches env d)) \<and>
       (\<forall>s m. e = Some (s, m) \<longrightarrow> s \<noteq> kAllowed)"
proof (induction ds)
  case (Cons d ds)
  then show ?case
    using checkDependency_returns [of env d] by (auto split: option.split)
qed simp

lemma checkSymbols_allowed:
  "status (checkSymbols env m handle reqs r) = kAllowed \<longleftrightarrow> (\<forall>q \<in> set reqs. \<exists>a. symbol_matches env m handle q a)"
  by (induction reqs arbitrary: r) (auto simp: symbol_matches_def split: option.splits)

lemma acquireAndCheck_returns:
  "\<exists>r. acquireAndCheck env recipe m result = Some r \<and>
     (status r = kAllowed \<longleftrightarrow>
       (\<exists>handle. dl_open env (if path m = exePath env then None else Some (path m)) = Some handle \<and>
          (\<forall>requirement \<in> set (symbols recipe). \<exists>a. symbol_matches env m handle requirement a)))"
  by (auto simp: acquireAndCheck_def currentExecutablePath_eq checkSymbols_allowed split: option.split)


text \<open>The result record of a module whose identity has been confirmed.\<close>

definition identified :: "AbiRecipe \<Rightarrow> LoadedModule \<Rightarrow> ProbeResult" where
  "identified recipe m = (failure kInvalidRecipe [])\<lparr>modulePath := path m, moduleBase := base m,
     observedBuildIdHex := buildIdHex recipe\<rparr>"

lemma validate_identified:
  assumes "\<not> recipeIncomplete recipe" "\<not> strategyIncomplete recipe"
    and "moduleFor env (moduleSuffix recipe) = Some m"
    and "identity_matches env m (fileSize recipe) (buildIdHex recipe) (sha256Hex recipe)"
  shows "validateLoadedModule env recipe =
    (case checkDependencies env (dependencies recipe) of
       None \<Rightarrow> None
     | Some (Some (s, msg)) \<Rightarrow> Some ((identified recipe m)\<lparr>status := s, message := msg\<rparr>)
     | Some None \<Rightarrow> acquireAndCheck env recipe m (identified recipe m))"
proof -
  have "buildIdHex recipe \<noteq> []"
    using assms(1) by (simp add: recipeIncomplete_def)
  then show ?thesis
    using assms unfolding identified_def
    by (auto simp: validateLoadedModule_def dl_iterate_loaded identity_matches_def sha256FileHex_eq Let_def)
qed

lemma validateLoadedModule_returns:
  "\<exists>r. validateLoadedModule env recipe = Some r \<and> (status r = kAllowed \<longleftrightarrow> process_matches env recipe)"
proof (cases "recipeIncomplete recipe \<or> strategyIncomplete recipe")
  case True
  then show ?thesis
    by (auto simp: validateLoadedModule_def process_matches_def failure_def)
next
  case complete: False
  show ?thesis
  proof (cases "moduleFor env (moduleSuffix recipe)")
    case None
    with complete show ?thesis
      by (auto simp: validateLoadedModule_def dl_iterate_loaded process_matches_def failure_def)
  next
    case (Some m)
    show ?thesis
    proof (cases "identity_matches env m (fileSize recipe) (buildIdHex recipe) (sha256Hex recipe)")
      case False
      then show ?thesis
        using complete Some
        by (auto simp: validateLoadedModule_def dl_iterate_loaded process_matches_def identity_matches_def
            sha256FileHex_eq Let_def split: option.split)
    next
      case True
      then show ?thesis
        using checkDependencies_returns [of env "dependencies recipe"] complete Some
          acquireAndCheck_returns [of env recipe m "identified recipe m"]
        by (auto simp: process_matches_def validate_identified split: option.split)
    qed
  qed
qed

lemma checkSymbols_resolved:
  assumes "status (checkSymbols env m handle reqs r) = kAllowed"
  shows "\<exists>as. list_all2 (symbol_matches env m handle) reqs as \<and>
    resolvedSymbols (checkSymbols env m handle reqs r) =
      resolvedSymbols r @ map2 (\<lambda>q a. \<lparr>name = SymbolRequirement.name q, address = a\<rparr>) reqs as"
  using assms
proof (induction reqs arbitrary: r)
  case (Cons q reqs)
  from Cons.prems obtain a where a: "symbol_matches env m handle q a"
    unfolding checkSymbols_allowed by auto
  let ?r = "r\<lparr>resolvedSymbols := resolvedSymbols r @ [\<lparr>name = SymbolRequirement.name q, address = a\<rparr>]\<rparr>"
  have step: "checkSymbols env m handle (q # reqs) r = checkSymbols env m handle reqs ?r"
    using a by (simp add: symbol_matches_def)
  with Cons obtain as where "list_all2 (symbol_matches env m handle) reqs as"
      "resolvedSymbols (checkSymbols env m handle reqs ?r) =
        resolvedSymbols ?r @ map2 (\<lambda>q a. \<lparr>name = SymbolRequirement.name q, address = a\<rparr>) reqs as"
    by metis
  with a step show ?case
    by (intro exI [of _ "a # as"]) simp
qed simp

lemma allowed_result:
  assumes "validateLoadedModule env recipe = Some r" "status r = kAllowed"
  shows "\<exists>m handle. moduleFor env (moduleSuffix recipe) = Some m \<and>
    r = checkSymbols env m handle (symbols recipe) (identified recipe m)"
proof -
  have "process_matches env recipe"
    using validateLoadedModule_returns [of env recipe] assms by auto
  then obtain m where m: "moduleFor env (moduleSuffix recipe) = Some m" "\<not> recipeIncomplete recipe"
      "\<not> strategyIncomplete recipe"
    by (auto simp: process_matches_def)
  moreover from \<open>process_matches env recipe\<close> m(1)
  have "identity_matches env m (fileSize recipe) (buildIdHex recipe) (sha256Hex recipe)"
      "checkDependencies env (dependencies recipe) = Some None"
    using checkDependencies_returns [of env "dependencies recipe"] by (auto simp: process_matches_def)
  ultimately have "acquireAndCheck env recipe m (identified recipe m) = Some r"
    using assms(1) by (simp add: validate_identified)
  then have "\<exists>handle. r = checkSymbols env m handle (symbols recipe) (identified recipe m)"
    using assms(2) by (auto simp: acquireAndCheck_def currentExecutablePath_eq split: option.splits)
  then show ?thesis
    using m(1) by auto
qed

lemma moduleBase_checkSymbols: "moduleBase (checkSymbols env m handle reqs r) = moduleBase r"
  by (induction reqs arbitrary: r) (auto split: option.split)

lemma align_unat: "unat (align (ucast (w :: uint32))) = (unat w + 3) div 4 * 4"
proof -
  define x where "x = (ucast w + 3 :: uint64)"
  have lt: "unat w < 2 ^ 32"
    using unsigned_less [where 'a = nat, of w] by simp
  then have x: "unat x = unat w + 3"
    unfolding x_def using unat_add_lem [of "ucast w :: uint64" 3] by simp
  have m: "(4 - 1 :: uint64) = mask 2"
    by (simp add: mask_eq_exp_minus_1)
  have "align (ucast w) = x AND NOT (mask 2)"
    by (simp add: align_def x_def add.commute flip: m)
  also have "\<dots> = push_bit 2 (drop_bit 2 x)"
  proof (rule bit_word_eqI)
    fix i
    show "bit (x AND NOT (mask 2)) i = bit (push_bit 2 (drop_bit 2 x)) i" if "i < LENGTH(64)"
      using that le_add_diff_inverse [of 2 i] by (cases "i < 2") (simp_all add: bit_simps)
  qed
  also have "\<dots> = drop_bit 2 x * 4"
    by (simp add: push_bit_eq_mult)
  finally have "align (ucast w) = drop_bit 2 x * 4" .
  moreover have "unat (drop_bit 2 x) = (unat w + 3) div 4"
    by (simp add: drop_bit_eq_div unat_div x)
  moreover have "(unat w + 3) div 4 < 2 ^ 62"
    using lt by (intro less_mult_imp_div_less) simp
  ultimately show ?thesis
    using unat_mult_lem [of "drop_bit 2 x" 4] by simp
qed

section \<open>Build id notes\<close>

record ElfNote =
  noteName :: bytes
  noteDesc :: bytes
  noteType :: uint32

definition noteField :: "uint32 \<Rightarrow> bytes" where
  "noteField v = map (\<lambda>b. ucast (drop_bit (b * 8) v)) [0..<4]"

definition padded :: "bytes \<Rightarrow> bytes" where
  "padded bs = bs @ replicate ((length bs + 3) div 4 * 4 - length bs) 0"

definition noteBytes :: "ElfNote \<Rightarrow> bytes" where
  "noteBytes n = noteField (of_nat (length (noteName n))) @ noteField (of_nat (length (noteDesc n))) @
     noteField (noteType n) @ padded (noteName n) @ padded (noteDesc n)"

definition note_sized :: "ElfNote \<Rightarrow> bool" where
  "note_sized n \<longleftrightarrow> length (noteName n) < 2 ^ 32 \<and> length (noteDesc n) < 2 ^ 32"

definition is_build_id :: "ElfNote \<Rightarrow> bool" where
  "is_build_id n \<longleftrightarrow> noteType n = NT_GNU_BUILD_ID \<and> take 3 (noteName n) = [0x47, 0x4E, 0x55]"

lemma noteWord_field:
  assumes "mem_read mem a 4 = noteField v"
  shows "noteWord mem a = v"
proof -
  have "mem (a + of_nat i) = ucast (drop_bit (i * 8) v)" if "i < 4" for i
    using arg_cong [OF assms, of "\<lambda>l. l ! i"] that by (simp add: noteField_def)
  then have "noteWord mem a = le_join (\<lambda>i. ucast (drop_bit (i * 8) v)) 4"
    unfolding noteWord_def by (intro le_join_cong) simp
  then show ?thesis
    by (simp add: le_join_split)
qed

lemma length_padded: "length (padded bs) = (length bs + 3) div 4 * 4"
  by (simp add: padded_def)

lemma name_check:
  assumes "length nm < 2 ^ 32" "3 \<le> length nm \<Longrightarrow> bs = take 3 nm"
  shows "(of_nat (length nm) :: uint32) \<ge> 3 \<and> bs = [0x47, 0x4E, 0x55 :: uint8] \<longleftrightarrow> take 3 nm = [0x47, 0x4E, 0x55]"
proof (cases "3 \<le> length nm")
  case True
  then show ?thesis
    using assms by (simp add: word_le_nat_alt unat_of_nat)
next
  case False
  then have "take 3 nm \<noteq> [0x47, 0x4E, 0x55]"
    using length_take [of 3 nm] by auto
  with False show ?thesis
    using assms(1) by (simp add: word_le_nat_alt unat_of_nat)
qed

text \<open>Reading the parts of a note that stands in memory at \<open>a\<close>, followed by \<open>rest\<close>.\<close>

lemma note_in_memory:
  assumes all: "mem_read mem a extent = noteBytes n @ rest"
  defines "nl \<equiv> length (padded (noteName n))" and "dl \<equiv> length (padded (noteDesc n))"
  shows "extent = 12 + nl + dl + length rest"
    and "noteWord mem a = of_nat (length (noteName n))"
    and "noteWord mem (a + 4) = of_nat (length (noteDesc n))"
    and "noteWord mem (a + 8) = noteType n"
    and "3 \<le> length (noteName n) \<Longrightarrow> mem_read mem (a + 12) 3 = take 3 (noteName n)"
    and "mem_read mem (a + 12 + of_nat nl) (length (noteDesc n)) = noteDesc n"
    and "mem_read mem (a + 12 + of_nat nl + of_nat dl) (length rest) = rest"
proof -
  show L: "extent = 12 + nl + dl + length rest"
    using arg_cong [OF all, of length] by (simp add: noteBytes_def noteField_def nl_def dl_def)
  have part: "mem_read mem (a + of_nat k) j = take j (drop k (noteBytes n @ rest))" if "k + j \<le> extent" for k j
    using mem_read_drop [OF that, of mem a] all by simp
  show "noteWord mem a = of_nat (length (noteName n))"
      "noteWord mem (a + 4) = of_nat (length (noteDesc n))"
      "noteWord mem (a + 8) = noteType n"
    using part [of 0 4] part [of 4 4] part [of 8 4] L
    by (intro noteWord_field; simp add: noteBytes_def noteField_def)+
  show "mem_read mem (a + 12) 3 = take 3 (noteName n)" if "3 \<le> length (noteName n)"
    using part [of 12 3] L that by (simp add: noteBytes_def noteField_def padded_def nl_def length_padded)
  show "mem_read mem (a + 12 + of_nat nl) (length (noteDesc n)) = noteDesc n"
    using part [of "12 + nl" "length (noteDesc n)"] L
    by (simp add: noteBytes_def noteField_def nl_def dl_def padded_def add.assoc)
  show "mem_read mem (a + 12 + of_nat nl + of_nat dl) (length rest) = rest"
    using part [of "12 + nl + dl" "length rest"] L
    by (simp add: noteBytes_def noteField_def nl_def dl_def add.assoc)
qed

lemma noteLoop_notes:
  assumes "mem_read mem (start + of_nat pos) (len - pos) = concat (map noteBytes ns)" "pos \<le> len"
    and "\<forall>n \<in> set ns. note_sized n"
  shows "noteLoop mem start len pos = map_option (\<lambda>n. lowerHex (noteDesc n)) (find is_build_id ns)"
  using assms
proof (induction ns arbitrary: pos)
  case Nil
  then have "len - pos = 0"
    by (metis length_mem_read list.size(3) concat.simps(1) list.map(1))
  then show ?case
    using Nil by (subst noteLoop.simps) simp
next
  case (Cons n ns)
  define nl where "nl = length (padded (noteName n))"
  define dl where "dl = length (padded (noteDesc n))"
  define rest where "rest = concat (map noteBytes ns)"
  have sized: "length (noteName n) < 2 ^ 32" "length (noteDesc n) < 2 ^ 32"
    using Cons.prems by (simp_all add: note_sized_def)
  have "mem_read mem (start + of_nat pos) (len - pos) = noteBytes n @ rest"
    using Cons.prems(1) by (simp add: rest_def)
  note parts = note_in_memory [OF this, folded nl_def dl_def]
  have al: "unat (align (ucast (of_nat (length (noteName n)) :: uint32))) = nl"
      "unat (align (ucast (of_nat (length (noteDesc n)) :: uint32))) = dl"
    unfolding align_unat nl_def dl_def length_padded using sized
    by (simp_all add: unat_of_nat)
  have "len - (pos + 12 + nl + dl) = length rest"
    using parts(1) by simp
  then have ih: "noteLoop mem start len (pos + 12 + nl + dl) =
      map_option (\<lambda>n. lowerHex (noteDesc n)) (find is_build_id ns)"
    using Cons.IH [of "pos + 12 + nl + dl"] Cons.prems(2,3) parts(1,7) by (simp add: rest_def add.assoc)
  have "unat (of_nat (length (noteDesc n)) :: uint32) = length (noteDesc n)"
    using sized by (simp add: unat_of_nat)
  moreover have "\<not> pos + 12 > len" "\<not> nl > len - (pos + 12)" "\<not> dl > len - (pos + 12 + nl)"
    using parts(1) Cons.prems(2) by simp_all
  moreover have "(of_nat (length (noteName n)) :: uint32) \<ge> 3 \<and>
      mem_read mem (start + of_nat (pos + 12)) 3 = [0x47, 0x4E, 0x55] \<longleftrightarrow> take 3 (noteName n) = [0x47, 0x4E, 0x55]"
    using parts(5) by (intro name_check sized) (simp add: add.assoc)
  moreover have "mem_read mem (start + of_nat (pos + 12 + nl)) (length (noteDesc n)) = noteDesc n"
    using parts(6) by (simp add: add.assoc)
  ultimately show ?case
    unfolding noteLoop.simps [of mem start len pos] Let_def parts(2-4) al ih
    by (simp only: if_False find.simps is_build_id_def [of n]) simp
qed

lemma resolved_code:
  assumes "validateLoadedModule env recipe = Some r" "status r = kAllowed"
  shows "\<exists>m. moduleFor env (moduleSuffix recipe) = Some m \<and> moduleBase r = base m \<and>
    list_all2 (\<lambda>q s. name s = SymbolRequirement.name q \<and>
        isInsideExecutableSegment m (address s) (of_nat (length (codePrefix q))) \<and>
        mem_read (processMemory env) (address s) (length (codePrefix q)) = codePrefix q)
      (symbols recipe) (resolvedSymbols r)"
proof -
  obtain m handle where m: "moduleFor env (moduleSuffix recipe) = Some m"
      "r = checkSymbols env m handle (symbols recipe) (identified recipe m)"
    using allowed_result [OF assms] by auto
  with assms(2) obtain as where "list_all2 (symbol_matches env m handle) (symbols recipe) as"
      "resolvedSymbols r = map2 (\<lambda>q a. \<lparr>name = SymbolRequirement.name q, address = a\<rparr>) (symbols recipe) as"
    using checkSymbols_resolved [of env m handle "symbols recipe" "identified recipe m"]
    by (auto simp: identified_def failure_def)
  then show ?thesis
    using m by (auto simp: moduleBase_checkSymbols identified_def list_all2_conv_all_nth symbol_matches_def)
qed


section \<open>Properties\<close>

text \<open>
  C12. The probe returns for every process and recipe, and allows interception exactly when
  the recipe is complete and the process matches it: the first loaded module with the suffix
  has the file size, build id and SHA-256 of the recipe, so has every dependency, the module
  can be opened, and every symbol resolves into an executable segment and starts with its
  recorded code bytes.
\<close>
theorem probe_decides_match:
  "\<exists>r. validateLoadedModule env recipe = Some r \<and> (status r = kAllowed \<longleftrightarrow> process_matches env recipe)"
  by (rule validateLoadedModule_returns)

text \<open>
  C13. When the probe allows interception, the resolved symbols are the required ones in
  order, and at each resolved address the process memory holds the code prefix of the recipe
  inside an executable segment of the module.
\<close>
theorem probe_resolves_code:
  assumes "validateLoadedModule env recipe = Some r" "status r = kAllowed"
  shows "\<exists>m. moduleFor env (moduleSuffix recipe) = Some m \<and> moduleBase r = base m \<and>
    list_all2 (\<lambda>q s. name s = SymbolRequirement.name q \<and>
        isInsideExecutableSegment m (address s) (of_nat (length (codePrefix q))) \<and>
        mem_read (processMemory env) (address s) (length (codePrefix q)) = codePrefix q)
      (symbols recipe) (resolvedSymbols r)"
  using assms by (rule resolved_code)

text \<open>
  C14. Reading the build id inverts the ELF note format: when the first usable note segment
  of a module holds a sequence of notes, the build id is the descriptor of the first GNU
  build-id note, in lower-case hexadecimal.
\<close>
theorem build_id_of_notes:
  assumes "programHeaders m = pre @ header # post" "\<forall>h \<in> set pre. p_type h \<noteq> PT_NOTE"
    and "p_type header = PT_NOTE" "\<forall>n \<in> set ns. note_sized n"
    and "mem_read (processMemory env) (base m + p_vaddr header) (unat (p_memsz header)) = concat (map noteBytes ns)"
    and "find is_build_id ns = Some n"
  shows "readBuildId env m = lowerHex (noteDesc n)"
proof -
  have pre: "buildIdLoop mem b (hs @ header # post) = buildIdLoop mem b (header # post)"
    if "\<forall>h \<in> set hs. p_type h \<noteq> PT_NOTE" for mem b hs
    using that by (induction hs) auto
  have "noteLoop (processMemory env) (base m + p_vaddr header) (unat (p_memsz header)) 0 = Some (lowerHex (noteDesc n))"
    using noteLoop_notes [of "processMemory env" "base m + p_vaddr header" 0 "unat (p_memsz header)" ns] assms
    by simp
  moreover have "12 \<le> unat (p_memsz header)"
  proof -
    obtain n' ns' where "ns = n' # ns'"
      using assms(6) by (cases ns) auto
    then show ?thesis
      using note_in_memory(1) [of "processMemory env" "base m + p_vaddr header" "unat (p_memsz header)" n'] assms(5)
      by auto
  qed
  ultimately show ?thesis
    using assms(1,3) pre [OF assms(2)] by (simp add: readBuildId_def word_less_nat_alt)
qed


section \<open>A process that matches\<close>

definition exampleNotes :: "ElfNote list" where
  "exampleNotes = [\<lparr>noteName = [0x47, 0x4E, 0x55, 0], noteDesc = [0, 0, 0, 0, 3], noteType = 1\<rparr>,
     \<lparr>noteName = [0x47, 0x4E, 0x55, 0], noteDesc = [1, 2, 3, 4, 5, 6, 7, 8, 9], noteType = 3\<rparr>]"

definition exampleCode :: bytes where
  "exampleCode =
     [0x3f, 0x23, 0x03, 0xd5, 0xff, 0x83, 0x02, 0xd1, 0xfd, 0x7b, 0x04, 0xa9, 0xfc, 0x6f, 0x05, 0xa9]"

definition exampleModule :: LoadedModule where
  "exampleModule = \<lparr>path = ''/system/lib64/libcameraservice.so'', base = 0x10000000,
     programHeaders = [\<lparr>p_type = 1, p_flags = 5, p_vaddr = 0, p_memsz = 0x1000\<rparr>,
       \<lparr>p_type = 4, p_flags = 4, p_vaddr = 0x200, p_memsz = 52\<rparr>]\<rparr>"

definition exampleEnv :: ProbeEnv where
  "exampleEnv = \<lparr>link_exe = Some ''/system/bin/cameraserver'',
     loaded = [\<lparr>dlpi_name = [], dlpi_addr = 0x1000, dlpi_phdr = Some []\<rparr>,
       \<lparr>dlpi_name = path exampleModule, dlpi_addr = base exampleModule,
        dlpi_phdr = Some (programHeaders exampleModule)\<rparr>],
     processMemory = (\<lambda>a. if 0x10000200 \<le> a \<and> a < 0x10000200 + 52
         then concat (map noteBytes exampleNotes) ! unat (a - 0x10000200)
         else if 0x10000100 \<le> a \<and> a < 0x10000110 then exampleCode ! unat (a - 0x10000100) else 0),
     statSize = (\<lambda>_. Some 3), fileData = (\<lambda>_. Some ([1, 2, 3], True)), dl_open = (\<lambda>_. Some 1), dl_error = [],
     dl_sym = (\<lambda>_ s. if s = ''onTransact'' then Some 0x10000100 else None)\<rparr>"

definition exampleProbeRecipe :: AbiRecipe where
  "exampleProbeRecipe = \<lparr>schema = 2, moduleSuffix = ''/libcameraservice.so'', fileSize = 3,
     sha256Hex = lowerHex (fipsSha256 [1, 2, 3]), buildIdHex = lowerHex [1, 2, 3, 4, 5, 6, 7, 8, 9],
     architecture = ''arm64'',
     symbols = [\<lparr>SymbolRequirement.name = ''onTransact'', codePrefix = exampleCode\<rparr>],
     hooks = [\<lparr>HookRequirement.role = ''on_transact'', symbol = ''onTransact''\<rparr>],
     transactions = [\<lparr>BinderTransaction.role = ''connect_device'', code = 4\<rparr>],
     dependencies = [\<lparr>ModuleIdentity.moduleSuffix = ''cameraservice.so'', fileSize = 3,
       sha256Hex = lowerHex (fipsSha256 [1, 2, 3]), buildIdHex = lowerHex [1, 2, 3, 4, 5, 6, 7, 8, 9]\<rparr>]\<rparr>"

theorem build_id_of_notes_witness:
  "readBuildId exampleEnv exampleModule = lowerHex [1, 2, 3, 4, 5, 6, 7, 8, 9]"
proof -
  have "mem_read (processMemory exampleEnv) 0x10000200 52 = concat (map noteBytes exampleNotes)"
    by code_simp
  then show ?thesis
    using build_id_of_notes [of exampleModule "[hd (programHeaders exampleModule)]"
      "programHeaders exampleModule ! 1" "[]" exampleNotes exampleEnv "exampleNotes ! 1"]
    by (simp add: exampleModule_def PT_NOTE_def exampleNotes_def note_sized_def is_build_id_def NT_GNU_BUILD_ID_def)
qed

lemma example_module_found:
  "moduleFor exampleEnv ''/libcameraservice.so'' = Some exampleModule"
  "moduleFor exampleEnv ''cameraservice.so'' = Some exampleModule"
  by code_simp+

lemma example_matches: "process_matches exampleEnv exampleProbeRecipe"
proof -
  have "readBuildId exampleEnv exampleModule = lowerHex [1, 2, 3, 4, 5, 6, 7, 8, 9]"
    by code_simp
  then have "identity_matches exampleEnv exampleModule 3 (lowerHex [1, 2, 3, 4, 5, 6, 7, 8, 9])
      (lowerHex (fipsSha256 [1, 2, 3]))"
    by (simp add: identity_matches_def exampleEnv_def)
  moreover have "symbol_matches exampleEnv exampleModule 1 \<lparr>SymbolRequirement.name = ''onTransact'', codePrefix = exampleCode\<rparr> 0x10000100"
    by code_simp
  moreover have "lowerHex [1, 2, 3, 4, 5, 6, 7, 8, 9] \<noteq> []"
    using length_lowerHex [of "[1, 2, 3, 4, 5, 6, 7, 8, 9]"] by force
  moreover have "dl_open exampleEnv p = Some 1" for p
    by (simp add: exampleEnv_def)
  ultimately show ?thesis
    using example_module_found
    by (auto simp: process_matches_def exampleProbeRecipe_def recipeIncomplete_def strategyIncomplete_def
        dependency_matches_def)
qed

theorem probe_resolves_code_witness:
  "\<exists>r. validateLoadedModule exampleEnv exampleProbeRecipe = Some r \<and> status r = kAllowed \<and>
     (\<exists>m. moduleFor exampleEnv (moduleSuffix exampleProbeRecipe) = Some m \<and> moduleBase r = base m \<and>
       list_all2 (\<lambda>q s. name s = SymbolRequirement.name q \<and>
         isInsideExecutableSegment m (address s) (of_nat (length (codePrefix q))) \<and>
         mem_read (processMemory exampleEnv) (address s) (length (codePrefix q)) = codePrefix q)
        (symbols exampleProbeRecipe) (resolvedSymbols r))"
proof -
  obtain r where r: "validateLoadedModule exampleEnv exampleProbeRecipe = Some r" "status r = kAllowed"
    using validateLoadedModule_returns [of exampleEnv exampleProbeRecipe] example_matches by auto
  from probe_resolves_code [OF r] r show ?thesis
    by blast
qed

end
