(* ===== verification/Hook_Strategy.thy ===== *)
theory Hook_Strategy
  imports Abi_Probe Patch_Install
begin

text \<open>
  The planning step between the ABI guard and the patch transaction:
  \<open>src/runtime/RuntimeHookStrategy.cpp\<close> chooses the hook target of a validated recipe and
  plans the patch, and \<open>src/runtime/StaticArm64Trampoline.cpp\<close> selects the precompiled
  trampoline for the one reviewed device build.
\<close>

section \<open>The strategy\<close>

datatype HookStrategyStatus = kReady | kAbiNotAllowed | kIncompleteRecipe | kUnsupportedArchitecture
  | kHookSymbolNotResolved | kPatchNotRelocatable

record OnTransactStrategyPlan =
  status :: HookStrategyStatus
  message :: string
  targetAddress :: uintptr
  transactions :: "BinderTransaction list"
  patch :: Arm64PatchPlan

definition strategyFailure :: "HookStrategyStatus \<Rightarrow> string \<Rightarrow> OnTransactStrategyPlan" where
  "strategyFailure s m = \<lparr>status = s, message = m, targetAddress = 0, transactions = [], patch = emptyPlan\<rparr>"

definition planOnTransactStrategy :: "AbiRecipe \<Rightarrow> ProbeResult \<Rightarrow> uintptr \<Rightarrow> OnTransactStrategyPlan" where
  "planOnTransactStrategy recipe probe replacementAddress =
     (if ProbeResult.status probe \<noteq> kAllowed
      then strategyFailure kAbiNotAllowed ''ABI guard did not allow this loaded module''
      else if schema recipe \<noteq> 2 \<or> hooks recipe = [] \<or> AbiRecipe.transactions recipe = [] \<or> dependencies recipe = []
      then strategyFailure kIncompleteRecipe ''schema 2 hook and transaction data are required''
      else if architecture recipe \<noteq> ''arm64''
      then strategyFailure kUnsupportedArchitecture ''only a fail-closed ARM64 planner is implemented''
      else case find (\<lambda>requirement. HookRequirement.role requirement = ''on_transact'') (hooks recipe) of
        None \<Rightarrow> strategyFailure kIncompleteRecipe ''recipe has no on_transact hook role''
      | Some hook \<Rightarrow>
          (case (find (\<lambda>s. SymbolRequirement.name s = symbol hook) (symbols recipe),
                 find (\<lambda>s. ResolvedSymbol.name s = symbol hook) (resolvedSymbols probe)) of
             (Some requirement, Some resolved) \<Rightarrow>
               (let p = planArm64InlineHook (address resolved) replacementAddress (codePrefix requirement) in
                if Arm64PatchPlan.status p \<noteq> Arm64PlanStatus.kReady
                then (strategyFailure kPatchNotRelocatable (Arm64PatchPlan.message p))\<lparr>patch := p\<rparr>
                else \<lparr>status = kReady,
                      message = ''onTransact strategy is validated and planned; no memory was modified'',
                      targetAddress = address resolved, transactions = AbiRecipe.transactions recipe, patch = p\<rparr>)
           | _ \<Rightarrow> strategyFailure kHookSymbolNotResolved
                    ''on_transact symbol was not resolved by the ABI guard''))"

fun hookStrategyStatusName :: "HookStrategyStatus \<Rightarrow> string" where
  "hookStrategyStatusName kReady = ''ready''"
| "hookStrategyStatusName kAbiNotAllowed = ''abi_not_allowed''"
| "hookStrategyStatusName kIncompleteRecipe = ''incomplete_recipe''"
| "hookStrategyStatusName kUnsupportedArchitecture = ''unsupported_architecture''"
| "hookStrategyStatusName kHookSymbolNotResolved = ''hook_symbol_not_resolved''"
| "hookStrategyStatusName kPatchNotRelocatable = ''patch_not_relocatable''"


section \<open>The precompiled trampoline\<close>

datatype StaticTrampolineStatus = kReady | kNoExactRecipe | kUnsupportedPlatform

record StaticTrampolineSelection =
  status :: StaticTrampolineStatus
  name :: string
  message :: string
  trampoline :: "uintptr PrecompiledArm64Trampoline"

definition kProfileName :: string where "kProfileName = ''nx769j-ukq1-20240417''"
definition kModule :: string where "kModule = ''libcameraservice.so''"
definition kModuleSize :: uint64 where "kModuleSize = 3132936"
definition kModuleSha256 :: string where
  "kModuleSha256 = ''a26f8ee10002769428871e042c7993e87ad769703897dd75a2fb93a725c64438''"
definition kModuleBuildId :: string where "kModuleBuildId = ''747dab9fa491b5af026f143c2c967789''"
definition kClientModule :: string where "kClientModule = ''libcamera_client.so''"
definition kClientModuleSize :: uint64 where "kClientModuleSize = 596328"
definition kClientModuleSha256 :: string where
  "kClientModuleSha256 = ''1cf518e86a2e5461e585d8dbd7a1dbc93e7ba2bcc95c3e254ebdcc72ee0433c5''"
definition kClientModuleBuildId :: string where "kClientModuleBuildId = ''f7cea72167468ee2dfac06e4433d8fa8''"
definition kOnTransactSymbol :: string where
  "kOnTransactSymbol = ''_ZN7android13CameraService10onTransactEjRKNS_6ParcelEPS1_j''"
definition kCharacteristicsSymbol :: string where
  "kCharacteristicsSymbol = ''_ZN7android13CameraService24getCameraCharacteristicsERKNS_8String16EibPNS_14CameraMetadataE''"

definition kOnTransactPrologue :: bytes where
  "kOnTransactPrologue =
     [0x3f, 0x23, 0x03, 0xd5, 0xff, 0x83, 0x02, 0xd1, 0xfd, 0x7b, 0x04, 0xa9, 0xfc, 0x6f, 0x05, 0xa9]"

definition kCharacteristicsPrologue :: bytes where
  "kCharacteristicsPrologue =
     [0x3f, 0x23, 0x03, 0xd5, 0xff, 0x03, 0x07, 0xd1, 0xfd, 0x7b, 0x16, 0xa9, 0xfc, 0x6f, 0x17, 0xa9]"

definition kTransactions :: "BinderTransaction list" where
  "kTransactions = map (\<lambda>(r, c). \<lparr>BinderTransaction.role = r, code = c\<rparr>)
     [(''connect_api1'', 3), (''connect_device'', 4), (''add_listener'', 5), (''get_concurrent_camera_ids'', 6),
      (''concurrent_session_support'', 7), (''remove_listener'', 8), (''get_camera_characteristics'', 9),
      (''get_legacy_parameters'', 12), (''supports_camera_api'', 13), (''set_torch_mode'', 16),
      (''turn_on_torch_with_strength'', 17), (''get_torch_strength'', 18)]"

definition hasSymbol :: "AbiRecipe \<Rightarrow> string \<Rightarrow> bytes \<Rightarrow> bool" where
  "hasSymbol recipe nm prefix =
     list_ex (\<lambda>s. SymbolRequirement.name s = nm \<and> length (codePrefix s) = length prefix \<and>
                  prefix = take (length prefix) (codePrefix s)) (symbols recipe)"

definition hasTransaction :: "AbiRecipe \<Rightarrow> BinderTransaction \<Rightarrow> bool" where
  "hasTransaction recipe expected =
     list_ex (\<lambda>t. BinderTransaction.role t = BinderTransaction.role expected \<and> code t = code expected)
       (AbiRecipe.transactions recipe)"

definition exactlyMatchesNx769j :: "AbiRecipe \<Rightarrow> bool" where
  "exactlyMatchesNx769j recipe =
     (if schema recipe \<noteq> 2 \<or> architecture recipe \<noteq> ''arm64'' \<or> moduleSuffix recipe \<noteq> kModule \<or>
         fileSize recipe \<noteq> kModuleSize \<or> sha256Hex recipe \<noteq> kModuleSha256 \<or> buildIdHex recipe \<noteq> kModuleBuildId \<or>
         length (symbols recipe) \<noteq> 2 \<or> length (hooks recipe) \<noteq> 1 \<or>
         length (AbiRecipe.transactions recipe) \<noteq> length kTransactions \<or> length (dependencies recipe) \<noteq> 1
      then False
      else let hook = hd (hooks recipe); dependency = hd (dependencies recipe) in
        if HookRequirement.role hook \<noteq> ''on_transact'' \<or> symbol hook \<noteq> kOnTransactSymbol \<or>
           ModuleIdentity.moduleSuffix dependency \<noteq> kClientModule \<or>
           ModuleIdentity.fileSize dependency \<noteq> kClientModuleSize \<or>
           ModuleIdentity.sha256Hex dependency \<noteq> kClientModuleSha256 \<or>
           ModuleIdentity.buildIdHex dependency \<noteq> kClientModuleBuildId \<or>
           \<not> hasSymbol recipe kOnTransactSymbol kOnTransactPrologue \<or>
           \<not> hasSymbol recipe kCharacteristicsSymbol kCharacteristicsPrologue
        then False
        else list_all (hasTransaction recipe) kTransactions)"

text \<open>The compare-and-exchange on the resume variable of the assembly trampoline.\<close>

definition bindNx769jResumeAddress :: "uintptr \<Rightarrow> uintptr \<Rightarrow> bool \<times> uintptr" where
  "bindNx769jResumeAddress variable newAddress =
     (if newAddress = 0 \<or> newAddress AND 3 \<noteq> 0 then (False, variable)
      else if variable = 0 then (True, newAddress)
      else (variable = newAddress, variable))"

definition noTrampoline :: "uintptr PrecompiledArm64Trampoline" where
  "noTrampoline = \<lparr>entryAddress = 0, codeSize = 0, relocatedOriginalBytes = replicate 16 0,
     bindResumeAddress = None\<rparr>"

definition noMatch :: StaticTrampolineSelection where
  "noMatch = \<lparr>status = kNoExactRecipe, name = [],
     message = ''no precompiled trampoline exactly matches the complete ABI recipe'',
     trampoline = noTrampoline\<rparr>"

text \<open>
  The addresses of the two assembly labels are arguments; \<open>None\<close> stands for a build without
  the assembly (not Android on ARM64).
\<close>

definition selectStaticArm64Trampoline :: "(uintptr \<times> uintptr) option \<Rightarrow> AbiRecipe \<Rightarrow> StaticTrampolineSelection" where
  "selectStaticArm64Trampoline labels recipe =
     (if \<not> exactlyMatchesNx769j recipe then noMatch
      else let t = noTrampoline\<lparr>relocatedOriginalBytes := kOnTransactPrologue\<rparr> in
        case labels of
          None \<Rightarrow> \<lparr>status = kUnsupportedPlatform, name = kProfileName,
                   message = ''precompiled trampoline is available only in Android ARM64 builds'', trampoline = t\<rparr>
        | Some (entry, limit) \<Rightarrow>
            (if entry = 0 \<or> limit \<le> entry
             then \<lparr>status = kUnsupportedPlatform, name = kProfileName,
                   message = ''precompiled trampoline symbols are unavailable'', trampoline = t\<rparr>
             else \<lparr>status = kReady, name = kProfileName,
                   message = ''exact NX769J precompiled trampoline selected; no memory was modified'',
                   trampoline = t\<lparr>entryAddress := entry, codeSize := limit - entry,
                                  bindResumeAddress := Some bindNx769jResumeAddress\<rparr>\<rparr>))"

fun staticTrampolineStatusName :: "StaticTrampolineStatus \<Rightarrow> string" where
  "staticTrampolineStatusName kReady = ''ready''"
| "staticTrampolineStatusName kNoExactRecipe = ''no_exact_recipe''"
| "staticTrampolineStatusName kUnsupportedPlatform = ''unsupported_platform''"


interpretation strategy_names: enum_names hookStrategyStatusName
  "[HookStrategyStatus.kReady, kAbiNotAllowed, kIncompleteRecipe, kUnsupportedArchitecture, kHookSymbolNotResolved,
    kPatchNotRelocatable]"
proof
  show "s \<in> set [HookStrategyStatus.kReady, kAbiNotAllowed, kIncompleteRecipe, kUnsupportedArchitecture,
      kHookSymbolNotResolved, kPatchNotRelocatable]" for s
    by (cases s) simp_all
qed simp


section \<open>The planned target\<close>

lemma find_related:
  assumes "list_all2 R xs ys" "\<And>x y. R x y \<Longrightarrow> f x = g y" "find (\<lambda>x. f x = k) xs = Some x"
  shows "\<exists>y. find (\<lambda>y. g y = k) ys = Some y \<and> R x y"
  using assms(1,3)
proof (induction rule: list_all2_induct)
  case (Cons x' xs y' ys)
  then show ?case
    using assms(2) [OF Cons(1)] by (cases "f x' = k") auto
qed simp

lemma strategy_ready:
  assumes "OnTransactStrategyPlan.status (planOnTransactStrategy recipe probe r) = HookStrategyStatus.kReady"
  shows "\<exists>hook requirement resolved.
    ProbeResult.status probe = kAllowed \<and>
    find (\<lambda>h. HookRequirement.role h = ''on_transact'') (hooks recipe) = Some hook \<and>
    find (\<lambda>s. SymbolRequirement.name s = symbol hook) (symbols recipe) = Some requirement \<and>
    find (\<lambda>s. ResolvedSymbol.name s = symbol hook) (resolvedSymbols probe) = Some resolved \<and>
    targetAddress (planOnTransactStrategy recipe probe r) = address resolved \<and>
    patch (planOnTransactStrategy recipe probe r) = planArm64InlineHook (address resolved) r (codePrefix requirement) \<and>
    Arm64PatchPlan.status (patch (planOnTransactStrategy recipe probe r)) = Arm64PlanStatus.kReady"
  using assms unfolding planOnTransactStrategy_def strategyFailure_def
  by (auto simp: Let_def split: if_split_asm option.split_asm)

lemma isInside_shorter:
  assumes "isInsideExecutableSegment m a n" "k \<le> n"
  shows "isInsideExecutableSegment m a k"
proof -
  have fits: "unat a + unat n < 2 ^ 64" "unat k \<le> unat n"
    using assms word_max_minus_le_iff [of n a]
    by (auto simp: isInsideExecutableSegment_def word_le_nat_alt not_less add.commute split: if_split_asm)
  then have "unat (a + k) \<le> unat (a + n)"
    using unat_add_lem [of a k] unat_add_lem [of a n] by simp
  then have "a + k \<le> a + n" "\<not> k > (- 1) - a"
    using fits word_max_minus_le_iff [of k a] by (simp_all add: word_le_nat_alt not_less add.commute)
  then show ?thesis
    using assms(1) unfolding isInsideExecutableSegment_def Let_def list_ex_iff
    by (auto split: if_split_asm intro: order_trans)
qed

lemma planned_target:
  assumes "validateLoadedModule env recipe = Some probe"
    and "OnTransactStrategyPlan.status (planOnTransactStrategy recipe probe r) = HookStrategyStatus.kReady"
    and sized: "\<forall>s \<in> set (symbols recipe). length (codePrefix s) < 2 ^ 64"
  defines "plan \<equiv> planOnTransactStrategy recipe probe r"
  shows "\<exists>m. moduleFor env (moduleSuffix recipe) = Some m \<and> isInsideExecutableSegment m (targetAddress plan) 16 \<and>
    mem_read (processMemory env) (targetAddress plan) 16 = originalBytes (patch plan)"
proof -
  obtain hook :: HookRequirement and requirement resolved where f: "ProbeResult.status probe = kAllowed"
      "find (\<lambda>s. SymbolRequirement.name s = symbol hook) (symbols recipe) = Some requirement"
      "find (\<lambda>s. ResolvedSymbol.name s = symbol hook) (resolvedSymbols probe) = Some resolved"
      "targetAddress plan = address resolved"
      "patch plan = planArm64InlineHook (address resolved) r (codePrefix requirement)"
      "Arm64PatchPlan.status (patch plan) = Arm64PlanStatus.kReady"
    using strategy_ready [OF assms(2)] unfolding plan_def by blast
  obtain m where m: "moduleFor env (moduleSuffix recipe) = Some m"
      "list_all2 (\<lambda>q s. ResolvedSymbol.name s = SymbolRequirement.name q \<and>
        isInsideExecutableSegment m (address s) (of_nat (length (codePrefix q))) \<and>
        mem_read (processMemory env) (address s) (length (codePrefix q)) = codePrefix q)
      (symbols recipe) (resolvedSymbols probe)"
    using resolved_code [OF assms(1) f(1)] by auto
  have q: "isInsideExecutableSegment m (address resolved) (of_nat (length (codePrefix requirement)))"
      "mem_read (processMemory env) (address resolved) (length (codePrefix requirement)) = codePrefix requirement"
    using find_related [OF m(2) _ f(2), of ResolvedSymbol.name] f(3) by auto
  have len: "16 \<le> length (codePrefix requirement)"
    using ready_plan_fields(2) f(5,6) by metis
  have "requirement \<in> set (symbols recipe)"
    using f(2) by (auto simp: find_Some_iff)
  then have "16 \<le> (of_nat (length (codePrefix requirement)) :: size_t)"
    using len sized by (simp add: word_le_nat_alt unat_of_nat)
  then have "isInsideExecutableSegment m (address resolved) 16"
    by (rule isInside_shorter [OF q(1)])
  moreover have "mem_read (processMemory env) (address resolved) 16 = originalBytes (patch plan)"
    using mem_read_drop [of 0 16 "length (codePrefix requirement)" "processMemory env" "address resolved"] q(2) len
      ready_plan_fields(6) f(5,6) by simp
  ultimately show ?thesis
    using m(1) f(4) by auto
qed


section \<open>The precompiled trampoline fits the plan\<close>

lemma exact_parts:
  assumes "exactlyMatchesNx769j recipe"
  shows "\<exists>hook s1 s2. hooks recipe = [hook] \<and> HookRequirement.role hook = ''on_transact'' \<and>
    symbol hook = kOnTransactSymbol \<and> symbols recipe = [s1, s2] \<and>
    hasSymbol recipe kOnTransactSymbol kOnTransactPrologue \<and>
    hasSymbol recipe kCharacteristicsSymbol kCharacteristicsPrologue"
  using assms
  by (auto simp: exactlyMatchesNx769j_def Let_def length_Suc_conv numeral_2_eq_2 split: if_split_asm)

lemma exact_on_transact:
  assumes "exactlyMatchesNx769j recipe"
    and "find (\<lambda>s. SymbolRequirement.name s = kOnTransactSymbol) (symbols recipe) = Some requirement"
  shows "codePrefix requirement = kOnTransactPrologue"
proof -
  obtain s1 s2 where s: "symbols recipe = [s1, s2]"
      "hasSymbol recipe kOnTransactSymbol kOnTransactPrologue"
      "hasSymbol recipe kCharacteristicsSymbol kCharacteristicsPrologue"
    using exact_parts [OF assms(1)] by auto
  have "kOnTransactSymbol \<noteq> kCharacteristicsSymbol"
    by (simp add: kOnTransactSymbol_def kCharacteristicsSymbol_def)
  then show ?thesis
    using s(2,3) assms(2) unfolding hasSymbol_def s(1) by (auto split: if_split_asm)
qed

lemma select_ready:
  assumes "StaticTrampolineSelection.status (selectStaticArm64Trampoline labels recipe) = StaticTrampolineStatus.kReady"
  shows "\<exists>entry limit. labels = Some (entry, limit) \<and> exactlyMatchesNx769j recipe \<and> entry \<noteq> 0 \<and> entry < limit \<and>
    StaticTrampolineSelection.trampoline (selectStaticArm64Trampoline labels recipe) =
      \<lparr>entryAddress = entry, codeSize = limit - entry, relocatedOriginalBytes = kOnTransactPrologue,
       bindResumeAddress = Some bindNx769jResumeAddress\<rparr>"
  using assms
  by (auto simp: selectStaticArm64Trampoline_def noMatch_def noTrampoline_def Let_def not_le
      split: if_split_asm option.split_asm)

lemma strategy_on_exact:
  assumes "exactlyMatchesNx769j recipe"
    and "OnTransactStrategyPlan.status (planOnTransactStrategy recipe probe r) = HookStrategyStatus.kReady"
  shows "patch (planOnTransactStrategy recipe probe r) =
      planArm64InlineHook (targetAddress (planOnTransactStrategy recipe probe r)) r kOnTransactPrologue"
    and "Arm64PatchPlan.status (patch (planOnTransactStrategy recipe probe r)) = Arm64PlanStatus.kReady"
proof -
  obtain hook where h: "hooks recipe = [hook]" "symbol hook = kOnTransactSymbol"
    using exact_parts [OF assms(1)] by auto
  with strategy_ready [OF assms(2)] exact_on_transact [OF assms(1)]
  show "patch (planOnTransactStrategy recipe probe r) =
      planArm64InlineHook (targetAddress (planOnTransactStrategy recipe probe r)) r kOnTransactPrologue"
    "Arm64PatchPlan.status (patch (planOnTransactStrategy recipe probe r)) = Arm64PlanStatus.kReady"
    by (auto split: if_split_asm)
qed

lemma precompiled_plan_valid:
  assumes ready: "Arm64PatchPlan.status (planArm64InlineHook t r p) = Arm64PlanStatus.kReady"
    and pre: "relocatedOriginalBytes pre = take 16 p" "bindResumeAddress pre \<noteq> None"
    and place: "entryAddress pre \<noteq> 0" "entryAddress pre AND 3 = 0"
      "rangeEnd (entryAddress pre) (codeSize pre) = Some e" "t + 16 \<le> entryAddress pre \<or> e \<le> t"
  shows "validPlan (newPrecompiledTransaction t pre (planArm64InlineHook t r p) b)"
proof -
  note f = ready_plan_fields [OF ready]
  have len: "length (append32 [] kBtiCall @ take 16 p) = 20"
    using f(2) by (simp add: le32.width_append)
  have rt: "rangeEnd t 16 = Some (t + 16)"
    using f(1) by (simp add: rangeEnd_Some_iff hookable_addresses_def)
  show ?thesis
    using f(1,2) planner_shape [OF ready] ready absolute_branch_reads(1) [OF len]
      absolute_branch_reads(1) [of "[]" 0 r] pre place
    by (auto simp: validPlan_def newPrecompiledTransaction_def f(4-8) rt kAbsoluteBranchSize_def
        hookable_addresses_def min.absorb2)
qed


section \<open>Properties\<close>

text \<open>
  C20. A ready strategy for a probed module never plans over unknown code: in the probed
  process the 16 bytes at the planned target are the plan's original bytes and lie in an
  executable segment of the module the recipe names.
\<close>
theorem strategy_targets_verified_code:
  assumes "validateLoadedModule env recipe = Some probe"
    and "OnTransactStrategyPlan.status (planOnTransactStrategy recipe probe r) = HookStrategyStatus.kReady"
    and "\<forall>s \<in> set (symbols recipe). length (codePrefix s) < 2 ^ 64"
  shows "\<exists>m. moduleFor env (moduleSuffix recipe) = Some m \<and>
    isInsideExecutableSegment m (targetAddress (planOnTransactStrategy recipe probe r)) 16 \<and>
    mem_read (processMemory env) (targetAddress (planOnTransactStrategy recipe probe r)) 16 =
      originalBytes (patch (planOnTransactStrategy recipe probe r))"
  using planned_target [OF assms] .

text \<open>
  C21. When a recipe selects the precompiled trampoline and the strategy for it is ready, the
  trampoline replays exactly the bytes the plan displaces, so that a transaction built from
  both passes the installer's plan check wherever the trampoline does not overlap the target.
\<close>
theorem precompiled_trampoline_fits_plan:
  fixes recipe probe r labels b
  defines "plan \<equiv> planOnTransactStrategy recipe probe r"
    and "pre \<equiv> StaticTrampolineSelection.trampoline (selectStaticArm64Trampoline labels recipe)"
  assumes "StaticTrampolineSelection.status (selectStaticArm64Trampoline labels recipe) = StaticTrampolineStatus.kReady"
    and "OnTransactStrategyPlan.status plan = HookStrategyStatus.kReady"
    and "entryAddress pre AND 3 = 0" "rangeEnd (entryAddress pre) (codeSize pre) = Some e"
    and "targetAddress plan + 16 \<le> entryAddress pre \<or> e \<le> targetAddress plan"
  shows "relocatedOriginalBytes pre = originalBytes (patch plan) \<and>
    validPlan (newPrecompiledTransaction (targetAddress plan) pre (patch plan) b)"
proof -
  obtain entry limit where l: "exactlyMatchesNx769j recipe" "entry \<noteq> 0"
      "pre = \<lparr>entryAddress = entry, codeSize = limit - entry, relocatedOriginalBytes = kOnTransactPrologue,
       bindResumeAddress = Some bindNx769jResumeAddress\<rparr>"
    using select_ready [OF assms(3)] unfolding pre_def by auto
  have p: "patch plan = planArm64InlineHook (targetAddress plan) r kOnTransactPrologue"
      "Arm64PatchPlan.status (patch plan) = Arm64PlanStatus.kReady"
    using strategy_on_exact [OF l(1)] assms(4) unfolding plan_def by auto
  have t: "take 16 kOnTransactPrologue = kOnTransactPrologue"
    by (simp add: kOnTransactPrologue_def)
  have "originalBytes (patch plan) = kOnTransactPrologue"
    using ready_plan_fields(6) [of "targetAddress plan" r kOnTransactPrologue] p t by simp
  moreover have "validPlan (newPrecompiledTransaction (targetAddress plan) pre (patch plan) b)"
    unfolding p(1)
    by (rule precompiled_plan_valid) (use p t l assms(5-7) in auto)
  ultimately show ?thesis
    using l(3) by simp
qed

text \<open>The recipe of the reviewed build, and a probe result for it.\<close>

definition nx769jRecipe :: AbiRecipe where
  "nx769jRecipe = \<lparr>schema = 2, moduleSuffix = kModule, fileSize = kModuleSize, sha256Hex = kModuleSha256,
     buildIdHex = kModuleBuildId, architecture = ''arm64'',
     symbols = [\<lparr>SymbolRequirement.name = kOnTransactSymbol, codePrefix = kOnTransactPrologue\<rparr>,
       \<lparr>SymbolRequirement.name = kCharacteristicsSymbol, codePrefix = kCharacteristicsPrologue\<rparr>],
     hooks = [\<lparr>HookRequirement.role = ''on_transact'', symbol = kOnTransactSymbol\<rparr>],
     transactions = kTransactions,
     dependencies = [\<lparr>ModuleIdentity.moduleSuffix = kClientModule, fileSize = kClientModuleSize,
       sha256Hex = kClientModuleSha256, buildIdHex = kClientModuleBuildId\<rparr>]\<rparr>"

definition nx769jProbe :: ProbeResult where
  "nx769jProbe = (failure kAllowed [])\<lparr>resolvedSymbols :=
     [\<lparr>ResolvedSymbol.name = kOnTransactSymbol, address = 0x10000100\<rparr>,
      \<lparr>ResolvedSymbol.name = kCharacteristicsSymbol, address = 0x10000800\<rparr>]\<rparr>"

lemma nx769j_ready:
  "StaticTrampolineSelection.status (selectStaticArm64Trampoline (Some (0x20000000, 0x20000040)) nx769jRecipe) =
     StaticTrampolineStatus.kReady"
  "OnTransactStrategyPlan.status (planOnTransactStrategy nx769jRecipe nx769jProbe 0x30000000) = HookStrategyStatus.kReady"
  "targetAddress (planOnTransactStrategy nx769jRecipe nx769jProbe 0x30000000) = 0x10000100"
  by code_simp+

theorem precompiled_trampoline_fits_plan_witness:
  "\<forall>backend. validPlan (newPrecompiledTransaction 0x10000100
     (StaticTrampolineSelection.trampoline (selectStaticArm64Trampoline (Some (0x20000000, 0x20000040)) nx769jRecipe))
     (patch (planOnTransactStrategy nx769jRecipe nx769jProbe 0x30000000)) backend)"
proof
  fix backend
  let ?pre = "StaticTrampolineSelection.trampoline (selectStaticArm64Trampoline (Some (0x20000000, 0x20000040)) nx769jRecipe)"
  have "entryAddress ?pre = 0x20000000" "codeSize ?pre = 0x40"
    using select_ready [OF nx769j_ready(1)] by auto
  moreover have "rangeEnd 0x20000000 0x40 = Some 0x20000040"
    by code_simp
  ultimately show "validPlan (newPrecompiledTransaction 0x10000100 ?pre
      (patch (planOnTransactStrategy nx769jRecipe nx769jProbe 0x30000000)) backend)"
    using precompiled_trampoline_fits_plan [where e = "0x20000040" and b = backend, OF nx769j_ready(1,2)] nx769j_ready(3)
    by simp
qed

theorem strategy_targets_verified_code_witness:
  "\<exists>probe m. validateLoadedModule exampleEnv exampleProbeRecipe = Some probe \<and>
     OnTransactStrategyPlan.status (planOnTransactStrategy exampleProbeRecipe probe 0x30000000) = HookStrategyStatus.kReady \<and>
     mem_read (processMemory exampleEnv) (targetAddress (planOnTransactStrategy exampleProbeRecipe probe 0x30000000)) 16 =
       originalBytes (patch (planOnTransactStrategy exampleProbeRecipe probe 0x30000000)) \<and>
     moduleFor exampleEnv (moduleSuffix exampleProbeRecipe) = Some m"
proof -
  obtain probe where v: "validateLoadedModule exampleEnv exampleProbeRecipe = Some probe" "ProbeResult.status probe = kAllowed"
    using validateLoadedModule_returns [of exampleEnv exampleProbeRecipe] example_matches by auto
  then obtain handle where "probe = checkSymbols exampleEnv exampleModule handle (symbols exampleProbeRecipe)
      (identified exampleProbeRecipe exampleModule)"
    using allowed_result [OF v] example_module_found(1) by (auto simp: exampleProbeRecipe_def)
  with v(2) have res: "resolvedSymbols probe = [\<lparr>ResolvedSymbol.name = ''onTransact'', address = 0x10000100\<rparr>]"
    using checkSymbols_resolved [of exampleEnv exampleModule handle "symbols exampleProbeRecipe"
      "identified exampleProbeRecipe exampleModule"]
    by (auto simp: exampleProbeRecipe_def identified_def failure_def list_all2_Cons1 symbol_matches_def exampleEnv_def)
  have "Arm64PatchPlan.status (planArm64InlineHook 0x10000100 0x30000000 exampleCode) = Arm64PlanStatus.kReady"
    by code_simp
  then have ready: "OnTransactStrategyPlan.status (planOnTransactStrategy exampleProbeRecipe probe 0x30000000) =
      HookStrategyStatus.kReady"
    using v(2) res by (simp add: planOnTransactStrategy_def exampleProbeRecipe_def)
  moreover have "\<forall>s \<in> set (symbols exampleProbeRecipe). length (codePrefix s) < 2 ^ 64"
    by (simp add: exampleProbeRecipe_def exampleCode_def)
  ultimately show ?thesis
    using strategy_targets_verified_code [OF v(1) ready] v(1) by blast
qed

end
