(* ===== verification/Activation_Preflight.thy ===== *)
theory Activation_Preflight
  imports C_Strings Patch_Planner
begin

text \<open>
  The read-only preflight of \<open>src/runtime/RuntimeActivationPreflight.cpp\<close>: parsing
  \<open>/proc/self/maps\<close>, collecting a snapshot of the process and deciding whether a patch plan
  may be applied to it.  The files of \<open>/proc\<close> are fields of an environment record.
\<close>

section \<open>Definitions\<close>

record ProcessMapEntry =
  start :: uintptr
  endAddress :: uintptr
  readable :: bool
  writable :: bool
  executable :: bool
  privateMapping :: bool
  path :: string

record ActivationSnapshot =
  mappings :: "ProcessMapEntry list"
  threadIds :: "int list"
  currentThreadId :: int
  observedTargetBytes :: bytes
  collectionError :: string

datatype ActivationPreflightStatus = kReadyReadOnly | kInvalidPlan | kSnapshotError | kTargetMappingMissing
  | kTargetRangeSplit | kTargetPermissionMismatch | kTargetModuleMismatch | kTargetBytesMismatch
  | kThreadInventoryInvalid | kCurrentThreadMissing

record ActivationPreflightResult =
  status :: ActivationPreflightStatus
  message :: string
  targetMapping :: ProcessMapEntry
  threadCount :: nat

definition emptyMapEntry :: ProcessMapEntry where
  "emptyMapEntry = \<lparr>start = 0, endAddress = 0, readable = False, writable = False, executable = False,
     privateMapping = False, path = []\<rparr>"

definition parseHexAddress :: "string \<Rightarrow> uintptr option" where
  "parseHexAddress v =
     (if v = [] then None
      else case strto 16 (cstr v) of
        None \<Rightarrow> None
      | Some (parsed, rest) \<Rightarrow>
          (if \<bar>parsed\<bar> > 2 ^ 64 - 1 \<or> rest \<noteq> [] then None else Some (of_int parsed)))"

definition validPermissions :: "string \<Rightarrow> bool" where
  "validPermissions permissions \<longleftrightarrow> length permissions = 4 \<and>
     (permissions ! 0 = CHR ''r'' \<or> permissions ! 0 = CHR ''-'') \<and>
     (permissions ! 1 = CHR ''w'' \<or> permissions ! 1 = CHR ''-'') \<and>
     (permissions ! 2 = CHR ''x'' \<or> permissions ! 2 = CHR ''-'') \<and>
     (permissions ! 3 = CHR ''p'' \<or> permissions ! 3 = CHR ''s'')"

definition trimLeadingSpaces :: "string \<Rightarrow> string" where
  "trimLeadingSpaces v = dropWhile (\<lambda>c. c = CHR '' '') v"

definition basename :: "string \<Rightarrow> string" where
  "basename p = afterLast (CHR ''/'') p"

definition preflightResult :: "ActivationPreflightStatus \<Rightarrow> string \<Rightarrow> ActivationPreflightResult" where
  "preflightResult s m = \<lparr>status = s, message = m, targetMapping = emptyMapEntry, threadCount = 0\<rparr>"

text \<open>One non-empty line, given the entries before it.\<close>

definition parseMapsLine :: "uint64 \<Rightarrow> string \<Rightarrow> ProcessMapEntry list \<Rightarrow> string + ProcessMapEntry" where
  "parseMapsLine lineNumber line previous =
     (case readTokens 5 line of
        None \<Rightarrow> Inl (''malformed /proc maps line '' @ toString (unat lineNumber))
      | Some (tokens, rest) \<Rightarrow>
          (let range = tokens ! 0; permissions = tokens ! 1;
               invalid = Inl (''invalid /proc maps range or permissions on line '' @ toString (unat lineNumber)) in
           case splitAt (CHR ''-'') range of
             None \<Rightarrow> invalid
           | Some (first, second) \<Rightarrow>
               (case (parseHexAddress first, parseHexAddress second) of
                  (Some s, Some e) \<Rightarrow>
                    (if s \<ge> e \<or> \<not> validPermissions permissions then invalid
                     else if previous \<noteq> [] \<and> s < endAddress (last previous)
                     then Inl (''/proc maps entries are unsorted or overlapping on line '' @
                               toString (unat lineNumber))
                     else Inr \<lparr>start = s, endAddress = e, readable = (permissions ! 0 = CHR ''r''),
                            writable = (permissions ! 1 = CHR ''w''), executable = (permissions ! 2 = CHR ''x''),
                            privateMapping = (permissions ! 3 = CHR ''p''),
                            path = trimLeadingSpaces rest\<rparr>)
                | _ \<Rightarrow> invalid)))"

fun parseMapsLoop :: "uint64 \<Rightarrow> string list \<Rightarrow> ProcessMapEntry list \<Rightarrow> string + ProcessMapEntry list" where
  "parseMapsLoop n [] acc = Inr acc"
| "parseMapsLoop n (line # rest) acc =
     (if line = [] then parseMapsLoop (n + 1) rest acc
      else case parseMapsLine (n + 1) line acc of
             Inl e \<Rightarrow> Inl e
           | Inr entry \<Rightarrow> parseMapsLoop (n + 1) rest (acc @ [entry]))"

definition parseProcMapsText :: "string \<Rightarrow> bool \<Rightarrow> string + ProcessMapEntry list" where
  "parseProcMapsText text mappingsNull =
     (if mappingsNull then Inl ''mapping output is null''
      else case parseMapsLoop 0 (getlines text) [] of
             Inl e \<Rightarrow> Inl e
           | Inr [] \<Rightarrow> Inl ''/proc maps contained no entries''
           | Inr ms \<Rightarrow> Inr ms)"

text \<open>
  What the snapshot reads: the text of \<open>/proc/self/maps\<close>, whether \<open>/proc/self/mem\<close> opens and
  what \<open>pread\<close> on it delivers, the names in \<open>/proc/self/task\<close> with the error that ended the
  listing, and \<open>gettid\<close>.
\<close>

record ProcEnv =
  mapsText :: "string option"
  memOpens :: bool
  pread :: "uintptr \<Rightarrow> nat \<Rightarrow> bytes option"
  taskNames :: "(string list \<times> bool) option"
  gettid :: int

definition kMaxPreflightTargetSize :: size_t where
  "kMaxPreflightTargetSize = 4096"

definition parseThreadId :: "string \<Rightarrow> int option" where
  "parseThreadId d_name =
     (case strto 10 (cstr d_name) of
        None \<Rightarrow> None
      | Some (v, rest) \<Rightarrow>
          (if - (2 ^ 63) \<le> v \<and> v \<le> 2 ^ 63 - 1 \<and> rest = [] \<and> v > 0 \<and> v \<le> 2147483647 then Some v else None))"

definition emptySnapshot :: ActivationSnapshot where
  "emptySnapshot = \<lparr>mappings = [], threadIds = [], currentThreadId = - 1, observedTargetBytes = [],
     collectionError = []\<rparr>"

text \<open>The copy of the target bytes; the second component tells whether collection goes on.\<close>

definition collectTargetBytes :: "ProcEnv \<Rightarrow> uintptr \<Rightarrow> size_t \<Rightarrow> ActivationSnapshot \<Rightarrow> ActivationSnapshot \<times> bool" where
  "collectTargetBytes env targetAddress targetSize snapshot =
     (case rangeEnd targetAddress targetSize of
        None \<Rightarrow> (snapshot, True)
      | Some targetEnd \<Rightarrow>
          (case find (\<lambda>entry. start entry \<le> targetAddress \<and> targetEnd \<le> endAddress entry) (mappings snapshot) of
             None \<Rightarrow> (snapshot, True)
           | Some mapping \<Rightarrow>
               (if \<not> readable mapping then (snapshot, True)
                else if \<not> memOpens env
                then (snapshot\<lparr>observedTargetBytes := replicate (unat targetSize) 0,
                              collectionError := ''could not open /proc/self/mem read-only''\<rparr>, False)
                else case pread env targetAddress (unat targetSize) of
                       Some bs \<Rightarrow>
                         (if length bs \<noteq> unat targetSize
                          then (snapshot\<lparr>collectionError := ''could not read the complete verified target range''\<rparr>, False)
                          else (snapshot\<lparr>observedTargetBytes := bs\<rparr>, True))
                     | None \<Rightarrow>
                         (snapshot\<lparr>collectionError := ''could not read the complete verified target range''\<rparr>, False))))"

definition collectThreads :: "ProcEnv \<Rightarrow> ActivationSnapshot \<Rightarrow> ActivationSnapshot" where
  "collectThreads env snapshot =
     (case taskNames env of
        None \<Rightarrow> snapshot\<lparr>collectionError := ''could not open /proc/self/task''\<rparr>
      | Some (names, failed) \<Rightarrow>
          (let ids = List.map_filter parseThreadId names in
           if failed
           then snapshot\<lparr>threadIds := ids,
                          collectionError := ''could not enumerate all entries in /proc/self/task''\<rparr>
           else snapshot\<lparr>threadIds := remdups_adj (sort ids), currentThreadId := gettid env\<rparr>))"

definition collectCurrentProcessActivationSnapshot :: "ProcEnv \<Rightarrow> uintptr \<Rightarrow> size_t \<Rightarrow> ActivationSnapshot" where
  "collectCurrentProcessActivationSnapshot env targetAddress targetSize =
     (if targetAddress = 0 \<or> targetSize = 0 \<or> targetSize > kMaxPreflightTargetSize \<or>
         targetAddress > 0x7FFFFFFFFFFFFFFF
      then emptySnapshot\<lparr>collectionError := ''target range is invalid for read-only preflight''\<rparr>
      else case mapsText env of
        None \<Rightarrow> emptySnapshot\<lparr>collectionError := ''could not open /proc/self/maps''\<rparr>
      | Some text \<Rightarrow>
          (case parseProcMapsText text False of
             Inl e \<Rightarrow> emptySnapshot\<lparr>collectionError := e\<rparr>
           | Inr ms \<Rightarrow>
               (case collectTargetBytes env targetAddress targetSize (emptySnapshot\<lparr>mappings := ms\<rparr>) of
                  (snapshot, goesOn) \<Rightarrow> if goesOn then collectThreads env snapshot else snapshot)))"

definition threadInventoryInvalid :: "ActivationSnapshot \<Rightarrow> bool" where
  "threadInventoryInvalid snapshot \<longleftrightarrow> threadIds snapshot = [] \<or> currentThreadId snapshot \<le> 0 \<or>
     \<not> sorted (threadIds snapshot) \<or> list_ex (\<lambda>tid. tid \<le> 0) (threadIds snapshot) \<or>
     \<not> distinct_adj (threadIds snapshot)"

definition evaluateActivationPreflight ::
  "Arm64PatchPlan \<Rightarrow> uintptr \<Rightarrow> string \<Rightarrow> ActivationSnapshot \<Rightarrow> ActivationPreflightResult" where
  "evaluateActivationPreflight plan targetAddress expectedModuleBasename snapshot =
     (let invalid = preflightResult kInvalidPlan ''plan, target address or expected module basename is invalid'' in
      if Arm64PatchPlan.status plan \<noteq> kReady \<or> targetAddress = 0 \<or> targetAddress AND 3 \<noteq> 0 \<or>
         overwriteSize plan = 0 \<or> length (originalBytes plan) \<noteq> unat (overwriteSize plan)
      then invalid
      else case rangeEnd targetAddress (overwriteSize plan) of
        None \<Rightarrow> invalid
      | Some targetEnd \<Rightarrow>
          (if resumeAddress plan \<noteq> targetEnd \<or> expectedModuleBasename = [] \<or>
              CHR ''/'' \<in> set expectedModuleBasename
           then invalid
           else if collectionError snapshot \<noteq> []
           then preflightResult kSnapshotError ''current process snapshot collection failed''
           else case find (\<lambda>entry. start entry \<le> targetAddress \<and> targetAddress < endAddress entry) (mappings snapshot) of
             None \<Rightarrow> preflightResult kTargetMappingMissing ''target address is not present in the process map''
           | Some mapping \<Rightarrow>
               (if targetEnd > endAddress mapping
                then preflightResult kTargetRangeSplit ''entry patch would cross a process mapping boundary''
                else if \<not> readable mapping \<or> writable mapping \<or> \<not> executable mapping \<or> \<not> privateMapping mapping
                then preflightResult kTargetPermissionMismatch
                       ''target mapping must be private, readable, executable and not writable''
                else if basename (path mapping) \<noteq> expectedModuleBasename
                then preflightResult kTargetModuleMismatch
                       ''target mapping does not belong to the expected module''
                else if observedTargetBytes snapshot \<noteq> originalBytes plan
                then preflightResult kTargetBytesMismatch
                       ''live target bytes do not match the reviewed ARM64 plan''
                else if threadInventoryInvalid snapshot
                then preflightResult kThreadInventoryInvalid
                       ''thread inventory is empty, duplicated or invalid''
                else if \<not> binarySearch (threadIds snapshot) (currentThreadId snapshot)
                then preflightResult kCurrentThreadMissing
                       ''current thread is absent from the thread inventory''
                else (preflightResult kReadyReadOnly
                        ''read-only activation preflight passed; no thread was stopped or memory changed'')
                       \<lparr>targetMapping := mapping, threadCount := length (threadIds snapshot)\<rparr>)))"

fun activationPreflightStatusName :: "ActivationPreflightStatus \<Rightarrow> string" where
  "activationPreflightStatusName kReadyReadOnly = ''ready_read_only''"
| "activationPreflightStatusName kInvalidPlan = ''invalid_plan''"
| "activationPreflightStatusName kSnapshotError = ''snapshot_error''"
| "activationPreflightStatusName kTargetMappingMissing = ''target_mapping_missing''"
| "activationPreflightStatusName kTargetRangeSplit = ''target_range_split''"
| "activationPreflightStatusName kTargetPermissionMismatch = ''target_permission_mismatch''"
| "activationPreflightStatusName kTargetModuleMismatch = ''target_module_mismatch''"
| "activationPreflightStatusName kTargetBytesMismatch = ''target_bytes_mismatch''"
| "activationPreflightStatusName kThreadInventoryInvalid = ''thread_inventory_invalid''"
| "activationPreflightStatusName kCurrentThreadMissing = ''current_thread_missing''"


interpretation preflight_names: enum_names activationPreflightStatusName
  "[kReadyReadOnly, kInvalidPlan, kSnapshotError, kTargetMappingMissing, kTargetRangeSplit,
    kTargetPermissionMismatch, kTargetModuleMismatch, kTargetBytesMismatch, kThreadInventoryInvalid,
    kCurrentThreadMissing]"
proof
  show "s \<in> set [kReadyReadOnly, kInvalidPlan, kSnapshotError, kTargetMappingMissing, kTargetRangeSplit,
      kTargetPermissionMismatch, kTargetModuleMismatch, kTargetBytesMismatch, kThreadInventoryInvalid,
      kCurrentThreadMissing]" for s
    by (cases s) simp_all
qed simp

interpretation address_codec: text_codec "\<lambda>w. toHexString (unat w)" parseHexAddress "\<lambda>_. True"
proof
  fix w :: uintptr
  have "uint w < 2 ^ 64"
    using unsigned_less [where 'a = int, of w] by simp
  then show "parseHexAddress (toHexString (unat w)) = Some w"
    using toHexString_props [of "unat w"] by (simp add: parseHexAddress_def strto_toHexString)
qed


section \<open>The process map\<close>

definition maps_ok :: "ProcessMapEntry list \<Rightarrow> bool" where
  "maps_ok ms \<longleftrightarrow> (\<forall>m \<in> set ms. start m < endAddress m) \<and> sorted_wrt (\<lambda>a b. endAddress a \<le> start b) ms"

lemma maps_ok_snoc:
  assumes "maps_ok ms" "start e < endAddress e" "ms = [] \<or> \<not> start e < endAddress (last ms)"
  shows "maps_ok (ms @ [e])"
proof -
  have "endAddress m \<le> start e" if m: "m \<in> set ms" for m
  proof -
    obtain ys l where ms: "ms = ys @ [l]"
      using m by (cases ms rule: rev_cases) auto
    have "endAddress m \<le> endAddress l"
      using m assms(1) by (auto simp: ms maps_ok_def sorted_wrt_append)
    then show ?thesis
      using assms(3) by (simp add: ms)
  qed
  then show ?thesis
    using assms(1,2) by (auto simp: maps_ok_def sorted_wrt_append)
qed

lemma parseMapsLine_ok:
  assumes "maps_ok acc"
  shows "on_ok (\<lambda>e. maps_ok (acc @ [e])) (parseMapsLine n line acc)"
proof (rule on_okI)
  fix e
  assume "parseMapsLine n line acc = Inr e"
  then have "start e < endAddress e" "acc = [] \<or> \<not> start e < endAddress (last acc)"
    by (auto simp: parseMapsLine_def Let_def not_le split: option.split_asm if_split_asm)
  with assms show "maps_ok (acc @ [e])"
    by (rule maps_ok_snoc)
qed

lemma parseMapsLoop_ok: "maps_ok acc \<Longrightarrow> on_ok maps_ok (parseMapsLoop n ls acc)"
proof (induction n ls acc rule: parseMapsLoop.induct)
  case (2 n line rest acc)
  then show ?case
    using parseMapsLine_ok [of acc "n + 1" line] by (cases "parseMapsLine (n + 1) line acc") simp_all
qed simp

lemma parseProcMapsText_ok: "parseProcMapsText text b = Inr ms \<Longrightarrow> maps_ok ms \<and> ms \<noteq> []"
  using parseMapsLoop_ok [of "[]" 0 "getlines text"]
  by (auto simp: parseProcMapsText_def maps_ok_def split: if_split_asm sum.split_asm list.split_asm)

lemma maps_ok_unique:
  assumes "maps_ok ms" "m \<in> set ms" "m' \<in> set ms"
    and "start m \<le> a" "a < endAddress m" "start m' \<le> a" "a < endAddress m'"
  shows "m = m'"
proof -
  obtain i j where ij: "i < length ms" "m = ms ! i" "j < length ms" "m' = ms ! j"
    using assms(2,3) by (auto simp: in_set_conv_nth)
  have "\<not> i < j" "\<not> j < i"
    using assms ij sorted_wrt_nth_less [of "\<lambda>a b. endAddress a \<le> start b" ms]
    by (force simp: maps_ok_def)+
  then show ?thesis
    using ij by (simp add: linorder_neq_iff [symmetric])
qed

text \<open>The kernel's text for a map.\<close>

definition permissionText :: "ProcessMapEntry \<Rightarrow> string" where
  "permissionText e =
     [if readable e then CHR ''r'' else CHR ''-'', if writable e then CHR ''w'' else CHR ''-'',
      if executable e then CHR ''x'' else CHR ''-'', if privateMapping e then CHR ''p'' else CHR ''s'']"

definition mapLine :: "ProcessMapEntry \<Rightarrow> string" where
  "mapLine e = toHexString (unat (start e)) @ CHR ''-'' # toHexString (unat (endAddress e)) @ CHR '' '' #
     permissionText e @
     '' 00000000 fd:00 0'' @ (if path e = [] then [] else ''    '' @ path e)"

definition path_plain :: "ProcessMapEntry \<Rightarrow> bool" where
  "path_plain e \<longleftrightarrow> newline \<notin> set (path e) \<and> (path e = [] \<or> hd (path e) \<noteq> CHR '' '')"

lemma permissionText_props:
  "validPermissions (permissionText e)" "permissionText e ! 0 = CHR ''r'' \<longleftrightarrow> readable e"
  "permissionText e ! Suc 0 = CHR ''w'' \<longleftrightarrow> writable e" "permissionText e ! 2 = CHR ''x'' \<longleftrightarrow> executable e"
  "permissionText e ! 3 = CHR ''p'' \<longleftrightarrow> privateMapping e"
  by (simp_all add: validPermissions_def permissionText_def)

lemma readTokens_mapLine:
  "readTokens 5 (mapLine e) = Some ([toHexString (unat (start e)) @ CHR ''-'' # toHexString (unat (endAddress e)),
     permissionText e,
     ''00000000'', ''fd:00'', ''0''], if path e = [] then [] else ''    '' @ path e)"
proof -
  define range where "range = toHexString (unat (start e)) @ CHR ''-'' # toHexString (unat (endAddress e))"
  define perm where "perm = permissionText e"
  define tail where "tail = (if path e = [] then [] else ''    '' @ path e)"
  have line: "mapLine e = range @ CHR '' '' # perm @ CHR '' '' # ''00000000'' @ CHR '' '' # ''fd:00'' @ CHR '' '' # ''0'' @ tail"
    by (simp add: mapLine_def range_def perm_def tail_def)
  have r: "range \<noteq> []" "\<forall>c \<in> set range. \<not> isSpace c"
    using toHexString_props [of "unat (start e)"] toHexString_props [of "unat (endAddress e)"] digit_not_sign
    by (auto simp: range_def isSpace_def)
  have p: "perm \<noteq> []" "\<forall>c \<in> set perm. \<not> isSpace c"
    by (auto simp: perm_def permissionText_def isSpace_def)
  have t: "tail = [] \<or> isSpace (hd tail)"
    by (simp add: tail_def isSpace_def)
  have sp: "isSpace (CHR '' '')" "\<forall>c \<in> set ''00000000''. \<not> isSpace c" "\<forall>c \<in> set ''fd:00''. \<not> isSpace c"
      "\<forall>c \<in> set ''0''. \<not> isSpace c"
    by (simp_all add: isSpace_def)
  show ?thesis
    unfolding line using r p t sp
    by (simp add: numeral_eq_Suc nextToken_word range_def [symmetric] perm_def [symmetric] tail_def [symmetric]
        del: set_simps append.simps)
qed

lemma parseMapsLine_mapLine:
  assumes "path_plain e" "start e < endAddress e" "acc = [] \<or> endAddress (last acc) \<le> start e"
  shows "parseMapsLine n (mapLine e) acc = Inr e"
proof -
  have dash: "CHR ''-'' \<notin> set (toHexString (unat (start e)))"
    using toHexString_props [of "unat (start e)"] digit_not_sign by auto
  have "trimLeadingSpaces (if path e = [] then [] else ''    '' @ path e) = path e"
    using assms(1) by (cases "path e") (auto simp: trimLeadingSpaces_def path_plain_def)
  then show ?thesis
    using assms(2,3) dash unfolding parseMapsLine_def readTokens_mapLine
    by (auto simp: Let_def address_codec.parse_render permissionText_props not_le not_less)
qed

lemma mapLine_no_newline:
  assumes "path_plain e"
  shows "newline \<notin> set (mapLine e)" "mapLine e \<noteq> []"
proof -
  have hex: "CHR 0x0A \<notin> set (toHexString n)" for n
    using toHexString_props [of n] digit_not_sign [of newline] by (auto simp: newline_def)
  have perm: "CHR 0x0A \<notin> set (permissionText e)"
    by (simp add: permissionText_def)
  show "newline \<notin> set (mapLine e)" "mapLine e \<noteq> []"
    using assms hex perm by (simp_all add: mapLine_def path_plain_def newline_def)
qed

lemma parseMapsLoop_mapLines:
  "maps_ok (acc @ ms) \<Longrightarrow> \<forall>e \<in> set ms. path_plain e \<Longrightarrow> parseMapsLoop n (map mapLine ms) acc = Inr (acc @ ms)"
proof (induction ms arbitrary: n acc)
  case (Cons e ms)
  have "start e < endAddress e" "acc = [] \<or> endAddress (last acc) \<le> start e"
    using Cons.prems(1) by (cases acc rule: rev_cases; auto simp: maps_ok_def sorted_wrt_append)+
  then have "parseMapsLine (n + 1) (mapLine e) acc = Inr e"
    using Cons.prems(2) by (intro parseMapsLine_mapLine) auto
  then show ?case
    using Cons.IH [of "acc @ [e]" "n + 1"] Cons.prems mapLine_no_newline [of e] by simp
qed simp

lemma parse_mapText:
  assumes "maps_ok ms" "ms \<noteq> []" "\<forall>e \<in> set ms. path_plain e"
  shows "parseProcMapsText (concat (map (\<lambda>e. mapLine e @ [newline]) ms)) False = Inr ms"
proof -
  have "getlines (concat (map (\<lambda>l. l @ [newline]) (map mapLine ms))) = map mapLine ms"
    using assms(3) mapLine_no_newline by (intro getlines_unlines) auto
  then have "parseMapsLoop 0 (getlines (concat (map (\<lambda>e. mapLine e @ [newline]) ms))) [] = Inr ms"
    using parseMapsLoop_mapLines [of "[]" ms 0] assms by (simp add: comp_def)
  then show ?thesis
    using assms(2) by (simp add: parseProcMapsText_def split: list.split)
qed


section \<open>The decision\<close>

lemma sorted_distinct_adj: "sorted (xs :: int list) \<Longrightarrow> distinct_adj xs \<longleftrightarrow> distinct xs"
proof (induction xs)
  case (Cons x xs)
  have "x \<in> set xs \<longleftrightarrow> xs \<noteq> [] \<and> x = hd xs"
    using Cons.prems by (cases xs) auto
  then show ?case
    using Cons by (auto simp: distinct_adj_Cons)
qed simp

definition inventory_ok :: "int list \<Rightarrow> int \<Rightarrow> bool" where
  "inventory_ok tids current \<longleftrightarrow> sorted tids \<and> distinct tids \<and> (\<forall>t \<in> set tids. 0 < t) \<and> current \<in> set tids"

lemma inventory_iff:
  "\<not> threadInventoryInvalid s \<and> binarySearch (threadIds s) (currentThreadId s) \<longleftrightarrow>
     inventory_ok (threadIds s) (currentThreadId s)"
  by (cases "sorted (threadIds s)")
     (auto simp: threadInventoryInvalid_def inventory_ok_def binarySearch_iff sorted_distinct_adj list_ex_iff not_le)

definition plan_applies :: "Arm64PatchPlan \<Rightarrow> uintptr \<Rightarrow> bool" where
  "plan_applies plan a \<longleftrightarrow> Arm64PatchPlan.status plan = kReady \<and> a \<noteq> 0 \<and> a AND 3 = 0 \<and>
     length (originalBytes plan) = unat (overwriteSize plan) \<and>
     rangeEnd a (overwriteSize plan) = Some (resumeAddress plan)"

definition mapping_accepts :: "Arm64PatchPlan \<Rightarrow> uintptr \<Rightarrow> string \<Rightarrow> ProcessMapEntry \<Rightarrow> bool" where
  "mapping_accepts plan a base m \<longleftrightarrow> resumeAddress plan \<le> endAddress m \<and> readable m \<and> \<not> writable m \<and>
     executable m \<and> privateMapping m \<and> basename (path m) = base"

text \<open>Every refusing branch of the decision is a guard in front of the next one.\<close>

lemma guard_ready:
  "st \<noteq> kReadyReadOnly \<Longrightarrow>
   status (if c then preflightResult st msg else x) = kReadyReadOnly \<longleftrightarrow> \<not> c \<and> status x = kReadyReadOnly"
  by (simp add: preflightResult_def)

lemma guard_ready_option:
  "st \<noteq> kReadyReadOnly \<Longrightarrow>
   status (case y of None \<Rightarrow> preflightResult st msg | Some z \<Rightarrow> f z) = kReadyReadOnly \<longleftrightarrow>
     (\<exists>z. y = Some z \<and> status (f z) = kReadyReadOnly)"
  by (simp add: preflightResult_def split: option.split)

lemma evaluate_ready_iff:
  "status (evaluateActivationPreflight plan a base s) = kReadyReadOnly \<longleftrightarrow>
     plan_applies plan a \<and> base \<noteq> [] \<and> CHR ''/'' \<notin> set base \<and> collectionError s = [] \<and>
     (\<exists>m. find (\<lambda>e. start e \<le> a \<and> a < endAddress e) (mappings s) = Some m \<and> mapping_accepts plan a base m) \<and>
     observedTargetBytes s = originalBytes plan \<and> inventory_ok (threadIds s) (currentThreadId s)"
proof -
  have final: "status ((preflightResult kReadyReadOnly msg)\<lparr>targetMapping := m, threadCount := n\<rparr>) = kReadyReadOnly" for msg m n
    by (simp add: preflightResult_def)
  have o: "overwriteSize plan \<noteq> 0" if "rangeEnd a (overwriteSize plan) = Some e" for e
    using that by (simp add: rangeEnd_Some_iff)
  show ?thesis
    unfolding evaluateActivationPreflight_def Let_def inventory_iff [symmetric] plan_applies_def mapping_accepts_def
    by (simp only: guard_ready guard_ready_option final ActivationPreflightStatus.distinct not_False_eq_True not_less
        de_Morgan_disj not_not HOL.simp_thms) (use o in blast)
qed


section \<open>The snapshot\<close>

lemma collectThreads_ok:
  assumes "collectionError (collectThreads env s) = []"
  shows "\<exists>names. taskNames env = Some (names, False) \<and>
    collectThreads env s =
      s\<lparr>threadIds := remdups_adj (sort (List.map_filter parseThreadId names)), currentThreadId := gettid env\<rparr>"
  using assms by (auto simp: collectThreads_def Let_def split: option.split_asm prod.split_asm if_split_asm)

lemma collectTargetBytes_found:
  assumes "rangeEnd a sz = Some e"
    and "find (\<lambda>m. start m \<le> a \<and> e \<le> endAddress m) (mappings s) = Some m" "readable m"
    and "collectTargetBytes env a sz s = (s', goesOn)" "collectionError s' = []"
  shows "goesOn \<and> (\<exists>bs. pread env a (unat sz) = Some bs \<and> length bs = unat sz \<and> s' = s\<lparr>observedTargetBytes := bs\<rparr>)"
  using assms by (auto simp: collectTargetBytes_def split: if_split_asm option.split_asm)

lemma parseMapsLine_error: "parseMapsLine n line acc = Inl e \<Longrightarrow> e \<noteq> []"
  by (auto simp: parseMapsLine_def Let_def split: option.split_asm if_split_asm)

lemma parseMapsLoop_error: "parseMapsLoop n ls acc = Inl e \<Longrightarrow> e \<noteq> []"
  by (induction n ls acc rule: parseMapsLoop.induct)
     (auto split: if_split_asm sum.split_asm dest: parseMapsLine_error)

lemma parseProcMapsText_error: "parseProcMapsText text b = Inl e \<Longrightarrow> e \<noteq> []"
  by (auto simp: parseProcMapsText_def split: if_split_asm sum.split_asm list.split_asm dest: parseMapsLoop_error)

lemma collect_parsed:
  assumes "collectionError (collectCurrentProcessActivationSnapshot env a sz) = []"
  shows "\<exists>text ms s goesOn. mapsText env = Some text \<and> parseProcMapsText text False = Inr ms \<and>
    collectTargetBytes env a sz (emptySnapshot\<lparr>mappings := ms\<rparr>) = (s, goesOn) \<and>
    collectCurrentProcessActivationSnapshot env a sz = (if goesOn then collectThreads env s else s)"
  using assms unfolding collectCurrentProcessActivationSnapshot_def
  by (auto split: if_split_asm option.split_asm sum.split_asm prod.split_asm dest: parseProcMapsText_error)

lemma collectTargetBytes_mappings: "collectTargetBytes env a sz s = (s', g) \<Longrightarrow> mappings s' = mappings s"
  by (auto simp: collectTargetBytes_def split: if_split_asm option.split_asm)

lemma collectThreads_mappings: "mappings (collectThreads env s) = mappings s"
  by (auto simp: collectThreads_def Let_def split: option.split)

lemma find_containing:
  assumes "maps_ok ms" "find (\<lambda>m. start m \<le> a \<and> a < endAddress m) ms = Some m" "a < e" "e \<le> endAddress m"
  shows "find (\<lambda>m. start m \<le> a \<and> e \<le> endAddress m) ms = Some m"
proof -
  have m: "m \<in> set ms" "start m \<le> a" "a < endAddress m"
    using assms(2) by (auto simp: find_Some_iff)
  then have "find (\<lambda>m. start m \<le> a \<and> e \<le> endAddress m) ms \<noteq> None"
    using assms(4) by (auto simp: find_None_iff)
  then obtain m' where m': "find (\<lambda>m. start m \<le> a \<and> e \<le> endAddress m) ms = Some m'"
    by auto
  then have "m' \<in> set ms" "start m' \<le> a" "a < endAddress m'"
    using assms(3) by (auto simp: find_Some_iff intro: less_le_trans)
  then have "m = m'"
    using m by (intro maps_ok_unique [OF assms(1)])
  with m' show ?thesis
    by simp
qed

text \<open>What an accepted preflight has established about the process.\<close>

definition preflight_established :: "ProcEnv \<Rightarrow> Arm64PatchPlan \<Rightarrow> uintptr \<Rightarrow> string \<Rightarrow> bool" where
  "preflight_established env plan a base \<longleftrightarrow>
     (\<exists>text ms m names. mapsText env = Some text \<and> parseProcMapsText text False = Inr ms \<and> maps_ok ms \<and>
        m \<in> set ms \<and> start m \<le> a \<and> mapping_accepts plan a base m \<and>
        pread env a (unat (overwriteSize plan)) = Some (originalBytes plan) \<and>
        taskNames env = Some (names, False) \<and>
        gettid env \<in> set (List.map_filter parseThreadId names))"

lemma ready_established:
  assumes "status (evaluateActivationPreflight plan a base
      (collectCurrentProcessActivationSnapshot env a (overwriteSize plan))) = kReadyReadOnly"
  shows "preflight_established env plan a base"
proof -
  define snap where "snap = collectCurrentProcessActivationSnapshot env a (overwriteSize plan)"
  have ready: "plan_applies plan a" "collectionError snap = []" "observedTargetBytes snap = originalBytes plan"
      "inventory_ok (threadIds snap) (currentThreadId snap)"
    using assms by (auto simp: evaluate_ready_iff simp flip: snap_def)
  obtain m where m: "find (\<lambda>e. start e \<le> a \<and> a < endAddress e) (mappings snap) = Some m" "mapping_accepts plan a base m"
    using assms by (auto simp: evaluate_ready_iff simp flip: snap_def)
  obtain content ms s g where t: "mapsText env = Some content" "parseProcMapsText content False = Inr ms"
      "collectTargetBytes env a (overwriteSize plan) (emptySnapshot\<lparr>mappings := ms\<rparr>) = (s, g)"
      "snap = (if g then collectThreads env s else s)"
    using collect_parsed [of env a "overwriteSize plan"] ready(2) by (auto simp flip: snap_def)
  have ok: "maps_ok ms"
    using parseProcMapsText_ok [OF t(2)] by simp
  have ms: "mappings snap = ms"
    using t(4) collectTargetBytes_mappings [OF t(3)] by (simp add: collectThreads_mappings)
  have range: "rangeEnd a (overwriteSize plan) = Some (resumeAddress plan)"
    using ready(1) by (simp add: plan_applies_def)
  have "a < resumeAddress plan"
    using range rangeEnd_unat [OF range] by (auto simp: word_less_nat_alt rangeEnd_Some_iff unat_eq_zero)
  with m ok ms have "find (\<lambda>m. start m \<le> a \<and> resumeAddress plan \<le> endAddress m) ms = Some m"
    by (auto simp: mapping_accepts_def intro: find_containing)
  moreover have "collectionError s = []"
    using ready(2) t(4) by (cases g) (auto simp: collectThreads_def Let_def split: option.split_asm if_split_asm)
  ultimately obtain bs where bs: "g" "pread env a (unat (overwriteSize plan)) = Some bs"
      "s = (emptySnapshot\<lparr>mappings := ms\<rparr>)\<lparr>observedTargetBytes := bs\<rparr>"
    using collectTargetBytes_found [OF range _ _ t(3)] m(2) by (auto simp: mapping_accepts_def)
  obtain names where n: "taskNames env = Some (names, False)"
      "snap = s\<lparr>threadIds := remdups_adj (sort (List.map_filter parseThreadId names)), currentThreadId := gettid env\<rparr>"
    using collectThreads_ok [of env s] ready(2) t(4) bs(1) by auto
  have "bs = originalBytes plan" "gettid env \<in> set (List.map_filter parseThreadId names)"
    using ready(3,4) n(2) bs(3) by (auto simp: inventory_ok_def)
  moreover have "m \<in> set ms" "start m \<le> a"
    using m(1) ms by (auto simp: find_Some_iff)
  ultimately show ?thesis
    using t(1,2) ok m(2) bs(2) n(1) unfolding preflight_established_def by blast
qed


section \<open>Properties\<close>

text \<open>
  C18. If the preflight of a freshly collected snapshot passes, then in the process map that
  was read the whole target range lies in one private, readable, executable and not writable
  mapping of the expected module, the bytes read from the target are those of the reviewed
  plan, and the calling thread is in the thread inventory.
\<close>
theorem preflight_sound:
  "status (evaluateActivationPreflight plan a base
      (collectCurrentProcessActivationSnapshot env a (overwriteSize plan))) = kReadyReadOnly \<Longrightarrow>
   preflight_established env plan a base"
  by (rule ready_established)


definition examplePath :: string where
  "examplePath = ''/system/lib64/libcameraservice.so''"

definition exampleMap :: "ProcessMapEntry list" where
  "exampleMap =
     [\<lparr>start = 0x10000000, endAddress = 0x10001000, readable = True, writable = False, executable = True,
       privateMapping = True, path = examplePath\<rparr>,
      \<lparr>start = 0x10001000, endAddress = 0x10002000, readable = True, writable = True, executable = False,
       privateMapping = True, path = []\<rparr>]"

definition examplePrologue :: bytes where
  "examplePrologue = [0x3f, 0x23, 0x03, 0xd5, 0xff, 0x83, 0x02, 0xd1, 0xfd, 0x7b, 0x04, 0xa9, 0xfc, 0x6f, 0x05, 0xa9]"

definition exampleProc :: ProcEnv where
  "exampleProc = \<lparr>mapsText = Some (concat (map (\<lambda>e. mapLine e @ [newline]) exampleMap)), memOpens = True,
     pread = (\<lambda>_ n. Some (take n examplePrologue)), taskNames = Some ([''.'', ''..'', ''812'', ''810''], False),
     gettid = 812\<rparr>"

lemma example_map_ok: "maps_ok exampleMap" "\<forall>e \<in> set exampleMap. path_plain e"
  by (simp_all add: maps_ok_def exampleMap_def path_plain_def examplePath_def newline_def)

definition exampleSnapshot :: ActivationSnapshot where
  "exampleSnapshot = \<lparr>mappings = exampleMap, threadIds = [810, 812], currentThreadId = 812,
     observedTargetBytes = examplePrologue, collectionError = []\<rparr>"

lemma example_collected: "collectCurrentProcessActivationSnapshot exampleProc 0x10000100 16 = exampleSnapshot"
proof -
  have ids: "List.map_filter parseThreadId [''.'', ''..'', ''812'', ''810''] = [812, 810]"
    by code_simp
  have found: "rangeEnd 0x10000100 16 = Some 0x10000110"
      "find (\<lambda>entry. start entry \<le> 0x10000100 \<and> 0x10000110 \<le> endAddress entry) exampleMap = Some (hd exampleMap)"
      "readable (hd exampleMap)"
    by code_simp+
  have "parseProcMapsText (concat (map (\<lambda>e. mapLine e @ [newline]) exampleMap)) False = Inr exampleMap"
    by (rule parse_mapText [OF example_map_ok(1) _ example_map_ok(2)]) (simp add: exampleMap_def)
  moreover have "collectThreads exampleProc (emptySnapshot\<lparr>mappings := exampleMap, observedTargetBytes := examplePrologue\<rparr>) =
      exampleSnapshot"
    using ids by (simp add: collectThreads_def exampleProc_def exampleSnapshot_def emptySnapshot_def)
  moreover have "collectTargetBytes exampleProc 0x10000100 16 (emptySnapshot\<lparr>mappings := exampleMap\<rparr>) =
      (emptySnapshot\<lparr>mappings := exampleMap, observedTargetBytes := examplePrologue\<rparr>, True)"
    using found by (simp add: collectTargetBytes_def exampleProc_def emptySnapshot_def examplePrologue_def)
  moreover have "mapsText exampleProc = Some (concat (map (\<lambda>e. mapLine e @ [newline]) exampleMap))"
    by (simp add: exampleProc_def)
  ultimately show ?thesis
    by (simp add: collectCurrentProcessActivationSnapshot_def kMaxPreflightTargetSize_def)
qed

lemma example_preflight:
  "status (evaluateActivationPreflight (planArm64InlineHook 0x10000100 0x20000000 examplePrologue) 0x10000100
     ''libcameraservice.so'' exampleSnapshot) = kReadyReadOnly"
  by code_simp

theorem preflight_sound_witness:
  "preflight_established exampleProc (planArm64InlineHook 0x10000100 0x20000000 examplePrologue) 0x10000100
     ''libcameraservice.so''"
proof -
  have "overwriteSize (planArm64InlineHook 0x10000100 0x20000000 examplePrologue) = 16"
    by code_simp
  then show ?thesis
    using example_preflight by (intro preflight_sound) (simp add: example_collected)
qed


end
