(* ===== verification/Spec2Isabelle.thy ===== *)
theory Spec2Isabelle
  imports Camera_Service_Router Device_User_Router Rgb_Frame Camera_Routes Passthrough_Bridge Parcel_Rewriter Protocol_Evidence Listener_Filter Arm64_Semantics Quiescence_World Abi_Probe Hook_Strategy Activation_Preflight Binder_Classifier Binder_Parcel
begin

text \<open>
  \<^bold>\<open>Verification of android-vcam.\<close>

  android-vcam shows a virtual camera to Android applications in the place of a physical one.
  Three groups of its C++ sources are modelled here: the runtime that is loaded into the
  camera server and can redirect one of its functions (\<open>src/runtime\<close>), the router that stands in
  front of the camera service (\<open>src/runtime/platform\<close>), and the routing tables and frame
  rendering that the router and the camera HAL share (\<open>src/hal\<close>).  Definitions carry the
  names of the source; a definition that stands for a part of a function, such as a loop or a
  chain of guards, has a name of its own and a line range in the map of the project.

  \<^bold>\<open>Conventions.\<close>  Machine integers are words of their width, C integers that cannot overflow are
  \<^typ>\<open>int\<close>, sizes and cursors are \<^typ>\<open>nat\<close>.  Structures are records, enumerations are datatypes, an
  early return or a failure is a constructor of a status type, an option or a sum.  State
  is passed explicitly.  The operating system, the dynamic loader, \<open>android::Parcel\<close>, Binder
  objects, the package and service managers and the rounding of floating-point numbers are not
  part of the repository: they are parameters, with their documented behaviour as a named
  predicate (\<^const>\<open>parcel_contract\<close> for parcels, for instance), and every such predicate
  has a concrete instance on which the witnesses are evaluated.

  \<^bold>\<open>The shared base.\<close>  \<open>Vcam_Prelude\<close> holds the types, byte-addressed memory and word lemmas;
  \<open>Text_Parsing\<close> and \<open>C_Strings\<close> hold \<open>getline\<close>, splitting, decimal and hexadecimal numbers and
  \<open>strtol\<close>, with locales for codecs of bytes and texts and for the names of enumerations.

  \<^bold>\<open>Redirecting a function.\<close>  \<open>Patch_Planner\<close> models \<open>Arm64PatchPlanner.cpp\<close>, \<open>Patch_Transaction\<close>
  models \<open>Arm64PatchInstallTransaction.cpp\<close>.  \<open>Patch_Discipline\<close> shows that every reachable run writes only
  inside an exclusive window and that end states absorb; \<open>Patch_Install\<close> shows that a commit
  is atomic, that a rollback restores the memory and that a planned installation succeeds.
  \<open>Arm64_Semantics\<close> gives the branch instructions a meaning: a committed hook executes, and the
  planner refuses instructions that depend on their address, except for one it does not recognise.
  \<open>Thread_Quiescence\<close> models \<open>ThreadQuiescenceCoordinator.cpp\<close>, \<open>Quiescence_World\<close> runs it against a
  world of threads: entering holds every peer, a failed attempt releases them.

  \<^bold>\<open>Recognising the build.\<close>  \<open>Sha256\<close>, \<open>Abi_Recipe\<close> and \<open>Abi_Probe\<close> model \<open>RuntimeAbiGuard.cpp\<close>: the hash
  agrees with its standard, recipes survive printing and parsing, and the probe decides whether
  the loaded module matches its recipe.  \<open>Activation_Preflight\<close> models
  \<open>RuntimeActivationPreflight.cpp\<close> with the parser of the memory map, \<open>Hook_Strategy\<close> models
  \<open>RuntimeHookStrategy.cpp\<close> and \<open>StaticArm64Trampoline.cpp\<close>: a ready strategy targets verified code.

  \<^bold>\<open>Routing camera transactions.\<close>  \<open>Binder_Parcel\<close> states the contract of parcels as sequences of cells
  with self-delimiting encodings.  \<open>Binder_Classifier\<close> models the modes, profiles, transaction
  and caller classifiers, \<open>Passthrough_Bridge\<close> the publication of the observer
  (\<open>BinderPassThroughBridge.cpp\<close>, as interleaved steps), \<open>Parcel_Observer\<close> the decoding of requests,
  \<open>Parcel_Rewriter\<close> the exchange of a camera id, \<open>Protocol_Evidence\<close> the counters and verdict,
  \<open>Listener_Filter\<close> the hiding of internal cameras, and \<open>Device_User_Router\<close> the delegator of an
  opened device.  Rewritten parcels are the originals with exactly the ids exchanged, and they
  decode again.  \<open>Camera_Routes\<close> models \<open>RouteResolver.cpp\<close> and \<open>ScopedCameraRouter.cpp\<close>.
  \<open>Camera_Service_Router\<close> composes all of these in the handler of
  \<open>AndroidCameraServiceRouter.cpp\<close>: a request reaches the service at most once, never for an
  internal camera, and only for the camera the client named or one that the policy gives to a
  package of the caller; the monitor ends and takes the service's name over only on qualified
  builds.  One transaction sees one state of the file system.

  \<^bold>\<open>Rendering frames.\<close>  \<open>Pattern_Generator\<close> models the test pattern, \<open>Rgb_Frame\<close> the source frames and
  the renderer.  A read outside the pixels of a frame is the value \<open>None\<close>; the lemmas show that
  this never happens, for any transform and any rounding, and that a fill stores exactly the image.
  Coordinates are computed over the reals, rounded by a parameter, so that infinities and
  values that are not numbers do not occur.

  \<^bold>\<open>Bounds and fuel.\<close>  Recursion is structural or has a measure.  Loops with a bound in the
  source keep it: the passes of the coordinator, the 3000 attempts of the monitor, the record and
  request counts of the parcels.  Two loops without one, the growing buffer of the executable's
  path and the update of the hash, are partial functions, and lemmas show that they return.

  \<^bold>\<open>Not modelled.\<close>  The signal-based backend of the coordinator and the launcher and agent of the camera
  server are system calls and signal handlers around the modelled interfaces; the camera HAL and the AIDL and
  HIDL providers drive buffers, fences and metadata of Android libraries; the native programs
  are input and output around files, sockets and FFmpeg; the applications, shell scripts,
  Python tools and tests are not part of the routing.  In the modelled files, logging and the exported getters are
  left out, and relaxed atomic updates of counters are single steps.
\<close>

end
